(* ===== verification/Prelude.thy ===== *)
theory Prelude
  imports Complex_Main "HOL-Library.Word" "HOL-Library.Sublist"
begin

text \<open>
  Shared vocabulary of the development: how the Go constructs that the components use are
  represented, with the lemmas that make the component proofs short.

  \<^item> A Go \<^verbatim>\<open>error\<close> result is an \<open>option\<close> (\<open>None\<close> is \<^verbatim>\<open>nil\<close>); a \<^verbatim>\<open>(T, error)\<close> result is a
    sum \<open>'e + 't\<close>. A sequence of early returns is \<open>first_error\<close> of the list of checks.
  \<^item> A Go map is an association list with distinct keys whose order is the order in which
    \<^verbatim>\<open>range\<close> visits it: lookup is \<open>map_of\<close>. Go leaves that order open, so a statement
    about such a list holds for every order.
  \<^item> A Go string is a \<open>string\<close> (a list of bytes).
  \<^item> A \<^verbatim>\<open>time.Time\<close> is the number of nanoseconds since the zero time as an \<open>int\<close>;
    \<^verbatim>\<open>Time.Sub\<close> saturates at the bounds of \<^verbatim>\<open>time.Duration\<close>.
  \<^item> A \<^verbatim>\<open>float64\<close> read from a configuration file is an \<open>f64\<close>: a real number, an infinity or NaN,
    with the comparison rules of IEEE 754. Rounding and the sign of zero are not modelled.
\<close>

named_theorems go_defs \<open>definitions of the Go library functions used by the components\<close>


section \<open>Errors\<close>

fun first_error :: "'e option list \<Rightarrow> 'e option" where
  "first_error [] = None"
| "first_error (None # es) = first_error es"
| "first_error (Some e # es) = Some e"

definition check :: "bool \<Rightarrow> 'e \<Rightarrow> 'e option" where
  "check b e = (if b then None else Some e)"

lemma check_None [simp]: "check b e = None \<longleftrightarrow> b"
  by (simp add: check_def)

lemma check_True [simp]: "check True e = None"
  by (simp add: check_def)

lemma check_False [simp]: "check False e = Some e"
  by (simp add: check_def)

lemma first_error_None [simp]: "first_error es = None \<longleftrightarrow> (\<forall>e \<in> set es. e = None)"
  by (induction es rule: first_error.induct) auto

lemma first_error_append:
  "first_error (es @ fs) = (case first_error es of None \<Rightarrow> first_error fs | Some e \<Rightarrow> Some e)"
  by (induction es rule: first_error.induct) auto

text \<open>The reported error is one of the checks that failed.\<close>

lemma first_error_Some_in: "first_error es = Some e \<Longrightarrow> Some e \<in> set es"
  by (induction es rule: first_error.induct) auto


section \<open>Maps in iteration order\<close>

fun map_set :: "'k \<Rightarrow> 'v \<Rightarrow> ('k \<times> 'v) list \<Rightarrow> ('k \<times> 'v) list" where
  "map_set k v [] = [(k, v)]"
| "map_set k v (e # m) = (if fst e = k then (k, v) # m else e # map_set k v m)"

definition map_del :: "'k \<Rightarrow> ('k \<times> 'v) list \<Rightarrow> ('k \<times> 'v) list" where
  "map_del k m = filter (\<lambda>(k', _). k' \<noteq> k) m"

definition wf_map :: "('k \<times> 'v) list \<Rightarrow> bool" where
  "wf_map m \<longleftrightarrow> distinct (map fst m)"

lemma map_of_map_set [simp]: "map_of (map_set k v m) x = (if x = k then Some v else map_of m x)"
  by (induction m) auto

lemma map_of_map_del [simp]: "map_of (map_del k m) x = (if x = k then None else map_of m x)"
  by (induction m) (auto simp: map_del_def)

lemma keys_map_set [simp]: "fst ` set (map_set k v m) = insert k (fst ` set m)"
  by (induction m) auto

lemma keys_map_del [simp]: "fst ` set (map_del k m) = fst ` set m - {k}"
  by (auto simp: map_del_def image_iff)

lemma wf_map_Nil [simp, intro]: "wf_map []"
  by (simp add: wf_map_def)

lemma keys_map_set_list: "set (map fst (map_set k v m)) = insert k (set (map fst m))"
  by (simp only: set_map keys_map_set)

lemma keys_foldl_map_set:
  "fst ` set (foldl (\<lambda>m x. map_set (g x) (h x) m) m xs) = fst ` set m \<union> g ` set xs"
  by (induction xs arbitrary: m) auto

lemma map_of_foldl_map_set_other:
  "k \<notin> g ` set xs \<Longrightarrow> map_of (foldl (\<lambda>m x. map_set (g x) (h x) m) m xs) k = map_of m k"
  by (induction xs arbitrary: m) auto

lemma map_of_foldl_map_set:
  "distinct (map g xs) \<Longrightarrow> x \<in> set xs \<Longrightarrow>
     map_of (foldl (\<lambda>m x. map_set (g x) (h x) m) m xs) (g x) = Some (h x)"
  by (induction xs arbitrary: m) (auto simp: map_of_foldl_map_set_other)

lemma wf_map_set [simp, intro]: "wf_map m \<Longrightarrow> wf_map (map_set k v m)"
  unfolding wf_map_def by (induction m) (auto simp: keys_map_set_list simp del: set_map)

lemma wf_map_del [simp, intro]: "wf_map m \<Longrightarrow> wf_map (map_del k m)"
  by (auto simp: wf_map_def map_del_def distinct_map inj_on_def)

lemma map_set_new: "k \<notin> fst ` set m \<Longrightarrow> map_set k v m = m @ [(k, v)]"
  by (induction m) auto

lemma map_set_same: "map_of m k = Some v \<Longrightarrow> map_set k v m = m"
  by (induction m) (auto split: if_splits)

lemma wf_map_lookup: "wf_map m \<Longrightarrow> (k, v) \<in> set m \<longleftrightarrow> map_of m k = Some v"
  by (auto simp: wf_map_def dest: map_of_SomeD)


text \<open>A NULL or missing string read as the empty one.\<close>

definition or_empty :: "string option \<Rightarrow> string" where
  "or_empty s = (case s of None \<Rightarrow> '''' | Some x \<Rightarrow> x)"


section \<open>Strings\<close>

text \<open>\<^verbatim>\<open>strings.HasPrefix\<close>, \<^verbatim>\<open>strings.TrimPrefix\<close>, \<^verbatim>\<open>strings.Contains\<close>, \<^verbatim>\<open>strings.ReplaceAll\<close> of a
  one-byte pattern.\<close>

definition has_prefix :: "string \<Rightarrow> string \<Rightarrow> bool" where
  "has_prefix s p \<longleftrightarrow> take (length p) s = p"

definition trim_prefix :: "string \<Rightarrow> string \<Rightarrow> string" where
  "trim_prefix s p = (if has_prefix s p then drop (length p) s else s)"

fun contains :: "string \<Rightarrow> string \<Rightarrow> bool" where
  "contains [] p = (p = [])"
| "contains (c # s) p = (has_prefix (c # s) p \<or> contains s p)"

definition replace_char :: "string \<Rightarrow> char \<Rightarrow> string \<Rightarrow> string" where
  "replace_char s c r = concat (map (\<lambda>x. if x = c then r else [x]) s)"

lemma has_prefix_iff: "has_prefix s p \<longleftrightarrow> (\<exists>t. s = p @ t)"
  unfolding has_prefix_def by (metis append_eq_conv_conj append_take_drop_id)

lemma has_prefix_append [simp]: "has_prefix (p @ t) p"
  by (simp add: has_prefix_def)

lemma has_prefix_self [simp]: "has_prefix p p"
  by (simp add: has_prefix_def)

lemma has_prefix_Nil [simp]: "has_prefix s []"
  by (simp add: has_prefix_def)

lemma has_prefix_trans: "has_prefix s p \<Longrightarrow> has_prefix p q \<Longrightarrow> has_prefix s q"
  by (auto simp: has_prefix_iff)

lemma trim_prefix_append [simp]: "trim_prefix (p @ t) p = t"
  by (simp add: trim_prefix_def)

lemma replace_char_append [simp]:
  "replace_char (s @ t) c r = replace_char s c r @ replace_char t c r"
  by (simp add: replace_char_def)

lemma replace_char_absent: "c \<notin> set s \<Longrightarrow> replace_char s c r = s"
  by (induction s) (auto simp: replace_char_def)

text \<open>\<^verbatim>\<open>strings.Split\<close> at a one-byte separator: never the empty list.\<close>

fun split_at_char :: "char \<Rightarrow> string \<Rightarrow> string list" where
  "split_at_char c [] = [[]]"
| "split_at_char c (x # s) =
     (if x = c then [] # split_at_char c s
      else (case split_at_char c s of [] \<Rightarrow> [[x]] | t # ts \<Rightarrow> (x # t) # ts))"

fun join_char :: "char \<Rightarrow> string list \<Rightarrow> string" where
  "join_char c [] = []"
| "join_char c [t] = t"
| "join_char c (t # ts) = t @ c # join_char c ts"

lemma split_at_char_not_Nil [simp]: "split_at_char c s \<noteq> []"
  by (cases s) (auto split: list.splits)

lemma split_at_char_sep_free: "t \<in> set (split_at_char c s) \<Longrightarrow> c \<notin> set t"
  by (induction s arbitrary: t) (auto split: list.splits if_splits)

lemma split_at_char_free: "c \<notin> set t \<Longrightarrow> split_at_char c t = [t]"
  by (induction t) auto

lemma split_at_char_append:
  "c \<notin> set t \<Longrightarrow> split_at_char c (t @ c # s) = t # split_at_char c s"
  by (induction t) auto

lemma join_split_char [simp]: "join_char c (split_at_char c s) = s"
proof (induction s)
  case Nil
  then show ?case by simp
next
  case (Cons x s)
  obtain t ts where "split_at_char c s = t # ts"
    by (cases "split_at_char c s") auto
  with Cons show ?case by (cases ts) auto
qed

lemma split_join_char:
  "ts \<noteq> [] \<Longrightarrow> (\<forall>t \<in> set ts. c \<notin> set t) \<Longrightarrow> split_at_char c (join_char c ts) = ts"
  by (induction c ts rule: join_char.induct) (auto simp: split_at_char_free split_at_char_append)

text \<open>Byte classes of the regular expressions.\<close>

definition is_lower :: "char \<Rightarrow> bool" where
  "is_lower c \<longleftrightarrow> 97 \<le> (of_char c :: nat) \<and> (of_char c :: nat) \<le> 122"

definition is_digit_char :: "char \<Rightarrow> bool" where
  "is_digit_char c \<longleftrightarrow> 48 \<le> (of_char c :: nat) \<and> (of_char c :: nat) \<le> 57"


section \<open>Machine integers and time\<close>

definition wrap64 :: "int \<Rightarrow> int" where
  "wrap64 i = (i + 2 ^ 63) mod 2 ^ 64 - 2 ^ 63"

lemma wrap64_id: "- (2 ^ 63) \<le> i \<Longrightarrow> i < 2 ^ 63 \<Longrightarrow> wrap64 i = i"
  by (simp add: wrap64_def)

lemma wrap64_bounds: "- (2 ^ 63) \<le> wrap64 i \<and> wrap64 i < 2 ^ 63"
proof -
  have "0 \<le> (i + 2 ^ 63) mod (2 ^ 64)" "(i + 2 ^ 63) mod (2 ^ 64) < (2 ^ 64 :: int)"
    by (rule pos_mod_sign pos_mod_bound; simp)+
  then show ?thesis by (simp add: wrap64_def)
qed

type_synonym bytes = "8 word list"
type_synonym time = int
type_synonym duration = int

definition time_is_zero :: "time \<Rightarrow> bool" where
  "time_is_zero t \<longleftrightarrow> t = 0"

definition time_sub :: "time \<Rightarrow> time \<Rightarrow> duration" where
  "time_sub a b = max (- (2 ^ 63)) (min (2 ^ 63 - 1) (a - b))"

text \<open>Seconds since the Unix epoch, and back; time 0 is the zero \<^verbatim>\<open>time.Time\<close>, the start of year 1.\<close>

definition unix_offset :: int where
  "unix_offset = 62135596800"

definition unix :: "time \<Rightarrow> int" where
  "unix t = t div 1000000000 - unix_offset"

definition unix_time :: "int \<Rightarrow> time" where
  "unix_time s = (s + unix_offset) * 1000000000"

definition milliseconds :: "int \<Rightarrow> duration" where
  "milliseconds n = n * 1000000"

definition seconds :: "int \<Rightarrow> duration" where
  "seconds n = n * 1000000000"

lemma time_sub_self [simp]: "time_sub a a = 0"
  by (simp add: time_sub_def)

lemma time_sub_le_iff:
  "- (2 ^ 63) \<le> d \<Longrightarrow> d < 2 ^ 63 - 1 \<Longrightarrow> time_sub a b \<le> d \<longleftrightarrow> a - b \<le> d"
  by (auto simp: time_sub_def)

lemma time_sub_mono: "a \<le> a' \<Longrightarrow> time_sub a b \<le> time_sub a' b"
  by (auto simp: time_sub_def)


section \<open>Floating point values of configuration files\<close>

datatype f64 = Fin real | PosInf | NegInf | NaN

fun f_le :: "f64 \<Rightarrow> f64 \<Rightarrow> bool" where
  "f_le NaN _ = False"
| "f_le _ NaN = False"
| "f_le (Fin a) (Fin b) = (a \<le> b)"
| "f_le NegInf _ = True"
| "f_le _ PosInf = True"
| "f_le _ _ = False"

fun f_lt :: "f64 \<Rightarrow> f64 \<Rightarrow> bool" where
  "f_lt NaN _ = False"
| "f_lt _ NaN = False"
| "f_lt (Fin a) (Fin b) = (a < b)"
| "f_lt PosInf _ = False"
| "f_lt _ NegInf = False"
| "f_lt _ _ = True"

definition f_eq :: "f64 \<Rightarrow> f64 \<Rightarrow> bool" where
  "f_eq a b \<longleftrightarrow> a = b \<and> a \<noteq> NaN"

fun f_neg :: "f64 \<Rightarrow> f64" where
  "f_neg (Fin a) = Fin (- a)"
| "f_neg PosInf = NegInf"
| "f_neg NegInf = PosInf"
| "f_neg NaN = NaN"

fun f_add :: "f64 \<Rightarrow> f64 \<Rightarrow> f64" where
  "f_add (Fin a) (Fin b) = Fin (a + b)"
| "f_add NaN _ = NaN"
| "f_add _ NaN = NaN"
| "f_add PosInf NegInf = NaN"
| "f_add NegInf PosInf = NaN"
| "f_add PosInf _ = PosInf"
| "f_add _ PosInf = PosInf"
| "f_add NegInf _ = NegInf"
| "f_add _ NegInf = NegInf"

definition f_sub :: "f64 \<Rightarrow> f64 \<Rightarrow> f64" where
  "f_sub a b = f_add a (f_neg b)"

definition f_signed_inf :: "real \<Rightarrow> f64" where
  "f_signed_inf s = (if s > 0 then PosInf else if s < 0 then NegInf else NaN)"

fun f_mul :: "f64 \<Rightarrow> f64 \<Rightarrow> f64" where
  "f_mul (Fin a) (Fin b) = Fin (a * b)"
| "f_mul NaN _ = NaN"
| "f_mul _ NaN = NaN"
| "f_mul (Fin a) PosInf = f_signed_inf a"
| "f_mul (Fin a) NegInf = f_signed_inf (- a)"
| "f_mul PosInf (Fin b) = f_signed_inf b"
| "f_mul NegInf (Fin b) = f_signed_inf (- b)"
| "f_mul PosInf PosInf = PosInf"
| "f_mul NegInf NegInf = PosInf"
| "f_mul _ _ = NegInf"

fun f_div :: "f64 \<Rightarrow> f64 \<Rightarrow> f64" where
  "f_div NaN _ = NaN"
| "f_div _ NaN = NaN"
| "f_div (Fin a) (Fin b) = (if b = 0 then f_signed_inf a else Fin (a / b))"
| "f_div (Fin a) _ = Fin 0"
| "f_div PosInf (Fin b) = (if b < 0 then NegInf else PosInf)"
| "f_div NegInf (Fin b) = (if b < 0 then PosInf else NegInf)"
| "f_div _ _ = NaN"

lemma f_le_refl_iff [simp]: "f_le a a \<longleftrightarrow> a \<noteq> NaN"
  by (cases a) auto

lemma f_lt_imp_le: "f_lt a b \<Longrightarrow> f_le a b"
  by (cases a; cases b) auto

lemma not_f_le: "\<not> f_le a b \<longleftrightarrow> f_lt b a \<or> a = NaN \<or> b = NaN"
  by (cases a; cases b) auto

section \<open>Results\<close>

text \<open>
  A Go call that returns \<^verbatim>\<open>(T, error)\<close> is a sum: \<open>Inl\<close> the error, \<open>Inr\<close> the value. The two
  combinators are the early return \<^verbatim>\<open>if err != nil { return nil, err }\<close>, after a call that also
  gives a value and after one that only gives an error.
\<close>

fun res_bind :: "'e + 'a \<Rightarrow> ('a \<Rightarrow> 'e + 'b) \<Rightarrow> 'e + 'b" where
  "res_bind (Inl e) f = Inl e"
| "res_bind (Inr x) f = f x"

fun ensure :: "'e option \<Rightarrow> 'e + 'a \<Rightarrow> 'e + 'a" where
  "ensure (Some e) r = Inl e"
| "ensure None r = r"

lemma res_bind_Inr [simp]: "res_bind r f = Inr y \<longleftrightarrow> (\<exists>x. r = Inr x \<and> f x = Inr y)"
  by (cases r) auto

lemma ensure_Inr [simp]: "ensure e r = Inr y \<longleftrightarrow> e = None \<and> r = Inr y"
  by (cases e) auto

lemma first_error_map_check [simp]:
  "first_error (map (\<lambda>x. check (P x) (e x)) xs) = None \<longleftrightarrow> (\<forall>x \<in> set xs. P x)"
  by (induction xs) auto

end
