(* ===== verification/Nav.thy ===== *)
theory Nav
  imports Prelude
begin

text \<open>
  The planar geometry of \<^verbatim>\<open>modules/survey/internal/nav/nav.go\<close>. Coordinates and angles are real
  numbers: rounding is not modelled. The two loops of \<open>WrapAngle\<close> are a terminating recursion here; on
  floating-point numbers so large that subtracting a full turn changes nothing they would not end.
\<close>

section \<open>Library functions\<close>

text \<open>\<^verbatim>\<open>math.Atan2\<close>, \<^verbatim>\<open>math.Hypot\<close> and \<^verbatim>\<open>math.Copysign\<close>, without signed zeros.\<close>

definition atan2 :: "real \<Rightarrow> real \<Rightarrow> real" where
  "atan2 y x =
     (if x > 0 then arctan (y / x)
      else if x < 0 then (if y \<ge> 0 then arctan (y / x) + pi else arctan (y / x) - pi)
      else if y > 0 then pi / 2 else if y < 0 then - (pi / 2) else 0)"

definition hypot :: "real \<Rightarrow> real \<Rightarrow> real" where
  "hypot x y = sqrt (x ^ 2 + y ^ 2)"

definition copysign :: "real \<Rightarrow> real \<Rightarrow> real" where
  "copysign f s = (if s \<ge> 0 then \<bar>f\<bar> else - \<bar>f\<bar>)"


section \<open>Vectors and poses\<close>

record vec =
  vX :: real
  vY :: real

record pose =
  pX :: real
  pY :: real
  pTheta :: real

definition Position :: "pose \<Rightarrow> vec" where
  "Position p = \<lparr>vX = pX p, vY = pY p\<rparr>"

function wrap_down :: "real \<Rightarrow> real" where
  "wrap_down a = (if a > pi then wrap_down (a - 2 * pi) else a)"
  by pat_completeness auto

termination wrap_down
proof (relation "measure (\<lambda>a. nat \<lceil>a\<rceil>)")
  fix a :: real assume "a > pi"
  moreover have "pi \<ge> 2" by (rule pi_ge_two)
  ultimately show "(a - 2 * pi, a) \<in> measure (\<lambda>a. nat \<lceil>a\<rceil>)" by simp linarith
qed simp

function wrap_up :: "real \<Rightarrow> real" where
  "wrap_up a = (if a \<le> - pi then wrap_up (a + 2 * pi) else a)"
  by pat_completeness auto

termination wrap_up
proof (relation "measure (\<lambda>a. nat \<lceil>- a\<rceil>)")
  fix a :: real assume "a \<le> - pi"
  moreover have "pi \<ge> 2" by (rule pi_ge_two)
  ultimately show "(a + 2 * pi, a) \<in> measure (\<lambda>a. nat \<lceil>- a\<rceil>)" by simp linarith
qed simp

declare wrap_down.simps [simp del] wrap_up.simps [simp del]

definition WrapAngle :: "real \<Rightarrow> real" where
  "WrapAngle a = wrap_up (wrap_down a)"

definition Integrate :: "real \<Rightarrow> real \<Rightarrow> real \<Rightarrow> pose \<Rightarrow> pose" where
  "Integrate vx yawRate dt p =
     \<lparr>pX = pX p + vx * cos (pTheta p) * dt,
      pY = pY p + vx * sin (pTheta p) * dt,
      pTheta = WrapAngle (pTheta p + yawRate * dt)\<rparr>"

definition Dist :: "vec \<Rightarrow> vec \<Rightarrow> real" where
  "Dist a b = hypot (vX b - vX a) (vY b - vY a)"

definition BearingTo :: "pose \<Rightarrow> vec \<Rightarrow> real" where
  "BearingTo p t = WrapAngle (atan2 (vY t - pY p) (vX t - pX p) - pTheta p)"


section \<open>Wrapping\<close>

lemma wrap_down_spec: "wrap_down a \<le> pi \<and> (\<exists>k::nat. wrap_down a = a - 2 * pi * k) \<and> (a > - pi \<longrightarrow> wrap_down a > - pi)"
proof (induction a rule: wrap_down.induct)
  case (1 a)
  show ?case
  proof (cases "a > pi")
    case True
    with 1 obtain k :: nat where k: "wrap_down (a - 2 * pi) = a - 2 * pi - 2 * pi * k" by blast
    have "a - 2 * pi - 2 * pi * k = a - 2 * pi * (Suc k)" by (simp add: algebra_simps)
    with 1 True k show ?thesis
      by (auto simp: wrap_down.simps [of a] simp del: of_nat_Suc)
  next
    case False
    then show ?thesis by (auto simp: wrap_down.simps [of a] intro!: exI [of _ "0::nat"])
  qed
qed

lemma wrap_up_spec: "wrap_up a > - pi \<and> (\<exists>k::nat. wrap_up a = a + 2 * pi * k) \<and> (a \<le> pi \<longrightarrow> wrap_up a \<le> pi)"
proof (induction a rule: wrap_up.induct)
  case (1 a)
  show ?case
  proof (cases "a \<le> - pi")
    case True
    with 1 obtain k :: nat where k: "wrap_up (a + 2 * pi) = a + 2 * pi + 2 * pi * k" by blast
    have "a + 2 * pi + 2 * pi * k = a + 2 * pi * (Suc k)" by (simp add: algebra_simps)
    with 1 True k show ?thesis
      by (auto simp: wrap_up.simps [of a] simp del: of_nat_Suc)
  next
    case False
    then show ?thesis by (auto simp: wrap_up.simps [of a] intro!: exI [of _ "0::nat"])
  qed
qed

lemma WrapAngle_range: "- pi < WrapAngle a" "WrapAngle a \<le> pi"
  using wrap_up_spec [of "wrap_down a"] wrap_down_spec [of a] by (auto simp: WrapAngle_def)

lemma WrapAngle_turns: "\<exists>k::int. WrapAngle a = a + 2 * pi * k"
proof -
  obtain i j :: nat where "wrap_down a = a - 2 * pi * i" "wrap_up (wrap_down a) = wrap_down a + 2 * pi * j"
    using wrap_up_spec [of "wrap_down a"] wrap_down_spec [of a] by blast
  then have "WrapAngle a = a + 2 * pi * of_int (int j - int i)"
    by (simp add: WrapAngle_def algebra_simps)
  then show ?thesis by blast
qed

lemma WrapAngle_id: "- pi < a \<Longrightarrow> a \<le> pi \<Longrightarrow> WrapAngle a = a"
  by (simp add: WrapAngle_def wrap_down.simps [of a] wrap_up.simps [of a])

lemma two_pi_multiple_zero:
  assumes "- (2 * pi) < 2 * pi * of_int k" "2 * pi * of_int k < 2 * pi"
  shows "k = 0"
proof -
  have "- 1 < real_of_int k" "real_of_int k < 1"
    using assms mult_less_cancel_left_pos [of "2 * pi" "-1" "of_int k"]
      mult_less_cancel_left_pos [of "2 * pi" "of_int k" 1] by simp_all
  then show ?thesis by linarith
qed

lemma WrapAngle_unique:
  assumes "- pi < b" "b \<le> pi" "b = a + 2 * pi * of_int k"
  shows "WrapAngle a = b"
proof -
  obtain j :: int where j: "WrapAngle a = a + 2 * pi * of_int j" using WrapAngle_turns by blast
  then have "WrapAngle a - b = 2 * pi * of_int (j - k)" using assms(3) by (simp add: algebra_simps)
  moreover have "- (2 * pi) < WrapAngle a - b" "WrapAngle a - b < 2 * pi"
    using WrapAngle_range [of a] assms by linarith+
  ultimately have "j - k = 0" using two_pi_multiple_zero [of "j - k"] by simp
  with j assms(3) show ?thesis by simp
qed

lemma sin_cos_turns: "sin (a + 2 * pi * of_int k) = sin a" "cos (a + 2 * pi * of_int k) = cos a"
  by (simp_all add: sin_add cos_add)

lemma sin_cos_WrapAngle [simp]: "sin (WrapAngle a) = sin a" "cos (WrapAngle a) = cos a"
  using WrapAngle_turns [of a] sin_cos_turns by metis+

section \<open>Bearings\<close>

lemma cos_sign:
  assumes "- pi < a" "a \<le> pi"
  shows "cos a > 0 \<longleftrightarrow> \<bar>a\<bar> < pi / 2" "cos a < 0 \<longleftrightarrow> \<bar>a\<bar> > pi / 2"
proof -
  have b: "0 \<le> \<bar>a\<bar>" "\<bar>a\<bar> \<le> pi" "0 \<le> pi / 2" "pi / 2 \<le> pi" using assms by auto
  have "cos \<bar>a\<bar> = cos a" by (simp add: abs_if)
  then show "cos a > 0 \<longleftrightarrow> \<bar>a\<bar> < pi / 2" "cos a < 0 \<longleftrightarrow> \<bar>a\<bar> > pi / 2"
    using cos_mono_less_eq [OF b(3,4,1,2)] cos_mono_less_eq [OF b(1,2,3,4)] by simp_all
qed

lemma sin_sign:
  assumes "- pi < a" "a \<le> pi" "a \<noteq> pi"
  shows "sin a > 0 \<longleftrightarrow> a > 0" "sin a < 0 \<longleftrightarrow> a < 0"
proof -
  have "a > 0 \<Longrightarrow> sin a > 0" using assms by (intro sin_gt_zero) auto
  moreover have "a < 0 \<Longrightarrow> sin a < 0" using sin_gt_zero [of "- a"] assms by simp
  moreover have "a = 0 \<Longrightarrow> sin a = 0" by simp
  ultimately show "sin a > 0 \<longleftrightarrow> a > 0" "sin a < 0 \<longleftrightarrow> a < 0"
    by (cases a "0::real" rule: linorder_cases; simp)+
qed

lemma atan2_polar_principal:
  assumes "d > 0" "- pi < a" "a \<le> pi"
  shows "atan2 (d * sin a) (d * cos a) = a"
proof -
  have q: "d * sin a / (d * cos a) = tan a" using assms(1) by (simp add: tan_def)
  have s: "d * cos a > 0 \<longleftrightarrow> cos a > 0" "d * cos a < 0 \<longleftrightarrow> cos a < 0"
    "d * sin a > 0 \<longleftrightarrow> sin a > 0" "d * sin a < 0 \<longleftrightarrow> sin a < 0"
    using assms(1) by (simp_all add: zero_less_mult_iff mult_less_0_iff)
  consider (pos) "\<bar>a\<bar> < pi / 2" | (left) "a > pi / 2" | (right) "a < - (pi / 2)" | (up) "a = pi / 2" | (down) "a = - (pi / 2)"
    by linarith
  then show ?thesis
  proof cases
    case pos
    then have "arctan (tan a) = a" by (intro arctan_unique) auto
    with pos cos_sign [OF assms(2,3)] q s show ?thesis by (simp add: atan2_def)
  next
    case left
    have "tan (a - pi) = tan a" using tan_periodic_pi [of "a - pi"] by simp
    then have "arctan (tan a) = a - pi" using left assms by (intro arctan_unique) auto
    moreover have "d * sin a \<ge> 0" using left assms sin_ge_zero [of a] by simp
    moreover have "d * cos a < 0" using left cos_sign(2) [OF assms(2,3)] s by linarith
    ultimately show ?thesis unfolding atan2_def q by simp
  next
    case right
    have "tan (a + pi) = tan a" by simp
    then have "arctan (tan a) = a + pi" using right assms by (intro arctan_unique) auto
    moreover have "d * sin a < 0" using right assms sin_sign(2) [of a] s by linarith
    moreover have "d * cos a < 0" using right cos_sign(2) [OF assms(2,3)] s by linarith
    ultimately show ?thesis unfolding atan2_def q by simp
  next
    case up
    show ?thesis unfolding up using assms(1) by (simp add: atan2_def)
  next
    case down
    show ?thesis unfolding down using assms(1) by (simp add: atan2_def)
  qed
qed

lemma atan2_polar: "d > 0 \<Longrightarrow> atan2 (d * sin a) (d * cos a) = WrapAngle a"
  using atan2_polar_principal [of d "WrapAngle a"] WrapAngle_range [of a] by simp

lemma WrapAngle_diff: "WrapAngle (WrapAngle (a + b) - a) = WrapAngle b"
proof -
  obtain j k :: int where "WrapAngle (a + b) = a + b + 2 * pi * of_int j" "WrapAngle b = b + 2 * pi * of_int k"
    using WrapAngle_turns by meson
  then have "WrapAngle b = WrapAngle (a + b) - a + 2 * pi * of_int (k - j)" by (simp add: algebra_simps)
  then show ?thesis by (rule WrapAngle_unique [OF WrapAngle_range])
qed

text \<open>A pose placed at distance \<open>d\<close> and bearing \<open>b\<close> before a target sees the target there.\<close>

definition place_before :: "vec \<Rightarrow> real \<Rightarrow> real \<Rightarrow> pose \<Rightarrow> pose" where
  "place_before t d b p =
     p \<lparr>pX := vX t - d * cos (pTheta p + b), pY := vY t - d * sin (pTheta p + b)\<rparr>"

lemma place_before_dist: "d \<ge> 0 \<Longrightarrow> Dist (Position (place_before t d b p)) t = d"
proof -
  assume "d \<ge> 0"
  have "(d * cos x)\<^sup>2 + (d * sin x)\<^sup>2 = d\<^sup>2" for x
    by (simp add: power_mult_distrib flip: distrib_left)
  with \<open>d \<ge> 0\<close> show ?thesis
    by (simp add: Dist_def Position_def place_before_def hypot_def)
qed

lemma place_before_bearing: "d > 0 \<Longrightarrow> BearingTo (place_before t d b p) t = WrapAngle b"
  by (simp add: BearingTo_def place_before_def atan2_polar WrapAngle_diff)

end
