(* ===== verification/Mission.thy ===== *)
theory Mission
  imports Nav
begin

text \<open>
  The mission state machine of \<^verbatim>\<open>modules/survey/internal/mission/engine.go\<close> and the operator view of
  \<^verbatim>\<open>view.go\<close>. The engine's fields are one record; every exported method is a function on it, and
  the unexported methods it calls are functions of the same names. A Go run-time panic (an index out
  of range, a write to a nil map) is the result \<open>None\<close>. Events carry the arguments of their text
  instead of the formatted string. Listener callbacks are returned as values. Times are nanoseconds
  since the zero time, quantities are real numbers.
\<close>

section \<open>Data\<close>

definition ModeAutonomous :: int where "ModeAutonomous = 3"

datatype mstate = StateIdle | StateTransit | StateScan | StateSense | StateDone

definition TagAny :: int where "TagAny = -1"
definition TagNone :: int where "TagNone = -2"

definition modeFreshFor :: duration where "modeFreshFor = milliseconds 2500"
definition detFreshFor :: duration where "detFreshFor = milliseconds 800"
definition arriveTagWindow :: duration where "arriveTagWindow = milliseconds 1200"
definition alignThreshold :: real where "alignThreshold = 0.35"
definition yawKp :: real where "yawKp = 1.5"
definition approachGain :: real where "approachGain = 0.8"
definition minApproachSpeed :: real where "minApproachSpeed = 0.08"
definition scanRateScale :: real where "scanRateScale = 0.5"
definition headingFixMinDist :: real where "headingFixMinDist = 1"
definition headingFixGain :: real where "headingFixGain = 0.15"

record params =
  Waypoints :: "vec list"
  TagIDs :: "int list"
  StartPose :: pose
  CruiseSpeed :: real
  TurnRate :: real
  ArriveRadius :: real
  TagStop :: real
  SenseDwell :: duration
  ScanMaxRad :: real
  ReturnHome :: bool

record detection =
  detID :: int
  detBearing :: real
  detDistance :: real
  detT :: time

datatype event_info =
    EvState string
  | EvMissionSkip
  | EvMissionStart nat bool
  | EvMissionReset
  | EvMissionEnd real real
  | EvPause
  | EvResume
  | EvArrived nat int real real
  | EvRefix int int
  | EvScanStart int
  | EvScanGiveup int
  | EvSenseStart int
  | EvDetected int int
  | EvNoDetection int
  | EvReload nat

type_synonym log_event = "time \<times> event_info"

record drive =
  VX :: real
  YawRate :: real

datatype led_phase = LEDGreen | LEDRed | LEDYellow

record led_state =
  ledPhase :: led_phase
  ledID :: int
  ledShowID :: bool

record tick_output =
  outDrive :: "drive option"
  outLED :: led_state
  outEvents :: "log_event list"
  outState :: string

record leg =
  lgTarget :: vec
  lgTag :: int
  lgWp :: int
  lgSense :: bool

record detection_mark =
  dmWP :: int
  dmID :: int
  dmT :: time

text \<open>A nil map is \<open>None\<close>; a listener is present or not.\<close>

record engine =
  eP :: params
  eOutbound :: nat
  ePose :: pose
  eMeasVX :: real
  lastOdoAt :: time
  eMode :: int
  lastModeAt :: time
  ePaused :: bool
  ePausedAt :: time
  eState :: mstate
  eLegs :: "leg list"
  eLi :: nat
  eDets :: "detection list"
  senseStart :: time
  senseCounts :: "(int \<times> nat) list option"
  senseGeom :: "(int \<times> detection) list option"
  scanDir :: int
  scanAccum :: real
  scanLastHead :: real
  lastDetectedID :: int
  eEvents :: "log_event list"
  wpReached :: "bool list"
  wpDetected :: "int list"
  lastDet :: "detection_mark option"
  startedAt :: time
  onPose :: bool
  onSense :: bool


section \<open>Helpers\<close>

definition New :: "params \<Rightarrow> engine" where
  "New ps = \<lparr>eP = ps, eOutbound = 0, ePose = StartPose ps, eMeasVX = 0, lastOdoAt = 0, eMode = 0,
     lastModeAt = 0, ePaused = False, ePausedAt = 0, eState = StateIdle, eLegs = [], eLi = 0, eDets = [],
     senseStart = 0, senseCounts = None, senseGeom = None, scanDir = 0, scanAccum = 0,
     scanLastHead = 0, lastDetectedID = -1, eEvents = [], wpReached = [], wpDetected = [],
     lastDet = None, startedAt = 0, onPose = False, onSense = False\<rparr>"

definition stateName :: "engine \<Rightarrow> string" where
  "stateName e =
     (case eState e of
        StateIdle \<Rightarrow> ''IDLE''
      | StateTransit \<Rightarrow> if eLi e \<ge> eOutbound e \<and> eOutbound e > 0 then ''RETURN'' else ''TRANSIT''
      | StateScan \<Rightarrow> ''SCAN''
      | StateSense \<Rightarrow> ''SENSE''
      | StateDone \<Rightarrow> ''DONE'')"

definition event :: "time \<Rightarrow> event_info \<Rightarrow> engine \<Rightarrow> engine" where
  "event t i e = e \<lparr>eEvents := eEvents e @ [(t, i)]\<rparr>"

definition setState :: "mstate \<Rightarrow> time \<Rightarrow> engine \<Rightarrow> engine" where
  "setState s now e =
     (if s = eState e then e
      else let e' = e \<lparr>eState := s\<rparr> in event now (EvState (stateName e')) e')"

definition missionActive :: "engine \<Rightarrow> bool" where
  "missionActive e \<longleftrightarrow> eState e = StateTransit \<or> eState e = StateScan \<or> eState e = StateSense"

definition tagMatches :: "int \<Rightarrow> int \<Rightarrow> bool" where
  "tagMatches tg i \<longleftrightarrow> (if tg = TagNone then False else if tg = TagAny then True else i = tg)"

fun freshDet_loop ::
  "time \<Rightarrow> int \<Rightarrow> duration \<Rightarrow> detection option \<Rightarrow> detection list \<Rightarrow> detection option" where
  "freshDet_loop now tg window best [] = best"
| "freshDet_loop now tg window best (d # ds) =
     (if \<not> tagMatches tg (detID d) \<or> time_sub now (detT d) > window then freshDet_loop now tg window best ds
      else case best of
        None \<Rightarrow> freshDet_loop now tg window (Some d) ds
      | Some b \<Rightarrow> freshDet_loop now tg window (if detT d > detT b then Some d else Some b) ds)"

definition freshDet :: "engine \<Rightarrow> time \<Rightarrow> int \<Rightarrow> duration \<Rightarrow> detection option" where
  "freshDet e now tg window = freshDet_loop now tg window None (eDets e)"

fun senseBest_loop :: "int \<times> nat \<Rightarrow> (int \<times> nat) list \<Rightarrow> int \<times> nat" where
  "senseBest_loop (best, bestN) [] = (best, bestN)"
| "senseBest_loop (best, bestN) ((i, n) # m) =
     (if n > bestN \<or> n = bestN \<and> best \<ge> 0 \<and> i < best then senseBest_loop (i, n) m
      else senseBest_loop (best, bestN) m)"

text \<open>Ranging over a nil map does nothing.\<close>

definition senseBest :: "engine \<Rightarrow> int \<times> bool" where
  "senseBest e =
     (let best = fst (senseBest_loop (-1, 0) (case senseCounts e of None \<Rightarrow> [] | Some m \<Rightarrow> m))
      in (best, best \<ge> 0))"

definition clamp :: "real \<Rightarrow> real \<Rightarrow> real \<Rightarrow> real" where
  "clamp v lo hi = min hi (max lo v)"

definition tagOf :: "params \<Rightarrow> nat \<Rightarrow> int" where
  "tagOf ps i = (if i < length (TagIDs ps) then TagIDs ps ! i else TagAny)"

definition buildLegs :: "params \<Rightarrow> leg list" where
  "buildLegs ps =
     (let n = length (Waypoints ps) in
      map (\<lambda>i. \<lparr>lgTarget = Waypoints ps ! i, lgTag = tagOf ps i, lgWp = int i, lgSense = True\<rparr>) [0..<n] @
      (if ReturnHome ps then
         map (\<lambda>i. \<lparr>lgTarget = Waypoints ps ! i, lgTag = tagOf ps i, lgWp = int i, lgSense = False\<rparr>)
           (rev [0..<n - 1]) @
         [\<lparr>lgTarget = Position (StartPose ps), lgTag = TagNone, lgWp = -1, lgSense = False\<rparr>]
       else []))"


section \<open>Transitions\<close>

definition arm :: "time \<Rightarrow> engine \<Rightarrow> engine" where
  "arm now e =
     (if Waypoints (eP e) = [] then event now EvMissionSkip e
      else
        let n = length (Waypoints (eP e));
            e1 = e \<lparr>eLegs := buildLegs (eP e), eOutbound := n, eLi := 0,
                    wpReached := replicate n False, wpDetected := replicate n (-1),
                    lastDet := None, startedAt := now\<rparr>
        in event now (EvMissionStart n (ReturnHome (eP e))) (setState StateTransit now e1))"

definition enterSense :: "time \<Rightarrow> engine \<Rightarrow> engine option" where
  "enterSense now e =
     (let e1 = (setState StateSense now e)
            \<lparr>senseStart := now, senseCounts := Some [], senseGeom := Some []\<rparr>
      in if eLi e1 < length (eLegs e1)
         then Some (event now (EvSenseStart (lgWp (eLegs e1 ! eLi e1))) e1) else None)"

definition enterScan :: "time \<Rightarrow> engine \<Rightarrow> engine option" where
  "enterScan now e =
     (let e1 = (setState StateScan now e)
            \<lparr>scanDir := 1, scanAccum := 0, scanLastHead := pTheta (ePose e)\<rparr>
      in if eLi e1 < length (eLegs e1)
         then Some (event now (EvScanStart (lgWp (eLegs e1 ! eLi e1))) e1) else None)"

definition refix :: "detection \<Rightarrow> leg \<Rightarrow> engine \<Rightarrow> engine" where
  "refix det lg e =
     (let dir = pTheta (ePose e) + detBearing det in
      e \<lparr>ePose := (ePose e) \<lparr>pX := vX (lgTarget lg) - detDistance det * cos dir,
                              pY := vY (lgTarget lg) - detDistance det * sin dir\<rparr>\<rparr>)"

definition snapTo :: "leg \<Rightarrow> engine \<Rightarrow> engine" where
  "snapTo lg e = e \<lparr>ePose := (ePose e) \<lparr>pX := vX (lgTarget lg), pY := vY (lgTarget lg)\<rparr>\<rparr>"

definition advance :: "time \<Rightarrow> engine \<Rightarrow> engine" where
  "advance now e =
     (let e1 = e \<lparr>eLi := eLi e + 1\<rparr> in
      if eLi e1 \<ge> length (eLegs e1) then
        event now (EvMissionEnd (pX (ePose e1)) (pY (ePose e1))) (setState StateDone now e1)
      else setState StateTransit now e1)"

text \<open>\<^verbatim>\<open>xs[i] = v\<close> behind its bounds check.\<close>

definition set_in_range :: "int \<Rightarrow> 'a \<Rightarrow> 'a list \<Rightarrow> 'a list" where
  "set_in_range i v xs = (if i \<ge> 0 \<and> i < int (length xs) then xs[nat i := v] else xs)"

definition arrive :: "time \<Rightarrow> leg \<Rightarrow> engine \<Rightarrow> engine option" where
  "arrive now lg e =
     (let e1 = (event now (EvArrived (eLi e) (lgWp lg) (pX (ePose e)) (pY (ePose e))) e)
            \<lparr>wpReached := set_in_range (lgWp lg) True (wpReached e)\<rparr>
      in if lgSense lg then
           (if freshDet e1 now (lgTag lg) arriveTagWindow \<noteq> None then enterSense now e1
            else enterScan now e1)
         else
           let e2 = (case freshDet e1 now (lgTag lg) arriveTagWindow of
                       None \<Rightarrow> e1
                     | Some det \<Rightarrow>
                         if detDistance det > 0
                         then event now (EvRefix (lgWp lg) (detID det)) (refix det lg e1) else e1)
           in Some (advance now e2))"

definition steer :: "engine \<Rightarrow> real \<Rightarrow> real \<Rightarrow> drive" where
  "steer e headingErr distance =
     (if \<bar>headingErr\<bar> > alignThreshold then \<lparr>VX = 0, YawRate = copysign (TurnRate (eP e)) headingErr\<rparr>
      else \<lparr>VX = min (CruiseSpeed (eP e)) (max minApproachSpeed (distance * approachGain)),
            YawRate = clamp (yawKp * headingErr) (- TurnRate (eP e)) (TurnRate (eP e))\<rparr>)"

definition stop_drive :: drive where
  "stop_drive = \<lparr>VX = 0, YawRate = 0\<rparr>"

definition tickTransit :: "time \<Rightarrow> engine \<Rightarrow> (engine \<times> drive) option" where
  "tickTransit now e =
     (if \<not> eLi e < length (eLegs e) then None
      else
        let lg = eLegs e ! eLi e;
            det = freshDet e now (lgTag lg) detFreshFor;
            d = Dist (Position (ePose e)) (lgTarget lg);
            arrived = (case det of
                         Some dt \<Rightarrow> if detDistance dt > 0 then detDistance dt \<le> TagStop (eP e)
                                    else d \<le> ArriveRadius (eP e)
                       | None \<Rightarrow> d \<le> ArriveRadius (eP e))
        in if arrived then map_option (\<lambda>e'. (e', stop_drive)) (arrive now lg e)
           else
             let herr = (case det of Some dt \<Rightarrow> detBearing dt | None \<Rightarrow> BearingTo (ePose e) (lgTarget lg));
                 e' = (case det of
                         Some dt \<Rightarrow>
                           if detDistance dt > headingFixMinDist then
                             let wb = atan2 (vY (lgTarget lg) - pY (ePose e)) (vX (lgTarget lg) - pX (ePose e))
                             in e \<lparr>ePose := (ePose e) \<lparr>pTheta := WrapAngle (pTheta (ePose e) +
                                    headingFixGain * WrapAngle (wb - detBearing dt - pTheta (ePose e)))\<rparr>\<rparr>
                           else e
                       | None \<Rightarrow> e)
             in Some (e', steer e' herr d))"

definition tickScan :: "time \<Rightarrow> engine \<Rightarrow> (engine \<times> drive) option" where
  "tickScan now e =
     (if \<not> eLi e < length (eLegs e) then None
      else
        let lg = eLegs e ! eLi e in
        if freshDet e now (lgTag lg) detFreshFor \<noteq> None
        then map_option (\<lambda>e'. (e', stop_drive)) (enterSense now e)
        else
          let e1 = e \<lparr>scanAccum := scanAccum e + WrapAngle (pTheta (ePose e) - scanLastHead e),
                      scanLastHead := pTheta (ePose e)\<rparr>
          in if scanDir e1 > 0 \<and> scanAccum e1 \<ge> ScanMaxRad (eP e1) then
               let e2 = e1 \<lparr>scanDir := -1\<rparr> in
               Some (e2, \<lparr>VX = 0, YawRate = real_of_int (scanDir e2) * TurnRate (eP e2) * scanRateScale\<rparr>)
             else if scanDir e1 < 0 \<and> scanAccum e1 \<le> - ScanMaxRad (eP e1) then
               map_option (\<lambda>e'. (e', stop_drive)) (enterSense now (event now (EvScanGiveup (lgWp lg)) e1))
             else Some (e1, \<lparr>VX = 0, YawRate = real_of_int (scanDir e1) * TurnRate (eP e1) * scanRateScale\<rparr>))"

text \<open>\<^verbatim>\<open>e.senseGeom[id]\<close>: a missing key gives the zero detection.\<close>

definition zero_detection :: detection where
  "zero_detection = \<lparr>detID = 0, detBearing = 0, detDistance = 0, detT = 0\<rparr>"

definition senseGeom_at :: "engine \<Rightarrow> int \<Rightarrow> detection" where
  "senseGeom_at e i =
     (case senseGeom e of
        None \<Rightarrow> zero_detection
      | Some m \<Rightarrow> (case map_of m i of None \<Rightarrow> zero_detection | Some d \<Rightarrow> d))"

definition tickSense :: "time \<Rightarrow> engine \<Rightarrow> engine option" where
  "tickSense now e =
     (if time_sub now (senseStart e) < SenseDwell (eP e) then Some e
      else if \<not> eLi e < length (eLegs e) then None
      else
        let lg = eLegs e ! eLi e; (i, ok) = senseBest e;
            e' = (if ok then
                    let e1 = e \<lparr>lastDetectedID := i,
                                wpDetected := set_in_range (lgWp lg) i (wpDetected e),
                                lastDet := Some \<lparr>dmWP = lgWp lg, dmID = i, dmT = now\<rparr>\<rparr>;
                        e2 = event now (EvDetected (lgWp lg) i) e1;
                        det = senseGeom_at e2 i
                    in if detDistance det > 0 then refix det lg e2 else snapTo lg e2
                  else snapTo lg (event now (EvNoDetection (lgWp lg)) e))
        in Some (advance now e'))"

definition ledState :: "engine \<Rightarrow> led_state" where
  "ledState e =
     (case eState e of
        StateIdle \<Rightarrow> \<lparr>ledPhase = LEDGreen, ledID = 0, ledShowID = False\<rparr>
      | StateSense \<Rightarrow>
          (case senseBest e of (i, ok) \<Rightarrow>
             if ok then \<lparr>ledPhase = LEDYellow, ledID = i, ledShowID = True\<rparr>
             else \<lparr>ledPhase = LEDYellow, ledID = 0, ledShowID = False\<rparr>)
      | _ \<Rightarrow> \<lparr>ledPhase = LEDRed, ledID = 0, ledShowID = False\<rparr>)"

section \<open>The exported operations\<close>

definition OnMode :: "int \<Rightarrow> time \<Rightarrow> engine \<Rightarrow> engine" where
  "OnMode m now e =
     (let prev = eMode e; e1 = e \<lparr>eMode := m, lastModeAt := now\<rparr> in
      if m = prev then e1
      else if m = ModeAutonomous \<and> eState e1 = StateIdle then arm now e1 else e1)"

text \<open>The second component is the pose handed to the listener.\<close>

definition OnOdometry :: "real \<Rightarrow> real \<Rightarrow> time \<Rightarrow> engine \<Rightarrow> engine \<times> pose option" where
  "OnOdometry vx yawRate now e =
     (let dt = real_of_int (time_sub now (lastOdoAt e)) / 1000000000;
          e1 = (if \<not> time_is_zero (lastOdoAt e) \<and> dt > 0 \<and> dt \<le> 0.1
                then e \<lparr>ePose := Integrate vx yawRate dt (ePose e)\<rparr> else e);
          e2 = e1 \<lparr>eMeasVX := vx, lastOdoAt := now\<rparr>
      in (e2, if onPose e2 then Some (ePose e2) else None))"

text \<open>The body of the loop over the detections: a write to a nil map panics.\<close>

fun count_detections :: "int \<Rightarrow> detection list \<Rightarrow> int \<Rightarrow> engine \<Rightarrow> (engine \<times> int) option" where
  "count_detections tg [] firstID e = Some (e, firstID)"
| "count_detections tg (d # ds) firstID e =
     (if \<not> tagMatches tg (detID d) then count_detections tg ds firstID e
      else
        let firstID' = (if firstID < 0 then detID d else firstID) in
        case (senseCounts e, senseGeom e) of
          (Some counts, Some geom) \<Rightarrow>
            let n = (case map_of counts (detID d) of None \<Rightarrow> 0 | Some n \<Rightarrow> n) in
            count_detections tg ds firstID'
              (e \<lparr>senseCounts := Some (map_set (detID d) (n + 1) counts),
                  senseGeom := Some (map_set (detID d) d geom)\<rparr>)
        | _ \<Rightarrow> None)"

text \<open>The second component is the call of the sense listener.\<close>

definition OnDetections :: "detection list \<Rightarrow> time \<Rightarrow> engine \<Rightarrow> (engine \<times> (int \<times> int) option) option" where
  "OnDetections ds now e =
     (let e1 = e \<lparr>eDets := ds\<rparr> in
      if eState e1 \<noteq> StateSense \<or> eLi e1 \<ge> length (eLegs e1) then Some (e1, None)
      else
        let lg = eLegs e1 ! eLi e1;
            dwellEmpty = (case senseCounts e1 of None \<Rightarrow> True | Some m \<Rightarrow> length m = 0)
        in case count_detections (lgTag lg) ds (-1) e1 of
          None \<Rightarrow> None
        | Some (e2, firstID) \<Rightarrow>
            Some (e2, if onSense e2 \<and> dwellEmpty \<and> firstID \<ge> 0 then Some (lgWp lg, firstID) else None))"

definition authorized :: "time \<Rightarrow> engine \<Rightarrow> bool" where
  "authorized now e \<longleftrightarrow> eMode e = ModeAutonomous \<and> \<not> time_is_zero (lastModeAt e) \<and>
     time_sub now (lastModeAt e) \<le> modeFreshFor"

text \<open>\<^verbatim>\<open>drainEvents\<close> with the rest of the output.\<close>

definition finish :: "drive option \<Rightarrow> led_state \<Rightarrow> engine \<Rightarrow> engine \<times> tick_output" where
  "finish d led e = (e \<lparr>eEvents := []\<rparr>,
     \<lparr>outDrive = d, outLED = led, outEvents = eEvents e, outState = stateName e\<rparr>)"

definition tick_unauthorized :: "time \<Rightarrow> engine \<Rightarrow> engine" where
  "tick_unauthorized now e =
     (let e1 = (if eState e = StateDone then event now EvMissionReset (setState StateIdle now e) else e) in
      if missionActive e1 \<and> \<not> ePaused e1
      then event now EvPause (e1 \<lparr>ePaused := True, ePausedAt := now\<rparr>) else e1)"

definition tick_resume :: "time \<Rightarrow> engine \<Rightarrow> engine" where
  "tick_resume now e =
     (if ePaused e then
        let e1 = e \<lparr>ePaused := False\<rparr>;
            e2 = (if eState e1 = StateSense
                  then e1 \<lparr>senseStart := senseStart e1 + time_sub now (ePausedAt e1)\<rparr> else e1)
        in event now EvResume e2
      else e)"

definition tick_state :: "time \<Rightarrow> engine \<Rightarrow> (engine \<times> drive option) option" where
  "tick_state now e =
     (case eState e of
        StateIdle \<Rightarrow> Some (e, None)
      | StateTransit \<Rightarrow> map_option (\<lambda>(e', d). (e', Some d)) (tickTransit now e)
      | StateScan \<Rightarrow> map_option (\<lambda>(e', d). (e', Some d)) (tickScan now e)
      | StateSense \<Rightarrow> map_option (\<lambda>e'. (e', Some stop_drive)) (tickSense now e)
      | StateDone \<Rightarrow> Some (e, Some stop_drive))"

definition Tick :: "time \<Rightarrow> engine \<Rightarrow> (engine \<times> tick_output) option" where
  "Tick now e =
     (if \<not> authorized now e then
        Some (finish None \<lparr>ledPhase = LEDGreen, ledID = 0, ledShowID = False\<rparr> (tick_unauthorized now e))
      else map_option (\<lambda>(e', d). finish d (ledState e') e') (tick_state now (tick_resume now e)))"

record snap =
  snPose :: pose
  snState :: string
  snSpeedVX :: real
  snFreshID :: int

definition snapFreshID :: "engine \<Rightarrow> int" where
  "snapFreshID e = (if eDets e = [] then -1 else detID (last (eDets e)))"

definition Snapshot :: "engine \<Rightarrow> snap" where
  "Snapshot e = \<lparr>snPose = ePose e, snState = stateName e, snSpeedVX = eMeasVX e, snFreshID = snapFreshID e\<rparr>"


section \<open>The operator's view and the reload of waypoints\<close>

datatype wp_status = WPPending | WPReached | WPDetected

record waypoint_view =
  wvI :: nat
  wvX :: real
  wvY :: real
  wvTagID :: int
  wvStatus :: wp_status
  wvDetectedID :: int

record view =
  vwState :: string
  vwMode :: string
  vwLeg :: nat
  vwWaypoints :: "waypoint_view list"
  vwPlanned :: "(real \<times> real) list"
  vwPose :: pose
  vwStart :: pose
  vwLastDet :: "detection_mark option"
  vwStartedAt :: time

definition modeName :: "int \<Rightarrow> string" where
  "modeName m = (if m = 1 then ''MANUAL'' else if m = 2 then ''SAFE'' else if m = 3 then ''AUTONOMOUS''
     else if m = 4 then ''ESTOP'' else ''UNKNOWN'')"

definition buildPlanned :: "params \<Rightarrow> (real \<times> real) list" where
  "buildPlanned ps =
     [(pX (StartPose ps), pY (StartPose ps))] @
     map (\<lambda>wp. (vX wp, vY wp)) (Waypoints ps) @
     (if ReturnHome ps \<and> length (Waypoints ps) > 0 then
        map (\<lambda>i. (vX (Waypoints ps ! i), vY (Waypoints ps ! i))) (rev [0..<length (Waypoints ps) - 1]) @
        [(pX (StartPose ps), pY (StartPose ps))]
      else [])"

definition waypoint_row :: "engine \<Rightarrow> nat \<Rightarrow> waypoint_view" where
  "waypoint_row e i =
     (let wp = Waypoints (eP e) ! i;
          v = \<lparr>wvI = i, wvX = vX wp, wvY = vY wp,
               wvTagID = (if i < length (TagIDs (eP e)) then TagIDs (eP e) ! i else TagAny),
               wvStatus = WPPending, wvDetectedID = -1\<rparr>
      in if i < length (wpDetected e) \<and> wpDetected e ! i \<ge> 0
         then v \<lparr>wvStatus := WPDetected, wvDetectedID := wpDetected e ! i\<rparr>
         else if i < length (wpReached e) \<and> wpReached e ! i then v \<lparr>wvStatus := WPReached\<rparr> else v)"

definition View :: "engine \<Rightarrow> view" where
  "View e = \<lparr>vwState = stateName e, vwMode = modeName (eMode e), vwLeg = eLi e,
     vwWaypoints = map (waypoint_row e) [0..<length (Waypoints (eP e))],
     vwPlanned = buildPlanned (eP e), vwPose = ePose e, vwStart = StartPose (eP e),
     vwLastDet = lastDet e, vwStartedAt = startedAt e\<rparr>"

definition SetPoseListener :: "engine \<Rightarrow> engine" where
  "SetPoseListener e = e \<lparr>onPose := True\<rparr>"

definition SetSenseListener :: "engine \<Rightarrow> engine" where
  "SetSenseListener e = e \<lparr>onSense := True\<rparr>"

datatype reload_error = ErrMissionRunning string | ErrTagCount nat nat

definition Reload ::
  "vec list \<Rightarrow> int list \<Rightarrow> pose \<Rightarrow> time \<Rightarrow> engine \<Rightarrow> reload_error option \<times> engine" where
  "Reload wps tags start now e =
     (if eState e \<noteq> StateIdle \<and> eState e \<noteq> StateDone then (Some (ErrMissionRunning (stateName e)), e)
      else
        let tags' = (if tags = [] then replicate (length wps) TagAny else tags) in
        if length tags' \<noteq> length wps then (Some (ErrTagCount (length tags') (length wps)), e)
        else
          let e1 = e \<lparr>eP := (eP e) \<lparr>Waypoints := wps, TagIDs := tags', StartPose := start\<rparr>,
                      ePose := start, eLegs := [], eLi := 0, wpReached := [], wpDetected := [],
                      lastDet := None\<rparr>
          in (None, event now (EvReload (length wps)) (setState StateIdle now e1)))"

section \<open>The mission invariant\<close>

text \<open>Inputs of the engine in any order, and the states they lead to.\<close>

datatype mission_input =
    InMode int time
  | InOdometry real real time
  | InDetections "detection list" time
  | InTick time
  | InReload "vec list" "int list" pose time
  | InListeners

fun mission_step :: "mission_input \<Rightarrow> engine \<Rightarrow> engine option" where
  "mission_step (InMode m now) e = Some (OnMode m now e)"
| "mission_step (InOdometry vx w now) e = Some (fst (OnOdometry vx w now e))"
| "mission_step (InDetections ds now) e = map_option fst (OnDetections ds now e)"
| "mission_step (InTick now) e = map_option fst (Tick now e)"
| "mission_step (InReload wps tags start now) e = Some (snd (Reload wps tags start now e))"
| "mission_step InListeners e = Some (SetSenseListener (SetPoseListener e))"

inductive mission_reachable :: "params \<Rightarrow> engine \<Rightarrow> bool" for ps where
  init: "mission_reachable ps (New ps)"
| step: "mission_reachable ps e \<Longrightarrow> mission_step i e = Some e' \<Longrightarrow> mission_reachable ps e'"

text \<open>A running mission works on the legs of its parameters, inside their range; a dwell has its
  counters, with a positive count for every marker and its geometry, and only sensing legs dwell or
  scan; the sweep has a direction; only a running mission is paused.\<close>

definition on_legs :: "engine \<Rightarrow> bool" where
  "on_legs e \<longleftrightarrow> eLegs e = buildLegs (eP e) \<and> eLi e < length (eLegs e) \<and>
     eOutbound e = length (Waypoints (eP e)) \<and>
     length (wpReached e) = length (Waypoints (eP e)) \<and> length (wpDetected e) = length (Waypoints (eP e))"

definition dwell_ok :: "engine \<Rightarrow> bool" where
  "dwell_ok e \<longleftrightarrow> (\<exists>counts geom. senseCounts e = Some counts \<and> senseGeom e = Some geom \<and>
     wf_map counts \<and> fst ` set geom = fst ` set counts \<and> (\<forall>c \<in> set counts. snd c > 0))"

definition mission_inv :: "engine \<Rightarrow> bool" where
  "mission_inv e \<longleftrightarrow>
     (missionActive e \<longrightarrow> on_legs e) \<and>
     (eState e = StateScan \<or> eState e = StateSense \<longrightarrow> lgSense (eLegs e ! eLi e)) \<and>
     (eState e = StateSense \<longrightarrow> dwell_ok e) \<and>
     (eState e = StateScan \<longrightarrow> scanDir e = 1 \<or> scanDir e = -1) \<and>
     (ePaused e \<longrightarrow> missionActive e)"

lemma event_sel [simp]:
  "eP (event t i e) = eP e" "eOutbound (event t i e) = eOutbound e" "ePose (event t i e) = ePose e"
  "eState (event t i e) = eState e" "eLegs (event t i e) = eLegs e" "eLi (event t i e) = eLi e"
  "eDets (event t i e) = eDets e" "senseCounts (event t i e) = senseCounts e"
  "senseGeom (event t i e) = senseGeom e" "senseStart (event t i e) = senseStart e"
  "scanDir (event t i e) = scanDir e" "ePaused (event t i e) = ePaused e"
  "wpReached (event t i e) = wpReached e" "wpDetected (event t i e) = wpDetected e"
  "eMode (event t i e) = eMode e" "lastModeAt (event t i e) = lastModeAt e"
  "lastDet (event t i e) = lastDet e" "ePausedAt (event t i e) = ePausedAt e"
  "lastDetectedID (event t i e) = lastDetectedID e"
  by (simp_all add: event_def)

lemma setState_sel [simp]:
  "eP (setState s t e) = eP e" "eOutbound (setState s t e) = eOutbound e" "ePose (setState s t e) = ePose e"
  "eState (setState s t e) = s" "eLegs (setState s t e) = eLegs e" "eLi (setState s t e) = eLi e"
  "eDets (setState s t e) = eDets e" "senseCounts (setState s t e) = senseCounts e"
  "senseGeom (setState s t e) = senseGeom e" "senseStart (setState s t e) = senseStart e"
  "scanDir (setState s t e) = scanDir e" "ePaused (setState s t e) = ePaused e"
  "wpReached (setState s t e) = wpReached e" "wpDetected (setState s t e) = wpDetected e"
  "eMode (setState s t e) = eMode e" "lastModeAt (setState s t e) = lastModeAt e"
  "lastDet (setState s t e) = lastDet e" "ePausedAt (setState s t e) = ePausedAt e"
  "lastDetectedID (setState s t e) = lastDetectedID e"
  by (simp_all add: setState_def Let_def)

lemma length_set_in_range [simp]: "length (set_in_range i v xs) = length xs"
  by (simp add: set_in_range_def)

lemma missionActive_cases: "missionActive e \<longleftrightarrow> eState e \<in> {StateTransit, StateScan, StateSense}"
  by (auto simp: missionActive_def)

text \<open>Shape of the engine after the transitions of a tick. \<open>same_core\<close> says that what the invariant
  reads is unchanged.\<close>

definition same_core :: "engine \<Rightarrow> engine \<Rightarrow> bool" where
  "same_core e e' \<longleftrightarrow> eP e' = eP e \<and> eLegs e' = eLegs e \<and> eLi e' = eLi e \<and> eOutbound e' = eOutbound e \<and>
     length (wpReached e') = length (wpReached e) \<and> length (wpDetected e') = length (wpDetected e) \<and>
     eState e' = eState e \<and> senseCounts e' = senseCounts e \<and> senseGeom e' = senseGeom e \<and>
     scanDir e' = scanDir e \<and> ePaused e' = ePaused e"

lemma same_core_inv: "same_core e e' \<Longrightarrow> mission_inv e \<Longrightarrow> mission_inv e'"
  unfolding same_core_def mission_inv_def missionActive_def on_legs_def dwell_ok_def
  by (elim conjE) (simp only: simp_thms)

lemma mission_inv_irrelevant [simp]:
  "mission_inv (e \<lparr>eMode := m\<rparr>) = mission_inv e" "mission_inv (e \<lparr>lastModeAt := t\<rparr>) = mission_inv e"
  "mission_inv (e \<lparr>ePose := q\<rparr>) = mission_inv e" "mission_inv (e \<lparr>eMeasVX := x\<rparr>) = mission_inv e"
  "mission_inv (e \<lparr>lastOdoAt := t\<rparr>) = mission_inv e" "mission_inv (e \<lparr>eDets := ds\<rparr>) = mission_inv e"
  "mission_inv (e \<lparr>eEvents := evs\<rparr>) = mission_inv e" "mission_inv (event t i e) = mission_inv e"
  "mission_inv (e \<lparr>senseStart := t\<rparr>) = mission_inv e" "mission_inv (e \<lparr>scanAccum := x\<rparr>) = mission_inv e"
  "mission_inv (e \<lparr>scanLastHead := x\<rparr>) = mission_inv e" "mission_inv (e \<lparr>onPose := b\<rparr>) = mission_inv e"
  "mission_inv (e \<lparr>onSense := b\<rparr>) = mission_inv e"
  by (simp_all add: mission_inv_def missionActive_def on_legs_def dwell_ok_def)

lemma legs_nonempty: "Waypoints ps \<noteq> [] \<Longrightarrow> buildLegs ps \<noteq> []"
  by (simp add: buildLegs_def Let_def)

lemma arm_inv: "eState e = StateIdle \<Longrightarrow> mission_inv e \<Longrightarrow> mission_inv (arm now e)"
  using legs_nonempty [of "eP e"]
  by (auto simp: arm_def Let_def mission_inv_def missionActive_def on_legs_def)

lemma OnMode_inv: "mission_inv e \<Longrightarrow> mission_inv (OnMode m now e)"
  by (simp add: OnMode_def Let_def arm_inv)

lemma OnOdometry_inv: "mission_inv e \<Longrightarrow> mission_inv (fst (OnOdometry vx w now e))"
  by (simp add: OnOdometry_def Let_def)

lemma mission_inv_inactive:
  "eState e = StateIdle \<or> eState e = StateDone \<Longrightarrow> mission_inv e \<longleftrightarrow> \<not> ePaused e"
  by (auto simp: mission_inv_def missionActive_def)

lemma Reload_inv:
  assumes "mission_inv e"
  shows "mission_inv (snd (Reload wps tags start now e))"
proof (cases "eState e = StateIdle \<or> eState e = StateDone")
  case True
  with assms have "\<not> ePaused e" by (simp add: mission_inv_inactive)
  with assms show ?thesis by (simp add: Reload_def Let_def mission_inv_inactive)
qed (use assms in \<open>simp add: Reload_def\<close>)

lemma enterSense_inv:
  "eLi e < length (eLegs e) \<Longrightarrow> on_legs e \<Longrightarrow> lgSense (eLegs e ! eLi e) \<Longrightarrow>
     \<exists>e'. enterSense now e = Some e' \<and> mission_inv e' \<and> eState e' = StateSense"
  by (auto simp: enterSense_def Let_def mission_inv_def missionActive_def on_legs_def dwell_ok_def wf_map_def)

lemma enterScan_inv:
  "eLi e < length (eLegs e) \<Longrightarrow> on_legs e \<Longrightarrow> lgSense (eLegs e ! eLi e) \<Longrightarrow>
     \<exists>e'. enterScan now e = Some e' \<and> mission_inv e' \<and> eState e' = StateScan"
  by (auto simp: enterScan_def Let_def mission_inv_def missionActive_def on_legs_def)

lemma advance_inv: "on_legs e \<Longrightarrow> \<not> ePaused e \<Longrightarrow> mission_inv (advance now e)"
  by (auto simp: advance_def Let_def mission_inv_def missionActive_def on_legs_def)

lemma on_legs_irrelevant [simp]:
  "on_legs (event t ev e) = on_legs e" "on_legs (e \<lparr>ePose := q\<rparr>) = on_legs e"
  "on_legs (e \<lparr>scanAccum := x\<rparr>) = on_legs e" "on_legs (e \<lparr>scanLastHead := x\<rparr>) = on_legs e"
  "on_legs (e \<lparr>lastDetectedID := i\<rparr>) = on_legs e" "on_legs (e \<lparr>lastDet := m\<rparr>) = on_legs e"
  "on_legs (e \<lparr>scanDir := j\<rparr>) = on_legs e"
  "on_legs (refix det lg e) = on_legs e" "on_legs (snapTo lg e) = on_legs e"
  "on_legs (e \<lparr>wpReached := set_in_range k True (wpReached e)\<rparr>) = on_legs e"
  "on_legs (e \<lparr>wpDetected := set_in_range k i (wpDetected e)\<rparr>) = on_legs e"
  "on_legs (e \<lparr>lastDetectedID := i, wpDetected := set_in_range k i (wpDetected e)\<rparr>) = on_legs e"
  "on_legs (e \<lparr>ePaused := b\<rparr>) = on_legs e" "on_legs (e \<lparr>ePausedAt := t\<rparr>) = on_legs e"
  "on_legs (e \<lparr>senseCounts := c\<rparr>) = on_legs e" "on_legs (e \<lparr>senseGeom := g\<rparr>) = on_legs e"
  "on_legs (e \<lparr>eDets := ds\<rparr>) = on_legs e"
  by (simp_all add: on_legs_def refix_def snapTo_def Let_def)

lemma dwell_ok_irrelevant [simp]:
  "dwell_ok (e \<lparr>ePaused := b\<rparr>) = dwell_ok e" "dwell_ok (e \<lparr>ePausedAt := t\<rparr>) = dwell_ok e"
  by (simp_all add: dwell_ok_def)

lemma fix_sel [simp]:
  "ePaused (refix det lg e) = ePaused e" "ePaused (snapTo lg e) = ePaused e"
  "eLegs (refix det lg e) = eLegs e" "eLegs (snapTo lg e) = eLegs e"
  "eLi (refix det lg e) = eLi e" "eLi (snapTo lg e) = eLi e"
  by (simp_all add: refix_def snapTo_def Let_def)

lemma on_legs_range: "on_legs e \<Longrightarrow> eLi e < length (eLegs e)"
  unfolding on_legs_def by (elim conjE)

lemma arrive_inv:
  assumes "on_legs e" "\<not> ePaused e"
  shows "\<exists>e'. arrive now (eLegs e ! eLi e) e = Some e' \<and> mission_inv e'"
proof -
  let ?lg = "eLegs e ! eLi e"
  let ?e = "(event now (EvArrived (eLi e) (lgWp ?lg) (pX (ePose e)) (pY (ePose e))) e)
            \<lparr>wpReached := set_in_range (lgWp ?lg) True (wpReached e)\<rparr>"
  have e: "on_legs ?e" "eLegs ?e = eLegs e" "eLi ?e = eLi e" "\<not> ePaused ?e"
    using assms by (auto simp: on_legs_def)
  show ?thesis
  proof (cases "lgSense ?lg")
    case True
    with e enterSense_inv [of ?e now] enterScan_inv [of ?e now] on_legs_range [OF e(1)] show ?thesis
      by (simp add: arrive_def Let_def) blast
  next
    case False
    then show ?thesis
      using e by (auto simp: arrive_def Let_def intro!: advance_inv split: option.splits)
  qed
qed

lemma tickTransit_inv:
  assumes "mission_inv e" "eState e = StateTransit" "\<not> ePaused e"
  shows "\<exists>e' d. tickTransit now e = Some (e', d) \<and> mission_inv e'"
proof -
  have l: "on_legs e" using assms(1,2) by (simp add: mission_inv_def missionActive_def)
  obtain e' where "arrive now (eLegs e ! eLi e) e = Some e'" "mission_inv e'"
    using arrive_inv [OF l assms(3)] by blast
  then show ?thesis
    using on_legs_range [OF l] assms(1)
    by (simp add: tickTransit_def Let_def split: option.splits)
qed

lemma tickScan_inv:
  assumes "mission_inv e" "eState e = StateScan"
  shows "\<exists>e' d. tickScan now e = Some (e', d) \<and> mission_inv e'"
proof -
  have l: "on_legs e" and s: "lgSense (eLegs e ! eLi e)"
    using assms by (simp_all add: mission_inv_def missionActive_def)
  let ?e = "e \<lparr>scanAccum := scanAccum e + WrapAngle (pTheta (ePose e) - scanLastHead e),
      scanLastHead := pTheta (ePose e)\<rparr>"
  obtain e1 where e1: "enterSense now e = Some e1" "mission_inv e1"
    using enterSense_inv [OF on_legs_range [OF l] l s] by blast
  have "on_legs (event now (EvScanGiveup (lgWp (eLegs e ! eLi e))) ?e)" using l by simp
  then obtain e2 where e2: "enterSense now (event now (EvScanGiveup (lgWp (eLegs e ! eLi e))) ?e) = Some e2" "mission_inv e2"
    using enterSense_inv [OF on_legs_range] s by fastforce
  have "mission_inv (?e \<lparr>scanDir := -1\<rparr>)"
    using assms by (simp add: mission_inv_def missionActive_def)
  with on_legs_range [OF l] e1 e2 assms show ?thesis
    by (simp add: tickScan_def Let_def)
qed

lemma tickSense_inv:
  assumes "mission_inv e" "eState e = StateSense" "\<not> ePaused e"
  shows "\<exists>e'. tickSense now e = Some e' \<and> mission_inv e'"
proof -
  have l: "on_legs e" using assms by (simp add: mission_inv_def missionActive_def)
  with on_legs_range [OF l] assms show ?thesis
    by (auto simp: tickSense_def Let_def intro!: advance_inv split: prod.splits)
qed

lemma tick_resume_inv:
  assumes "mission_inv e"
  shows "mission_inv (tick_resume now e)" "\<not> ePaused (tick_resume now e)"
proof -
  have "mission_inv (e \<lparr>ePaused := False\<rparr>)"
    using assms by (simp add: mission_inv_def missionActive_def)
  with assms show "mission_inv (tick_resume now e)" "\<not> ePaused (tick_resume now e)"
    by (auto simp: tick_resume_def Let_def)
qed

lemma tick_state_inv:
  assumes "mission_inv e" "\<not> ePaused e"
  shows "\<exists>e' d. tick_state now e = Some (e', d) \<and> mission_inv e'"
  using tickTransit_inv [OF assms(1) _ assms(2), of now] tickScan_inv [OF assms(1), of now]
    tickSense_inv [OF assms(1) _ assms(2), of now] assms(1)
  by (cases "eState e") (auto simp: tick_state_def)

lemma tick_unauthorized_inv:
  assumes "mission_inv e"
  shows "mission_inv (tick_unauthorized now e)"
proof -
  let ?e = "if eState e = StateDone then event now EvMissionReset (setState StateIdle now e) else e"
  have "mission_inv ?e" using assms mission_inv_inactive [of e] by (simp add: mission_inv_inactive)
  moreover have "mission_inv (x \<lparr>ePaused := True, ePausedAt := now\<rparr>)" if "mission_inv x" "missionActive x" for x
    using that by (auto simp: mission_inv_def missionActive_def)
  ultimately show ?thesis by (simp add: tick_unauthorized_def Let_def)
qed

lemma Tick_inv:
  assumes "mission_inv e"
  shows "\<exists>e' out. Tick now e = Some (e', out) \<and> mission_inv e'"
proof (cases "authorized now e")
  case True
  obtain e' d where "tick_state now (tick_resume now e) = Some (e', d)" "mission_inv e'"
    using tick_state_inv tick_resume_inv [OF assms] by blast
  with True show ?thesis by (simp add: Tick_def finish_def)
next
  case False
  with tick_unauthorized_inv [OF assms] show ?thesis by (simp add: Tick_def finish_def)
qed

lemma dwell_count:
  assumes "dwell_ok e"
  shows "\<exists>e' i. count_detections tg ds f e = Some (e', i) \<and> dwell_ok e' \<and>
     (\<exists>c g. e' = e \<lparr>senseCounts := c, senseGeom := g\<rparr>)"
  using assms
proof (induction ds arbitrary: f e)
  case Nil
  then show ?case by (auto intro!: exI [of _ "senseCounts e"] exI [of _ "senseGeom e"])
next
  case (Cons d ds)
  show ?case
  proof (cases "tagMatches tg (detID d)")
    case True
    from Cons.prems obtain c g where cg: "senseCounts e = Some c" "senseGeom e = Some g" "wf_map c"
      "fst ` set g = fst ` set c" "\<forall>x \<in> set c. snd x > 0"
      by (auto simp: dwell_ok_def)
    let ?n = "case map_of c (detID d) of None \<Rightarrow> 0 | Some n \<Rightarrow> n"
    let ?e = "e \<lparr>senseCounts := Some (map_set (detID d) (?n + 1) c), senseGeom := Some (map_set (detID d) d g)\<rparr>"
    have "\<forall>x \<in> set (map_set (detID d) (?n + 1) c). snd x > 0"
      using cg(5) by (induction c) auto
    with cg have "dwell_ok ?e" by (simp add: dwell_ok_def)
    from Cons.IH [OF this, of "if f < 0 then detID d else f"] True cg(1,2) show ?thesis
      by (fastforce simp: Let_def)
  qed (use Cons in simp)
qed

lemma OnDetections_inv:
  assumes "mission_inv e"
  shows "\<exists>e' cb. OnDetections ds now e = Some (e', cb) \<and> mission_inv e'"
proof (cases "eState e = StateSense \<and> eLi e < length (eLegs e)")
  case True
  let ?e = "e \<lparr>eDets := ds\<rparr>"
  have "dwell_ok ?e" using assms True by (simp add: mission_inv_def dwell_ok_def)
  from dwell_count [OF this, of "lgTag (eLegs ?e ! eLi ?e)" ds "-1"] obtain e' i c g where
    "count_detections (lgTag (eLegs ?e ! eLi ?e)) ds (-1) ?e = Some (e', i)" "dwell_ok e'"
    "e' = ?e \<lparr>senseCounts := c, senseGeom := g\<rparr>" by blast
  moreover from this assms True have "mission_inv e'"
    by (simp add: mission_inv_def missionActive_def)
  ultimately show ?thesis using True by (simp add: OnDetections_def Let_def)
qed (use assms in \<open>auto simp: OnDetections_def\<close>)

lemma mission_step_inv:
  assumes "mission_inv e"
  shows "\<exists>e'. mission_step i e = Some e' \<and> mission_inv e'"
proof (cases i)
  case (InDetections ds now)
  with OnDetections_inv [OF assms, of ds now] show ?thesis by auto
next
  case (InTick now)
  with Tick_inv [OF assms, of now] show ?thesis by auto
qed (use assms in \<open>simp_all add: OnMode_inv OnOdometry_inv Reload_inv SetPoseListener_def SetSenseListener_def\<close>)

lemma New_inv: "mission_inv (New ps)"
  by (simp add: mission_inv_inactive New_def)

lemma reachable_inv: "mission_reachable ps e \<Longrightarrow> mission_inv e"
proof (induction rule: mission_reachable.induct)
  case (step e i e')
  then show ?case using mission_step_inv [of e i] by auto
qed (rule New_inv)

section \<open>Properties of the mission\<close>

text \<open>
  C7. The engine never panics: in every state reachable by any sequence of mode messages, odometry,
  detections, ticks and reloads, every further operation returns, without an index out of range and
  without a write to a nil map, and the mission invariant holds again.
\<close>

theorem mission_never_panics:
  assumes "mission_reachable ps e"
  shows "\<exists>e'. mission_step i e = Some e' \<and> mission_inv e'"
  using mission_step_inv [OF reachable_inv [OF assms]] .

lemma copysign_abs: "\<bar>copysign f s\<bar> = \<bar>f\<bar>"
  by (simp add: copysign_def)

lemma steer_bounds:
  assumes "0 \<le> CruiseSpeed (eP e)" "0 \<le> TurnRate (eP e)"
  shows "0 \<le> VX (steer e h x)" "VX (steer e h x) \<le> CruiseSpeed (eP e)"
    "\<bar>YawRate (steer e h x)\<bar> \<le> TurnRate (eP e)"
  using assms by (auto simp: steer_def copysign_abs clamp_def minApproachSpeed_def)

definition drive_bounded :: "params \<Rightarrow> drive \<Rightarrow> bool" where
  "drive_bounded ps d \<longleftrightarrow> 0 \<le> VX d \<and> VX d \<le> CruiseSpeed ps \<and> \<bar>YawRate d\<bar> \<le> TurnRate ps"

lemma stop_bounded: "0 \<le> CruiseSpeed ps \<Longrightarrow> 0 \<le> TurnRate ps \<Longrightarrow> drive_bounded ps stop_drive"
  by (simp add: drive_bounded_def stop_drive_def)

text \<open>The limits of the drive are never reconfigured.\<close>

definition same_limits :: "params \<Rightarrow> params \<Rightarrow> bool" where
  "same_limits a b \<longleftrightarrow> CruiseSpeed a = CruiseSpeed b \<and> TurnRate a = TurnRate b"

lemma drive_bounded_limits: "same_limits a b \<Longrightarrow> drive_bounded a d = drive_bounded b d"
  by (simp add: same_limits_def drive_bounded_def)

lemma enter_params:
  "enterSense now e = Some e' \<Longrightarrow> eP e' = eP e" "enterScan now e = Some e' \<Longrightarrow> eP e' = eP e"
  by (auto simp: enterSense_def enterScan_def Let_def split: if_splits)

lemma advance_params [simp]: "eP (advance now e) = eP e"
  by (simp add: advance_def Let_def)

lemma fix_params [simp]: "eP (refix det lg e) = eP e" "eP (snapTo lg e) = eP e"
  by (simp_all add: refix_def snapTo_def Let_def)

lemma arrive_params: "arrive now lg e = Some e' \<Longrightarrow> eP e' = eP e"
  by (auto simp: arrive_def Let_def dest!: enter_params split: if_splits option.splits)

lemma tickTransit_bounded:
  assumes "tickTransit now e = Some (e', d)" "0 \<le> CruiseSpeed (eP e)" "0 \<le> TurnRate (eP e)"
  shows "eP e' = eP e \<and> drive_bounded (eP e) d"
proof -
  have "eP e'' = eP e \<Longrightarrow> drive_bounded (eP e) (steer e'' h x)" for e'' h x
    using steer_bounds [of e''] assms(2,3) by (simp add: drive_bounded_def)
  with assms show ?thesis
    by (auto simp: tickTransit_def Let_def stop_bounded dest!: arrive_params split: if_splits option.splits)
qed

lemma tickScan_bounded:
  assumes "tickScan now e = Some (e', d)" "scanDir e = 1 \<or> scanDir e = -1"
    "0 \<le> CruiseSpeed (eP e)" "0 \<le> TurnRate (eP e)"
  shows "eP e' = eP e \<and> drive_bounded (eP e) d"
  using assms
  by (auto simp: tickScan_def Let_def stop_drive_def drive_bounded_def scanRateScale_def
      dest!: enter_params split: if_splits)

lemma tickSense_params: "tickSense now e = Some e' \<Longrightarrow> eP e' = eP e"
  by (auto simp: tickSense_def Let_def split: if_splits prod.splits)

lemma tick_state_bounded:
  assumes "tick_state now e = Some (e', Some d)" "mission_inv e" "0 \<le> CruiseSpeed (eP e)" "0 \<le> TurnRate (eP e)"
  shows "drive_bounded (eP e) d"
proof (cases "eState e")
  case StateTransit
  with assms(1) have "tickTransit now e = Some (e', d)" by (auto simp: tick_state_def)
  with tickTransit_bounded assms(3,4) show ?thesis by blast
next
  case StateScan
  with assms(1) have "tickScan now e = Some (e', d)" by (auto simp: tick_state_def)
  moreover have "scanDir e = 1 \<or> scanDir e = -1"
    using assms(2) StateScan unfolding mission_inv_def by blast
  ultimately show ?thesis using tickScan_bounded assms(3,4) by blast
qed (use assms in \<open>auto simp: tick_state_def stop_bounded\<close>)

lemma tick_state_params: "tick_state now e = Some (e', d) \<Longrightarrow> eP e' = eP e"
proof -
  assume *: "tick_state now e = Some (e', d)"
  have "tickTransit now e = Some (e', x) \<Longrightarrow> eP e' = eP e" for x
    by (auto simp: tickTransit_def Let_def dest!: arrive_params split: if_splits option.splits)
  moreover have "tickScan now e = Some (e', x) \<Longrightarrow> eP e' = eP e" for x
    by (auto simp: tickScan_def Let_def dest!: enter_params split: if_splits option.splits)
  ultimately show ?thesis
    using * tickSense_params [of now e] by (cases "eState e") (auto simp: tick_state_def)
qed

lemma tick_resume_params [simp]: "eP (tick_resume now e) = eP e" "eState (tick_resume now e) = eState e"
  by (simp_all add: tick_resume_def Let_def)

lemma count_detections_params: "count_detections tg ds f e = Some (e', i) \<Longrightarrow> eP e' = eP e"
  by (induction tg ds f e rule: count_detections.induct) (auto simp: Let_def split: if_splits option.splits)

lemma mission_step_limits: "mission_step i e = Some e' \<Longrightarrow> same_limits (eP e') (eP e)"
proof (cases i)
  case (InDetections ds now)
  moreover assume "mission_step i e = Some e'"
  ultimately show ?thesis
    using count_detections_params
    by (fastforce simp: OnDetections_def Let_def same_limits_def split: if_splits option.splits)
next
  case (InTick now)
  moreover assume "mission_step i e = Some e'"
  ultimately show ?thesis
    using tick_state_params [of now "tick_resume now e"]
    by (auto simp: Tick_def finish_def tick_unauthorized_def Let_def same_limits_def split: if_splits)
qed (auto simp: OnMode_def OnOdometry_def Reload_def arm_def SetPoseListener_def SetSenseListener_def
    Let_def same_limits_def)

lemma reachable_limits: "mission_reachable ps e \<Longrightarrow> same_limits (eP e) ps"
proof (induction rule: mission_reachable.induct)
  case (step e i e')
  then show ?case using mission_step_limits [of i e e'] by (simp add: same_limits_def)
qed (simp add: New_def same_limits_def)

text \<open>
  C11. Drive safety: whenever a tick of a reachable engine commands the wheels, the rover is in
  autonomous mode by an announcement at most 2.5 seconds old, and the command stays inside the
  configured limits: never backwards, never faster than the cruise speed, never turning faster than
  the turn rate.
\<close>

theorem tick_drive_safe:
  assumes "mission_reachable ps e" "Tick now e = Some (e', out)" "outDrive out = Some d"
    and "0 \<le> CruiseSpeed ps" "0 \<le> TurnRate ps"
  shows "eMode e = ModeAutonomous \<and> lastModeAt e \<noteq> 0 \<and>
    time_sub now (lastModeAt e) \<le> milliseconds 2500 \<and> eState e \<noteq> StateIdle \<and>
    0 \<le> VX d \<and> VX d \<le> CruiseSpeed ps \<and> \<bar>YawRate d\<bar> \<le> TurnRate ps"
proof -
  have auth: "authorized now e"
    using assms(2,3) by (auto simp: Tick_def finish_def split: if_splits)
  with assms(2,3) obtain e1 where t: "tick_state now (tick_resume now e) = Some (e1, Some d)"
    by (auto simp: Tick_def finish_def)
  have lim: "same_limits (eP e) ps" using reachable_limits [OF assms(1)] .
  have "drive_bounded (eP e) d"
    using tick_state_bounded [OF t tick_resume_inv(1) [OF reachable_inv [OF assms(1)]]] lim assms(4,5)
    by (simp add: same_limits_def)
  with lim have "drive_bounded ps d" by (simp add: drive_bounded_limits)
  moreover have "eState e \<noteq> StateIdle" using t by (auto simp: tick_state_def)
  ultimately show ?thesis
    using auth by (simp add: authorized_def time_is_zero_def modeFreshFor_def drive_bounded_def)
qed

text \<open>A one-waypoint mission for concrete runs.\<close>

definition demo_params :: params where
  "demo_params = \<lparr>Waypoints = [\<lparr>vX = 10, vY = 0\<rparr>], TagIDs = [],
     StartPose = \<lparr>pX = 0, pY = 0, pTheta = 0\<rparr>, CruiseSpeed = 1/2, TurnRate = 1, ArriveRadius = 1/4,
     TagStop = 1/2, SenseDwell = seconds 2, ScanMaxRad = 3, ReturnHome = True\<rparr>"

definition demo_armed :: engine where
  "demo_armed = OnMode 3 1000000000 (New demo_params)"

lemma demo_armed_reachable: "mission_reachable demo_params demo_armed"
  unfolding demo_armed_def
  by (rule mission_reachable.step [where i = "InMode 3 1000000000", OF mission_reachable.init]) simp

lemma demo_armed_fields:
  "eState demo_armed = StateTransit" "eLi demo_armed = 0" "eP demo_armed = demo_params"
  "eLegs demo_armed = buildLegs demo_params" "ePose demo_armed = \<lparr>pX = 0, pY = 0, pTheta = 0\<rparr>"
  "eDets demo_armed = []" "ePaused demo_armed = False" "eMode demo_armed = 3" "lastModeAt demo_armed = 1000000000"
  by (simp_all add: demo_armed_def OnMode_def New_def demo_params_def ModeAutonomous_def arm_def Let_def)

lemma demo_tick:
  "tick_state 1100000000 demo_armed = Some (demo_armed, Some \<lparr>VX = 1/2, YawRate = 0\<rparr>)"
proof -
  have leg0: "buildLegs demo_params ! 0 = \<lparr>lgTarget = \<lparr>vX = 10, vY = 0\<rparr>, lgTag = -1, lgWp = 0, lgSense = True\<rparr>"
    and len: "length (buildLegs demo_params) = 2"
    by (simp_all add: buildLegs_def demo_params_def tagOf_def TagAny_def)
  have b: "BearingTo \<lparr>pX = 0, pY = 0, pTheta = 0\<rparr> \<lparr>vX = 10, vY = 0\<rparr> = 0"
    by (simp add: BearingTo_def atan2_def WrapAngle_id)
  have d: "Dist (Position \<lparr>pX = 0, pY = 0, pTheta = 0\<rparr>) \<lparr>vX = 10, vY = 0\<rparr> = 10"
    by (simp add: Dist_def Position_def hypot_def)
  have "freshDet demo_armed 1100000000 (-1) detFreshFor = None"
    by (simp add: freshDet_def demo_armed_fields)
  moreover have "CruiseSpeed demo_params = 1/2" "TurnRate demo_params = 1" "ArriveRadius demo_params = 1/4"
    by (simp_all add: demo_params_def)
  ultimately show ?thesis
    by (simp add: tick_state_def tickTransit_def demo_armed_fields leg0 len b d Let_def steer_def
        alignThreshold_def minApproachSpeed_def approachGain_def clamp_def yawKp_def)
qed

theorem mission_never_panics_witness:
  "\<exists>e'. mission_step (InTick 1100000000) demo_armed = Some e' \<and> mission_inv e'"
  using mission_never_panics [OF demo_armed_reachable, of "InTick 1100000000"] .

theorem tick_drive_safe_witness:
  "\<exists>e' out. Tick 1100000000 demo_armed = Some (e', out) \<and>
     outDrive out = Some \<lparr>VX = 1/2, YawRate = 0\<rparr> \<and> (1/2 :: real) \<le> CruiseSpeed demo_params"
proof -
  have "authorized 1100000000 demo_armed"
    by (simp add: authorized_def demo_armed_fields ModeAutonomous_def time_is_zero_def time_sub_def
        modeFreshFor_def milliseconds_def)
  then obtain e' out where "Tick 1100000000 demo_armed = Some (e', out)"
    "outDrive out = Some \<lparr>VX = 1/2, YawRate = 0\<rparr>"
    by (simp add: Tick_def tick_resume_def demo_armed_fields demo_tick finish_def)
  moreover from tick_drive_safe [OF demo_armed_reachable this]
  have "(1/2 :: real) \<le> CruiseSpeed demo_params" by (simp add: demo_params_def)
  ultimately show ?thesis by blast
qed

text \<open>
  The polyline shown to the operator is the route the engine drives: the start followed by the
  targets of the legs, in order, and a round trip has twice as many legs as waypoints.
\<close>

theorem planned_route_is_driven_route:
  assumes "Waypoints ps \<noteq> []"
  shows "buildPlanned ps = (pX (StartPose ps), pY (StartPose ps)) #
           map (\<lambda>lg. (vX (lgTarget lg), vY (lgTarget lg))) (buildLegs ps) \<and>
         length (buildLegs ps) = (if ReturnHome ps then 2 else 1) * length (Waypoints ps) \<and>
         map lgSense (buildLegs ps) =
           replicate (length (Waypoints ps)) True @ replicate (if ReturnHome ps then length (Waypoints ps) else 0) False"
proof -
  obtain n where n: "length (Waypoints ps) = Suc n" using assms by (cases "Waypoints ps") auto
  have wps: "map (\<lambda>wp. (vX wp, vY wp)) (Waypoints ps) =
      map (\<lambda>i. (vX (Waypoints ps ! i), vY (Waypoints ps ! i))) [0..<Suc n]"
    by (rule nth_equalityI) (simp_all add: n del: upt_Suc)
  have r: "map (\<lambda>_. b) xs = replicate (length xs) b" for b :: bool and xs :: "nat list"
    by (simp add: map_replicate_const)
  show ?thesis
    by (simp add: buildPlanned_def wps buildLegs_def n Let_def o_def Position_def r del: upt_Suc)
      (simp flip: replicate_append_same add: n)
qed

theorem planned_route_is_driven_route_witness:
  "buildPlanned demo_params = [(0, 0), (10, 0), (0, 0)] \<and> length (buildLegs demo_params) = 2"
  using planned_route_is_driven_route [of demo_params]
  by (simp add: demo_params_def buildLegs_def Position_def)

text \<open>
  C35. Marker re-fix: after the position is corrected from a sighting, the leg's target is at the
  sighted distance and, relative to the unchanged heading, at the sighted bearing.
\<close>

theorem refix_matches_sighting:
  assumes "detDistance det > 0"
  shows "Dist (Position (ePose (refix det lg e))) (lgTarget lg) = detDistance det \<and>
         BearingTo (ePose (refix det lg e)) (lgTarget lg) = WrapAngle (detBearing det) \<and>
         pTheta (ePose (refix det lg e)) = pTheta (ePose e)"
proof -
  have "ePose (refix det lg e) = place_before (lgTarget lg) (detDistance det) (detBearing det) (ePose e)"
    by (simp add: refix_def place_before_def Let_def)
  with place_before_dist place_before_bearing assms show ?thesis
    by (simp add: place_before_def)
qed

theorem refix_matches_sighting_witness:
  "Dist (Position (ePose (refix \<lparr>detID = 4, detBearing = 0, detDistance = 2, detT = 0\<rparr>
     \<lparr>lgTarget = \<lparr>vX = 10, vY = 0\<rparr>, lgTag = -1, lgWp = 0, lgSense = True\<rparr> demo_armed))) \<lparr>vX = 10, vY = 0\<rparr> = 2"
  using refix_matches_sighting [of "\<lparr>detID = 4, detBearing = 0, detDistance = 2, detT = 0\<rparr>"
      "\<lparr>lgTarget = \<lparr>vX = 10, vY = 0\<rparr>, lgTag = -1, lgWp = 0, lgSense = True\<rparr>" demo_armed]
  by simp

text \<open>The order of the dwell's vote: more sightings first, then the lower id.\<close>

definition at_least :: "int \<times> nat \<Rightarrow> int \<times> nat \<Rightarrow> bool" where
  "at_least x y \<longleftrightarrow> snd y < snd x \<or> snd y = snd x \<and> fst x \<le> fst y"

lemma at_least_trans: "at_least x y \<Longrightarrow> at_least y z \<Longrightarrow> at_least x z"
  by (auto simp: at_least_def)

lemma senseBest_loop_spec:
  assumes "fst b \<ge> 0" "\<forall>x \<in> set m. fst x \<ge> 0"
  shows "senseBest_loop b m \<in> insert b (set m) \<and> (\<forall>x \<in> insert b (set m). at_least (senseBest_loop b m) x)"
  using assms
proof (induction m arbitrary: b)
  case Nil
  then show ?case by (cases b) (simp add: at_least_def)
next
  case (Cons x m)
  obtain i n where b: "b = (i, n)" by fastforce
  obtain j k where x: "x = (j, k)" by fastforce
  show ?case
  proof (cases "n < k \<or> k = n \<and> j < i")
    case True
    with Cons.IH [of x] Cons.prems have r: "senseBest_loop x m \<in> insert x (set m)"
      "\<forall>y \<in> insert x (set m). at_least (senseBest_loop x m) y" by auto
    have "at_least x b" using True by (auto simp: at_least_def b x)
    with r(2) have "at_least (senseBest_loop x m) b" using at_least_trans by blast
    moreover have "senseBest_loop b (x # m) = senseBest_loop x m" using True Cons.prems by (simp add: b x)
    ultimately show ?thesis using r by auto
  next
    case False
    with Cons.IH [of b] Cons.prems have r: "senseBest_loop b m \<in> insert b (set m)"
      "\<forall>y \<in> insert b (set m). at_least (senseBest_loop b m) y" by auto
    have "at_least b x" using False by (auto simp: at_least_def b x)
    with r(2) have "at_least (senseBest_loop b m) x" using at_least_trans by blast
    moreover have "senseBest_loop b (x # m) = senseBest_loop b m" using False by (auto simp: b x)
    ultimately show ?thesis using r by auto
  qed
qed

text \<open>
  The marker a dwell reports does not depend on the iteration order of the counter map: it is the
  id seen most often, the lowest one among ties.
\<close>

theorem sense_best_is_majority:
  assumes "dwell_ok e" "senseCounts e = Some m" "m \<noteq> []" "\<forall>x \<in> set m. fst x \<ge> 0"
  shows "\<exists>i n. senseBest e = (i, True) \<and> (i, n) \<in> set m \<and>
           (\<forall>(j, k) \<in> set m. k < n \<or> k = n \<and> i \<le> j)"
proof -
  obtain i k m' where m: "m = (i, k) # m'" using assms(3) by (cases m) auto
  have "k > 0" using assms(1,2) by (auto simp: dwell_ok_def m)
  then have l: "senseBest_loop (-1, 0) m = senseBest_loop (i, k) m'" by (simp add: m)
  have s: "senseBest_loop (i, k) m' \<in> set m" "\<forall>x \<in> set m. at_least (senseBest_loop (i, k) m') x"
    using senseBest_loop_spec [of "(i, k)" m'] assms(4) by (auto simp: m)
  obtain j n where jn: "senseBest_loop (i, k) m' = (j, n)" by fastforce
  with s assms(4) have "senseBest e = (j, True)" by (auto simp: senseBest_def assms(2) l Let_def)
  with s jn show ?thesis by (fastforce simp: at_least_def)
qed

theorem sense_best_is_majority_witness:
  "\<exists>i n. senseBest (demo_armed \<lparr>senseCounts := Some [(7, 2), (3, 5), (1, 5)], senseGeom := Some
      [(7, zero_detection), (3, zero_detection), (1, zero_detection)]\<rparr>) = (i, True) \<and> i = 1 \<and> n = (5::nat)"
  using sense_best_is_majority [of "demo_armed \<lparr>senseCounts := Some [(7, 2), (3, 5), (1, 5)],
      senseGeom := Some [(7, zero_detection), (3, zero_detection), (1, zero_detection)]\<rparr>" "[(7, 2), (3, 5), (1, 5)]"]
  by (auto simp: dwell_ok_def wf_map_def)

lemma enter_li:
  "enterSense now e = Some e' \<Longrightarrow> eLi e' = eLi e \<and> eState e' = StateSense"
  "enterScan now e = Some e' \<Longrightarrow> eLi e' = eLi e \<and> eState e' = StateScan"
  by (auto simp: enterSense_def enterScan_def Let_def split: if_splits)

lemma advance_li:
  "eLi (advance now e) = Suc (eLi e)" "eState (advance now e) = StateDone \<longleftrightarrow> Suc (eLi e) \<ge> length (eLegs e)"
  "eLegs (advance now e) = eLegs e"
  by (auto simp: advance_def Let_def)

text \<open>How one authorized tick moves along the legs: \<open>stay\<close> keeps the leg and does not finish, \<open>move\<close> goes
  to the next one, and finishes exactly behind the last.\<close>

definition stays :: "engine \<Rightarrow> engine \<Rightarrow> bool" where
  "stays e e' \<longleftrightarrow> eLi e' = eLi e \<and> (eState e' = StateDone \<longleftrightarrow> eState e = StateDone)"

definition moves :: "engine \<Rightarrow> engine \<Rightarrow> bool" where
  "moves e e' \<longleftrightarrow> eLi e' = Suc (eLi e) \<and> (eState e' = StateDone \<longleftrightarrow> Suc (eLi e) \<ge> length (eLegs e))"

lemma moves_advance: "eLi e1 = eLi e \<Longrightarrow> eLegs e1 = eLegs e \<Longrightarrow> moves e (advance now e1)"
  by (simp add: moves_def advance_li)

lemma arrive_leg:
  assumes "arrive now lg e = Some e'" "eState e \<noteq> StateDone"
  shows "if lgSense lg then stays e e' else moves e e'"
proof -
  have 1: "stays e x" if "enterSense now y = Some x" "eLi y = eLi e" for x y
    using that enter_li(1) [of now y x] assms(2) by (simp add: stays_def)
  have 2: "stays e x" if "enterScan now y = Some x" "eLi y = eLi e" for x y
    using that enter_li(2) [of now y x] assms(2) by (simp add: stays_def)
  show ?thesis
    using assms(1)
    by (auto simp: arrive_def Let_def intro!: moves_advance elim: 1 2 split: if_splits option.splits)
qed

lemma tickTransit_leg:
  assumes "tickTransit now e = Some (e', d)" "eState e = StateTransit"
  shows "stays e e' \<or> moves e e' \<and> \<not> lgSense (eLegs e ! eLi e)"
proof -
  let ?lg = "eLegs e ! eLi e"
  have "arrive now ?lg e = Some e' \<or> (\<exists>q. e' = e \<lparr>ePose := q\<rparr>)"
    using assms(1) by (auto simp: tickTransit_def Let_def split: if_splits option.splits intro: exI [of _ "ePose e"])
  moreover have "stays e (e \<lparr>ePose := q\<rparr>)" for q by (simp add: stays_def)
  ultimately show ?thesis using arrive_leg [of now ?lg e e'] assms(2) by (auto split: if_splits)
qed

lemma tickScan_leg: "tickScan now e = Some (e', d) \<Longrightarrow> eState e = StateScan \<Longrightarrow> stays e e'"
  by (auto simp: tickScan_def Let_def stays_def dest!: enter_li split: if_splits)

lemma tickSense_leg:
  "tickSense now e = Some e' \<Longrightarrow> eState e = StateSense \<Longrightarrow>
     stays e e' \<or> moves e e' \<and> SenseDwell (eP e) \<le> time_sub now (senseStart e)"
  by (auto simp: tickSense_def Let_def stays_def not_less intro!: moves_advance split: if_splits prod.splits)

lemma tick_state_leg:
  assumes "tick_state now e = Some (e', d)"
  shows "stays e e' \<or> moves e e' \<and> missionActive e \<and> (lgSense (eLegs e ! eLi e) \<longrightarrow>
    eState e = StateSense \<and> SenseDwell (eP e) \<le> time_sub now (senseStart e))"
proof (cases "eState e")
  case StateTransit
  with assms tickTransit_leg [of now e e'] show ?thesis by (auto simp: tick_state_def missionActive_def)
next
  case StateScan
  with assms tickScan_leg [of now e e'] show ?thesis by (auto simp: tick_state_def)
next
  case StateSense
  with assms tickSense_leg [of now e e'] show ?thesis by (auto simp: tick_state_def missionActive_def)
qed (use assms in \<open>auto simp: tick_state_def stays_def\<close>)

lemma tick_resume_sel: "eLi (tick_resume now e) = eLi e" "eLegs (tick_resume now e) = eLegs e"
  "missionActive (tick_resume now e) = missionActive e"
  by (simp_all add: tick_resume_def Let_def missionActive_def)



text \<open>
  Waypoints change only between missions: a reload while a mission runs is refused and changes
  nothing; otherwise it succeeds exactly when tags are absent or match the waypoints one to one, and
  leaves an idle engine at the new start with no legs and no progress, which the next switch to
  autonomous arms with the new waypoints.
\<close>

theorem reload_only_between_missions:
  "(missionActive e \<longrightarrow> snd (Reload wps tags start now e) = e \<and>
      fst (Reload wps tags start now e) = Some (ErrMissionRunning (stateName e))) \<and>
   (\<not> missionActive e \<longrightarrow>
      (fst (Reload wps tags start now e) = None \<longleftrightarrow> tags = [] \<or> length tags = length wps)) \<and>
   (fst (Reload wps tags start now e) = None \<longrightarrow>
      (let e' = snd (Reload wps tags start now e) in
        eState e' = StateIdle \<and> ePose e' = start \<and> eLegs e' = [] \<and> wpReached e' = [] \<and>
        Waypoints (eP e') = wps \<and> length (TagIDs (eP e')) = length wps \<and>
        (wps \<noteq> [] \<and> eMode e' \<noteq> 3 \<longrightarrow> (let e'' = OnMode 3 t e' in
          eState e'' = StateTransit \<and> eLegs e'' = buildLegs (eP e') \<and> eLi e'' = 0))))"
proof -
  have act: "missionActive e \<longleftrightarrow> eState e \<noteq> StateIdle \<and> eState e \<noteq> StateDone"
    by (cases "eState e") (simp_all add: missionActive_def)
  show ?thesis
    by (simp add: act Reload_def Let_def OnMode_def ModeAutonomous_def arm_def)
qed

theorem reload_only_between_missions_witness:
  "snd (Reload [] [] \<lparr>pX = 1, pY = 1, pTheta = 0\<rparr> 5 demo_armed) = demo_armed"
  using reload_only_between_missions [of demo_armed "[]" "[]" "\<lparr>pX = 1, pY = 1, pTheta = 0\<rparr>" 5]
  by (simp add: missionActive_def demo_armed_fields)

end
