(* ===== verification/Descriptor.thy ===== *)
theory Descriptor
  imports Prelude
begin

text \<open>
  The platform descriptor (\<^verbatim>\<open>protocol/platform/descriptor\<close>): the records of
  \<^verbatim>\<open>descriptor.go\<close>, the validator of \<^verbatim>\<open>validate.go\<close>, the lookups and the inverse kinematics of
  \<^verbatim>\<open>derive.go\<close>, and the deny-list that the agent derives from it (\<^verbatim>\<open>platform_deny.go\<close>).
  The TOML decoder and the file system are parameters of \<open>Parse\<close>, \<open>Load\<close> and \<open>loadDenyIDs\<close>.
\<close>

section \<open>Data\<close>

type_synonym u32 = "32 word"

record platform =
  platID :: string
  platName :: string
  VehicleClass :: string

record driver =
  drvKind :: string
  drvPort :: string
  drvBaud :: int

record limits =
  VelocityRadps :: "f64 option"
  PositionMinRad :: "f64 option"
  PositionMaxRad :: "f64 option"

record joint =
  jName :: string
  jDriver :: string
  jBusID :: u32
  jType :: string
  jOwnership :: string
  jInvert :: bool
  jCommandInterfaces :: "string list"
  jStateInterfaces :: "string list"
  jLimits :: "limits option"

record kinematics =
  kModel :: string
  WheelRadiusM :: f64
  TrackWidthM :: f64
  kWheels :: "(string \<times> string) list"

record sensor =
  sName :: string
  sKind :: string
  sFrame :: string
  sRateHz :: f64

record obs_stream =
  stSubject :: string
  stMessage :: string
  stRateHz :: f64

record descriptor =
  dSchema :: int
  dPlatform :: platform
  dDrivers :: "(string \<times> driver) list"
  dJoints :: "joint list"
  dKinematics :: "kinematics option"
  dAllocation :: "unit option"
  dSensors :: "sensor list"
  dModes :: "string list option"
  dObservations :: "obs_stream list option"
  dActions :: "string list option"

datatype desc_error =
    ErrDecode string
  | ErrUnknownKey string
  | ErrReadFile string
  | ErrSchema int
  | ErrPlatformID
  | ErrVehicleClass string
  | ErrDriverKind string string
  | ErrDriverPort string
  | ErrEmptyJointName
  | ErrDuplicateJoint string
  | ErrUndefinedDriver string string
  | ErrDuplicateBusID u32 string
  | ErrJointType string string
  | ErrOwnership string string
  | ErrCommandInterface string string
  | ErrStateInterface string string
  | ErrWheelLimits string
  | ErrPositionLimits string
  | ErrFixedBaseKinematics
  | ErrKinematicsRequired
  | ErrKinematicsModel string
  | ErrKinematicsDimensions
  | ErrWheelMissing string
  | ErrWheelUnknownJoint string string
  | ErrWheelNotWheel string string
  | ErrWheelPosition string
  | ErrSensorKind string string
  | ErrNoDiffDrive


section \<open>Validation\<close>

definition supportedSchema :: int where
  "supportedSchema = 1"

definition vehicleClasses :: "string list" where
  "vehicleClasses = [''diff_drive_rover'', ''fixed_base'']"

definition driverKinds :: "string list" where
  "driverKinds = [''sts3215'', ''sim'']"

definition jointTypes :: "string list" where
  "jointTypes = [''wheel'', ''revolute'', ''gripper'']"

definition ownerships :: "string list" where
  "ownerships = [''platform'', ''module'']"

definition cmdInterfaces :: "string list" where
  "cmdInterfaces = [''position'', ''velocity'', ''effort'']"

definition stateInterfaces :: "string list" where
  "stateInterfaces = [''position'', ''velocity'', ''load'', ''current'', ''voltage'', ''temperature'']"

definition sensorKinds :: "string list" where
  "sensorKinds = [''imu'', ''gps'', ''camera'']"

definition wheelPositions :: "string list" where
  "wheelPositions = [''front_left'', ''front_right'', ''back_left'', ''back_right'']"

text \<open>The body of the loop over \<^verbatim>\<open>d.Drivers\<close>.\<close>

definition validate_driver :: "string \<times> driver \<Rightarrow> desc_error option" where
  "validate_driver nd = first_error
     [check (drvKind (snd nd) \<in> set driverKinds) (ErrDriverKind (fst nd) (drvKind (snd nd))),
      check (\<not> (drvKind (snd nd) = ''sts3215'' \<and> drvPort (snd nd) = '''')) (ErrDriverPort (fst nd))]"

text \<open>The limits a platform-owned joint must declare (the final \<^verbatim>\<open>switch\<close> of the joint loop).\<close>

definition validate_limits :: "joint \<Rightarrow> desc_error option" where
  "validate_limits j =
     (if jOwnership j = ''platform'' then
        if jType j = ''wheel'' then
          (case jLimits j of
             None \<Rightarrow> Some (ErrWheelLimits (jName j))
           | Some l \<Rightarrow> check (VelocityRadps l \<noteq> None) (ErrWheelLimits (jName j)))
        else if jType j = ''revolute'' \<or> jType j = ''gripper'' then
          (case jLimits j of
             None \<Rightarrow> Some (ErrPositionLimits (jName j))
           | Some l \<Rightarrow> check (PositionMinRad l \<noteq> None \<and> PositionMaxRad l \<noteq> None)
                         (ErrPositionLimits (jName j)))
        else None
      else None)"

fun validateJoints_loop ::
  "(string \<times> driver) list \<Rightarrow> string list \<Rightarrow> (string \<times> u32) list \<Rightarrow> joint list \<Rightarrow> desc_error option"
where
  "validateJoints_loop drivers names busIDs [] = None"
| "validateJoints_loop drivers names busIDs (j # js) = first_error
     [check (jName j \<noteq> '''') ErrEmptyJointName,
      check (jName j \<notin> set names) (ErrDuplicateJoint (jName j)),
      check (map_of drivers (jDriver j) \<noteq> None) (ErrUndefinedDriver (jName j) (jDriver j)),
      check ((jDriver j, jBusID j) \<notin> set busIDs) (ErrDuplicateBusID (jBusID j) (jDriver j)),
      check (jType j \<in> set jointTypes) (ErrJointType (jName j) (jType j)),
      check (jOwnership j \<in> set ownerships) (ErrOwnership (jName j) (jOwnership j)),
      first_error (map (\<lambda>c. check (c \<in> set cmdInterfaces) (ErrCommandInterface (jName j) c))
        (jCommandInterfaces j)),
      first_error (map (\<lambda>s. check (s \<in> set stateInterfaces) (ErrStateInterface (jName j) s))
        (jStateInterfaces j)),
      validate_limits j,
      validateJoints_loop drivers (jName j # names) ((jDriver j, jBusID j) # busIDs) js]"

definition validateJoints :: "descriptor \<Rightarrow> desc_error option" where
  "validateJoints d = validateJoints_loop (dDrivers d) [] [] (dJoints d)"

text \<open>The map \<^verbatim>\<open>byName\<close>: a later joint of the same name replaces an earlier one.\<close>

definition byName :: "joint list \<Rightarrow> (string \<times> joint) list" where
  "byName js = foldl (\<lambda>m j. map_set (jName j) j m) [] js"

definition validate_wheel :: "kinematics \<Rightarrow> joint list \<Rightarrow> string \<Rightarrow> desc_error option" where
  "validate_wheel k js pos =
     (case map_of (kWheels k) pos of
        None \<Rightarrow> Some (ErrWheelMissing pos)
      | Some name \<Rightarrow>
          (case map_of (byName js) name of
             None \<Rightarrow> Some (ErrWheelUnknownJoint pos name)
           | Some j \<Rightarrow> check (jType j = ''wheel'') (ErrWheelNotWheel pos name)))"

definition validateKinematics :: "descriptor \<Rightarrow> desc_error option" where
  "validateKinematics d =
     (if VehicleClass (dPlatform d) = ''fixed_base'' then
        check (dKinematics d = None) ErrFixedBaseKinematics
      else if VehicleClass (dPlatform d) \<noteq> ''diff_drive_rover'' then None
      else case dKinematics d of
        None \<Rightarrow> Some ErrKinematicsRequired
      | Some k \<Rightarrow> first_error
          ([check (kModel k = ''diff_drive'') (ErrKinematicsModel (kModel k)),
            check (\<not> (f_le (WheelRadiusM k) (Fin 0) \<or> f_le (TrackWidthM k) (Fin 0)))
              ErrKinematicsDimensions] @
           map (validate_wheel k (dJoints d)) wheelPositions @
           map (\<lambda>pn. check (fst pn \<in> set wheelPositions) (ErrWheelPosition (fst pn))) (kWheels k)))"

definition validate :: "descriptor \<Rightarrow> desc_error option" where
  "validate d = first_error
     [check (dSchema d = supportedSchema) (ErrSchema (dSchema d)),
      check (platID (dPlatform d) \<noteq> '''') ErrPlatformID,
      check (VehicleClass (dPlatform d) \<in> set vehicleClasses)
        (ErrVehicleClass (VehicleClass (dPlatform d))),
      first_error (map validate_driver (dDrivers d)),
      validateJoints d,
      validateKinematics d,
      first_error (map (\<lambda>s. check (sKind s \<in> set sensorKinds) (ErrSensorKind (sName s) (sKind s)))
        (dSensors d))]"

text \<open>
  \<open>decode\<close> stands for \<^verbatim>\<open>toml.Decode\<close>: it fails with a message, or gives the decoded
  descriptor and the undecoded keys.
\<close>

definition Parse ::
  "(string \<Rightarrow> string + descriptor \<times> string list) \<Rightarrow> string \<Rightarrow> desc_error + descriptor" where
  "Parse decode data =
     (case decode data of
        Inl msg \<Rightarrow> Inl (ErrDecode msg)
      | Inr (d, un) \<Rightarrow>
          (case un of
             key # _ \<Rightarrow> Inl (ErrUnknownKey key)
           | [] \<Rightarrow> (case validate d of Some e \<Rightarrow> Inl e | None \<Rightarrow> Inr d)))"

definition Load ::
  "(string \<Rightarrow> string + string) \<Rightarrow> (string \<Rightarrow> string + descriptor \<times> string list) \<Rightarrow> string
    \<Rightarrow> desc_error + descriptor" where
  "Load readFile decode path =
     (case readFile path of Inl msg \<Rightarrow> Inl (ErrReadFile msg) | Inr data \<Rightarrow> Parse decode data)"


section \<open>Lookups and inverse kinematics\<close>

fun BusIDFor_loop :: "joint list \<Rightarrow> string \<Rightarrow> u32 option" where
  "BusIDFor_loop [] name = None"
| "BusIDFor_loop (j # js) name = (if jName j = name then Some (jBusID j) else BusIDFor_loop js name)"

definition BusIDFor :: "descriptor \<Rightarrow> string \<Rightarrow> u32 option" where
  "BusIDFor d name = BusIDFor_loop (dJoints d) name"

fun NameForBusID_loop :: "joint list \<Rightarrow> string \<Rightarrow> u32 \<Rightarrow> string option" where
  "NameForBusID_loop [] drv i = None"
| "NameForBusID_loop (j # js) drv i =
     (if jDriver j = drv \<and> jBusID j = i then Some (jName j) else NameForBusID_loop js drv i)"

definition NameForBusID :: "descriptor \<Rightarrow> string \<Rightarrow> u32 \<Rightarrow> string option" where
  "NameForBusID d drv i = NameForBusID_loop (dJoints d) drv i"

definition PlatformOwnedBusIDs :: "descriptor \<Rightarrow> u32 list" where
  "PlatformOwnedBusIDs d = map jBusID (filter (\<lambda>j. jOwnership j = ''platform'') (dJoints d))"

definition wheel_command :: "(string \<times> joint) list \<Rightarrow> f64 \<Rightarrow> f64 \<Rightarrow> f64 \<Rightarrow> string \<times> string \<Rightarrow> f64" where
  "wheel_command names vL vR radius pn =
     (let v = (if fst pn = ''front_right'' \<or> fst pn = ''back_right'' then vR else vL);
          w = f_div v radius;
          inverted = (case map_of names (snd pn) of Some j \<Rightarrow> jInvert j | None \<Rightarrow> False)
      in if inverted then f_neg w else w)"

definition WheelSpeeds ::
  "descriptor \<Rightarrow> f64 \<Rightarrow> f64 \<Rightarrow> desc_error + (string \<times> f64) list" where
  "WheelSpeeds d vxMps wzRadps =
     (case dKinematics d of
        None \<Rightarrow> Inl ErrNoDiffDrive
      | Some k \<Rightarrow>
          if kModel k \<noteq> ''diff_drive'' then Inl ErrNoDiffDrive
          else
            let half = f_div (f_mul wzRadps (TrackWidthM k)) (Fin 2);
                vL = f_sub vxMps half;
                vR = f_add vxMps half
            in Inr (foldl (\<lambda>out pn.
                 map_set (snd pn) (wheel_command (byName (dJoints d)) vL vR (WheelRadiusM k) pn) out)
                 [] (kWheels k)))"


section \<open>The deny-list of the servo surface\<close>

definition defaultDenyIDs :: "u32 set" where
  "defaultDenyIDs = {7, 8, 9, 10}"

fun loadDenyIDs :: "(string \<Rightarrow> desc_error + descriptor) \<Rightarrow> string list \<Rightarrow> u32 set" where
  "loadDenyIDs load [] = defaultDenyIDs"
| "loadDenyIDs load (p # ps) =
     (if p = '''' then loadDenyIDs load ps
      else case load p of
        Inl e \<Rightarrow> loadDenyIDs load ps
      | Inr d \<Rightarrow> set (PlatformOwnedBusIDs d))"

section \<open>What the validator accepts\<close>

text \<open>The reference definition: a descriptor is well formed when the following facts hold,
  stated without an order of checks and without the loops' accumulators.\<close>

definition bus_key :: "joint \<Rightarrow> string \<times> u32" where
  "bus_key j = (jDriver j, jBusID j)"

definition limits_declared :: "joint \<Rightarrow> bool" where
  "limits_declared j \<longleftrightarrow>
     (jOwnership j = ''platform'' \<longrightarrow>
        (\<exists>l. jLimits j = Some l \<and>
           (if jType j = ''wheel'' then VelocityRadps l \<noteq> None
            else PositionMinRad l \<noteq> None \<and> PositionMaxRad l \<noteq> None)))"

definition joint_ok :: "(string \<times> driver) list \<Rightarrow> joint \<Rightarrow> bool" where
  "joint_ok drivers j \<longleftrightarrow>
     jName j \<noteq> '''' \<and> jDriver j \<in> fst ` set drivers \<and>
     jType j \<in> set jointTypes \<and> jOwnership j \<in> set ownerships \<and>
     set (jCommandInterfaces j) \<subseteq> set cmdInterfaces \<and>
     set (jStateInterfaces j) \<subseteq> set stateInterfaces \<and>
     limits_declared j"

definition wheels_ok :: "descriptor \<Rightarrow> kinematics \<Rightarrow> bool" where
  "wheels_ok d k \<longleftrightarrow>
     kModel k = ''diff_drive'' \<and>
     \<not> f_le (WheelRadiusM k) (Fin 0) \<and> \<not> f_le (TrackWidthM k) (Fin 0) \<and>
     fst ` set (kWheels k) = set wheelPositions \<and>
     (\<forall>pos \<in> set wheelPositions. \<exists>j \<in> set (dJoints d).
        map_of (kWheels k) pos = Some (jName j) \<and> jType j = ''wheel'')"

definition well_formed :: "descriptor \<Rightarrow> bool" where
  "well_formed d \<longleftrightarrow>
     dSchema d = 1 \<and> platID (dPlatform d) \<noteq> '''' \<and>
     (\<forall>drv \<in> snd ` set (dDrivers d). drvKind drv = ''sim'' \<or>
        drvKind drv = ''sts3215'' \<and> drvPort drv \<noteq> '''') \<and>
     (\<forall>j \<in> set (dJoints d). joint_ok (dDrivers d) j) \<and>
     distinct (map jName (dJoints d)) \<and> distinct (map bus_key (dJoints d)) \<and>
     (\<forall>s \<in> set (dSensors d). sKind s \<in> set sensorKinds) \<and>
     (VehicleClass (dPlatform d) = ''fixed_base'' \<and> dKinematics d = None \<or>
      VehicleClass (dPlatform d) = ''diff_drive_rover'' \<and>
        (\<exists>k. dKinematics d = Some k \<and> wheels_ok d k))"

lemma validate_limits_None:
  "jType j \<in> set jointTypes \<Longrightarrow> validate_limits j = None \<longleftrightarrow> limits_declared j"
  by (auto simp: validate_limits_def limits_declared_def jointTypes_def split: option.splits)

lemma map_of_not_None: "map_of m k \<noteq> None \<longleftrightarrow> k \<in> fst ` set m"
  by (simp add: map_of_eq_None_iff)

lemma ex_map_of: "(\<exists>v. map_of m k = Some v) \<longleftrightarrow> k \<in> fst ` set m"
  using map_of_not_None [of m k] by (simp only: not_None_eq)

lemma validateJoints_loop_None:
  "validateJoints_loop drivers names busIDs js = None \<longleftrightarrow>
     (\<forall>j \<in> set js. joint_ok drivers j) \<and>
     distinct (map jName js) \<and> set names \<inter> jName ` set js = {} \<and>
     distinct (map bus_key js) \<and> set busIDs \<inter> bus_key ` set js = {}"
proof (induction js arbitrary: names busIDs)
  case Nil
  then show ?case by simp
next
  case (Cons j js)
  have "validateJoints_loop drivers names busIDs (j # js) = None \<longleftrightarrow>
     joint_ok drivers j \<and> jName j \<notin> set names \<and> bus_key j \<notin> set busIDs \<and>
     validateJoints_loop drivers (jName j # names) (bus_key j # busIDs) js = None"
  proof (cases "jType j \<in> set jointTypes")
    case True
    show ?thesis
      by (simp add: joint_ok_def ex_map_of validate_limits_None [OF True] True bus_key_def) blast
  next
    case False
    then show ?thesis by (simp add: joint_ok_def)
  qed
  then show ?case by (simp only: Cons.IH) (simp, blast)
qed

lemma byName_snoc: "byName (js @ [j]) = map_set (jName j) j (byName js)"
  by (simp add: byName_def)

lemma map_of_byName:
  "distinct (map jName js) \<Longrightarrow> map_of (byName js) n = Some j \<longleftrightarrow> j \<in> set js \<and> jName j = n"
proof (induction js rule: rev_induct)
  case Nil
  then show ?case by (simp add: byName_def)
next
  case (snoc i js)
  then show ?case by (auto simp: byName_snoc image_iff)
qed

lemma validate_wheel_None:
  assumes "distinct (map jName js)"
  shows "validate_wheel k js pos = None \<longleftrightarrow>
     (\<exists>j \<in> set js. map_of (kWheels k) pos = Some (jName j) \<and> jType j = ''wheel'')"
proof (cases "map_of (kWheels k) pos")
  case None
  then show ?thesis by (simp add: validate_wheel_def)
next
  case (Some name)
  show ?thesis
  proof (cases "map_of (byName js) name")
    case None
    then have "\<not> (j \<in> set js \<and> jName j = name)" for j
      using map_of_byName [OF assms, of name j] by simp
    with None Some show ?thesis by (auto simp: validate_wheel_def)
  next
    case j: (Some j)
    then have mem: "j \<in> set js" "jName j = name"
      using map_of_byName [OF assms, of name j] by simp_all
    have "i = j" if "i \<in> set js" "jName i = name" for i
      using that j map_of_byName [OF assms, of name i] by simp
    with mem have "(\<exists>i \<in> set js. name = jName i \<and> jType i = ''wheel'') \<longleftrightarrow> jType j = ''wheel''"
      by blast
    then show ?thesis by (simp add: validate_wheel_def j Some)
  qed
qed

lemma validateKinematics_fixed:
  "VehicleClass (dPlatform d) = ''fixed_base'' \<Longrightarrow>
     validateKinematics d = None \<longleftrightarrow> dKinematics d = None"
  by (simp add: validateKinematics_def)

lemma validateKinematics_rover:
  "VehicleClass (dPlatform d) = ''diff_drive_rover'' \<Longrightarrow>
     validateKinematics d = None \<longleftrightarrow> (\<exists>k. dKinematics d = Some k \<and>
       kModel k = ''diff_drive'' \<and>
       \<not> f_le (WheelRadiusM k) (Fin 0) \<and> \<not> f_le (TrackWidthM k) (Fin 0) \<and>
       (\<forall>pos \<in> set wheelPositions. validate_wheel k (dJoints d) pos = None) \<and>
       (\<forall>pn \<in> set (kWheels k). fst pn \<in> set wheelPositions))"
  by (cases "dKinematics d") (simp_all add: validateKinematics_def ball_Un)

lemma wheels_ok_iff:
  assumes "distinct (map jName (dJoints d))"
  shows "wheels_ok d k \<longleftrightarrow> kModel k = ''diff_drive'' \<and>
      \<not> f_le (WheelRadiusM k) (Fin 0) \<and> \<not> f_le (TrackWidthM k) (Fin 0) \<and>
      (\<forall>pos \<in> set wheelPositions. validate_wheel k (dJoints d) pos = None) \<and>
      (\<forall>pn \<in> set (kWheels k). fst pn \<in> set wheelPositions)"
proof -
  let ?P = "\<forall>pos \<in> set wheelPositions. validate_wheel k (dJoints d) pos = None"
  have P: "?P \<longleftrightarrow> (\<forall>pos \<in> set wheelPositions. \<exists>j \<in> set (dJoints d).
      map_of (kWheels k) pos = Some (jName j) \<and> jType j = ''wheel'')"
    by (simp only: validate_wheel_None [OF assms])
  have "set wheelPositions \<subseteq> fst ` set (kWheels k)" if ?P
  proof
    fix pos assume "pos \<in> set wheelPositions"
    with that obtain j :: joint where "map_of (kWheels k) pos = Some (jName j)"
      unfolding P by blast
    then show "pos \<in> fst ` set (kWheels k)" by (simp only: ex_map_of [symmetric] option.inject simp_thms)
  qed
  then have "fst ` set (kWheels k) = set wheelPositions \<longleftrightarrow>
      (\<forall>pn \<in> set (kWheels k). fst pn \<in> set wheelPositions)" if ?P
    using that by (simp only: set_eq_subset image_subset_iff simp_thms)
  then show ?thesis
    unfolding wheels_ok_def P [symmetric] by argo
qed

lemma validateKinematics_None:
  assumes "distinct (map jName (dJoints d))"
    and "VehicleClass (dPlatform d) \<in> set vehicleClasses"
  shows "validateKinematics d = None \<longleftrightarrow>
     VehicleClass (dPlatform d) = ''fixed_base'' \<and> dKinematics d = None \<or>
     VehicleClass (dPlatform d) = ''diff_drive_rover'' \<and>
       (\<exists>k. dKinematics d = Some k \<and> wheels_ok d k)"
proof -
  consider "VehicleClass (dPlatform d) = ''fixed_base''"
    | "VehicleClass (dPlatform d) = ''diff_drive_rover''"
    using assms(2) by (auto simp: vehicleClasses_def)
  then show ?thesis
    by cases (simp_all add: validateKinematics_fixed validateKinematics_rover
        wheels_ok_iff [OF assms(1)])
qed

lemma validate_driver_None:
  "validate_driver nd = None \<longleftrightarrow>
     drvKind (snd nd) = ''sim'' \<or> drvKind (snd nd) = ''sts3215'' \<and> drvPort (snd nd) \<noteq> ''''"
  by (auto simp: validate_driver_def driverKinds_def)

lemma validateJoints_None:
  "validateJoints d = None \<longleftrightarrow> (\<forall>j \<in> set (dJoints d). joint_ok (dDrivers d) j) \<and>
     distinct (map jName (dJoints d)) \<and> distinct (map bus_key (dJoints d))"
  by (simp add: validateJoints_def validateJoints_loop_None)


lemma BusIDFor_loop_Some:
  "distinct (map jName js) \<Longrightarrow> j \<in> set js \<Longrightarrow> BusIDFor_loop js (jName j) = Some (jBusID j)"
  by (induction js) (auto simp: image_iff)

lemma BusIDFor_loop_None: "BusIDFor_loop js n = None \<longleftrightarrow> n \<notin> jName ` set js"
  by (induction js) auto

lemma NameForBusID_loop_Some:
  "distinct (map bus_key js) \<Longrightarrow> j \<in> set js \<Longrightarrow>
     NameForBusID_loop js (jDriver j) (jBusID j) = Some (jName j)"
  by (induction js) (auto simp: bus_key_def image_iff)

lemma NameForBusID_loop_None:
  "NameForBusID_loop js drv i = None \<longleftrightarrow> (drv, i) \<notin> bus_key ` set js"
  by (induction js) (auto simp: bus_key_def)

lemma validate_distinct:
  assumes "validate d = None"
  shows "distinct (map jName (dJoints d))" "distinct (map bus_key (dJoints d))"
  using assms by (simp_all add: validate_def validateJoints_None)

text \<open>
  C31. On a validated descriptor the two lookups are inverse to each other: the bus id found for a
  joint's name leads back to that name on the joint's bus, and both lookups fail exactly on names
  and addresses no joint has.
\<close>

theorem bus_id_name_roundtrip:
  assumes "validate d = None"
  shows "(\<forall>j \<in> set (dJoints d). BusIDFor d (jName j) = Some (jBusID j) \<and>
            NameForBusID d (jDriver j) (jBusID j) = Some (jName j)) \<and>
         (BusIDFor d n = None \<longleftrightarrow> n \<notin> jName ` set (dJoints d)) \<and>
         (NameForBusID d drv i = None \<longleftrightarrow> (drv, i) \<notin> bus_key ` set (dJoints d))"
  using validate_distinct [OF assms]
  by (simp add: BusIDFor_def NameForBusID_def BusIDFor_loop_Some BusIDFor_loop_None
      NameForBusID_loop_Some NameForBusID_loop_None)

lemma validate_wheels_ok:
  assumes "validate d = None" "dKinematics d = Some k"
  shows "wheels_ok d k"
  using assms validateKinematics_None [OF validate_distinct(1) [OF assms(1)]]
  by (simp add: validate_def)

definition is_right :: "string \<Rightarrow> bool" where
  "is_right pos \<longleftrightarrow> pos = ''front_right'' \<or> pos = ''back_right''"

lemma wheel_command_Fin:
  assumes "distinct (map jName js)" "j \<in> set js" "r > 0"
  shows "wheel_command (byName js) (Fin vL) (Fin vR) (Fin r) (pos, jName j) =
     Fin ((if jInvert j then -1 else 1) * ((if is_right pos then vR else vL) / r))"
proof -
  have "map_of (byName js) (jName j) = Some j"
    using assms by (simp add: map_of_byName)
  with \<open>r > 0\<close> show ?thesis
    by (simp add: wheel_command_def is_right_def Let_def)
qed

text \<open>
  C33. Inverse kinematics: on a validated descriptor whose four wheel positions name different
  joints, the commanded twist is recovered from the wheel speeds. There is one speed for the left
  side and one for the right side whose mean is the forward velocity and whose difference over the
  track width is the yaw rate, and every wheel joint gets its side's speed, negated when the joint
  is mounted inverted.
\<close>

theorem wheel_speeds_recover_twist:
  assumes "validate d = None" "dKinematics d = Some k"
    "WheelRadiusM k = Fin r" "TrackWidthM k = Fin w" "distinct (map snd (kWheels k))"
  shows "\<exists>out sL sR. WheelSpeeds d (Fin vx) (Fin wz) = Inr out \<and>
     r * (sL + sR) / 2 = vx \<and> r * (sR - sL) / w = wz \<and>
     fst ` set out = snd ` set (kWheels k) \<and>
     (\<forall>pos \<in> set wheelPositions. \<exists>j \<in> set (dJoints d).
        map_of (kWheels k) pos = Some (jName j) \<and>
        map_of out (jName j) =
          Some (Fin ((if jInvert j then -1 else 1) * (if is_right pos then sR else sL))))"
proof -
  define vL vR where "vL = vx - wz * w / 2" and "vR = vx + wz * w / 2"
  define cmd where "cmd = wheel_command (byName (dJoints d)) (Fin vL) (Fin vR) (Fin r)"
  define out where "out = foldl (\<lambda>out pn. map_set (snd pn) (cmd pn) out) [] (kWheels k)"
  have ok: "wheels_ok d k" and dist: "distinct (map jName (dJoints d))"
    using assms validate_wheels_ok validate_distinct by blast+
  then have pos: "r > 0" "w > 0" and diff: "kModel k = ''diff_drive''"
    using assms by (simp_all add: wheels_ok_def)
  have "WheelSpeeds d (Fin vx) (Fin wz) = Inr out"
    using assms diff by (simp add: WheelSpeeds_def out_def cmd_def vL_def vR_def f_sub_def)
  moreover have "r * (vL / r + vR / r) / 2 = vx" "r * (vR / r - vL / r) / w = wz"
    using pos by (simp_all add: vL_def vR_def field_simps)
  moreover have "fst ` set out = snd ` set (kWheels k)"
    by (simp add: out_def keys_foldl_map_set)
  moreover have "\<exists>j \<in> set (dJoints d). map_of (kWheels k) p = Some (jName j) \<and>
        map_of out (jName j) =
          Some (Fin ((if jInvert j then -1 else 1) * (if is_right p then vR / r else vL / r)))"
    if p: "p \<in> set wheelPositions" for p
  proof -
    obtain j where j: "j \<in> set (dJoints d)" "map_of (kWheels k) p = Some (jName j)"
      using ok p by (auto simp: wheels_ok_def)
    then have "map_of out (snd (p, jName j)) = Some (cmd (p, jName j))"
      unfolding out_def using assms(5) map_of_SomeD [of "kWheels k" p "jName j"]
      by (intro map_of_foldl_map_set) auto
    with j dist pos show ?thesis
      by (auto simp: cmd_def wheel_command_Fin if_distrib)
  qed
  ultimately show ?thesis by blast
qed

text \<open>A four-wheel rover with one arm joint left to a module; \<open>r\<close> is the wheel radius and \<open>ws\<close> the
  wheel map.\<close>

definition demo_wheel :: "string \<Rightarrow> u32 \<Rightarrow> bool \<Rightarrow> joint" where
  "demo_wheel n i flipped = \<lparr>jName = n, jDriver = ''bus0'', jBusID = i, jType = ''wheel'',
     jOwnership = ''platform'', jInvert = flipped, jCommandInterfaces = [''velocity''],
     jStateInterfaces = [''velocity'', ''load''],
     jLimits = Some \<lparr>VelocityRadps = Some (Fin 6), PositionMinRad = None, PositionMaxRad = None\<rparr>\<rparr>"

definition demo_wheels :: "(string \<times> string) list" where
  "demo_wheels = [(''front_left'', ''fl''), (''front_right'', ''fr''), (''back_left'', ''bl''),
     (''back_right'', ''br'')]"

definition demo_rover :: "f64 \<Rightarrow> (string \<times> string) list \<Rightarrow> descriptor" where
  "demo_rover r ws = \<lparr>dSchema = 1,
     dPlatform = \<lparr>platID = ''rover'', platName = ''Rover'', VehicleClass = ''diff_drive_rover''\<rparr>,
     dDrivers = [(''bus0'', \<lparr>drvKind = ''sts3215'', drvPort = ''/dev/ttyAMA0'', drvBaud = 1000000\<rparr>)],
     dJoints = [demo_wheel ''fl'' 7 False, demo_wheel ''fr'' 8 True, demo_wheel ''bl'' 9 False,
       demo_wheel ''br'' 10 True,
       \<lparr>jName = ''arm'', jDriver = ''bus0'', jBusID = 1, jType = ''revolute'', jOwnership = ''module'',
         jInvert = False, jCommandInterfaces = [''position''], jStateInterfaces = [''position''],
         jLimits = None\<rparr>],
     dKinematics = Some \<lparr>kModel = ''diff_drive'', WheelRadiusM = r, TrackWidthM = Fin 2, kWheels = ws\<rparr>,
     dAllocation = None, dSensors = [], dModes = None, dObservations = None, dActions = None\<rparr>"

lemmas demo_defs = demo_rover_def demo_wheel_def demo_wheels_def

lemma demo_rover_valid: "validate (demo_rover (Fin 1) demo_wheels) = None"
  by (simp add: demo_defs validate_def validateJoints_def validateKinematics_def validate_driver_def
      validate_limits_def validate_wheel_def byName_def supportedSchema_def vehicleClasses_def
      driverKinds_def jointTypes_def ownerships_def cmdInterfaces_def stateInterfaces_def
      wheelPositions_def)

theorem bus_id_name_roundtrip_witness:
  "BusIDFor (demo_rover (Fin 1) demo_wheels) ''arm'' = Some 1 \<and>
   NameForBusID (demo_rover (Fin 1) demo_wheels) ''bus0'' 10 = Some ''br''"
  using bus_id_name_roundtrip [OF demo_rover_valid] by (auto simp: demo_defs)

theorem wheel_speeds_recover_twist_witness:
  "\<exists>out sL sR. WheelSpeeds (demo_rover (Fin 1) demo_wheels) (Fin 3) (Fin 1) = Inr out \<and>
     1 * (sL + sR) / 2 = (3::real) \<and> 1 * (sR - sL) / 2 = (1::real) \<and>
     map_of out ''br'' = Some (Fin (- sR))"
proof -
  let ?d = "demo_rover (Fin 1) demo_wheels"
  let ?k = "the (dKinematics ?d)"
  have "dKinematics ?d = Some ?k" "WheelRadiusM ?k = Fin 1" "TrackWidthM ?k = Fin 2"
    "distinct (map snd (kWheels ?k))" "map_of (kWheels ?k) ''back_right'' = Some ''br''"
    "''back_right'' \<in> set wheelPositions" "is_right ''back_right''"
    "\<forall>j \<in> set (dJoints ?d). jName j = ''br'' \<longrightarrow> jInvert j"
    by (simp_all add: demo_defs wheelPositions_def is_right_def)
  then show ?thesis
    using wheel_speeds_recover_twist [OF demo_rover_valid, of ?k 1 2 3 1] by fastforce
qed

text \<open>
  A wheel radius that is not a number passes validation: the guard rejects values at or below
  zero, and every comparison with a NaN is false, so all wheel commands of the accepted descriptor
  are NaN.
\<close>

theorem nan_wheel_radius_accepted:
  "validate (demo_rover NaN demo_wheels) = None \<and>
   WheelSpeeds (demo_rover NaN demo_wheels) (Fin vx) (Fin wz) =
     Inr [(''fl'', NaN), (''fr'', NaN), (''bl'', NaN), (''br'', NaN)]"
  by (simp add: demo_defs validate_def validateJoints_def validateKinematics_def validate_driver_def
      validate_limits_def validate_wheel_def byName_def supportedSchema_def vehicleClasses_def
      driverKinds_def jointTypes_def ownerships_def cmdInterfaces_def stateInterfaces_def
      wheelPositions_def WheelSpeeds_def wheel_command_def Let_def f_sub_def)

end
