(* ===== verification/Brokers.thy ===== *)
theory Brokers
  imports Descriptor "HOL-Library.Multiset"
begin

text \<open>
  The brokers that bridge a module's sandboxed subjects to the platform's:
  \<^verbatim>\<open>servo_broker.go\<close>, \<^verbatim>\<open>drive_broker.go\<close>, \<^verbatim>\<open>teleop_input_broker.go\<close> and \<^verbatim>\<open>uplink.go\<close> of
  \<^verbatim>\<open>agent/internal/modules\<close>. Each has a lifecycle (\<open>start\<close>, \<open>stop\<close>), which opens and closes
  subscriptions, and message handlers. Of the NATS client only the broker's own calls are recorded:
  \<open>conn\<close> holds the subscriptions that were opened and not closed again. Whether a subscribe call
  fails is an argument (\<open>fails\<close>, by call number and subject), as are the generated protobuf codecs. A nil receiver behaves as a broker without connection and without
  subscriptions. The lemmas show that no subscription leaks on any path, that the servo surface
  never relays a denied bus id, and that the mode gates forward only in their mode.
\<close>

section \<open>The connection\<close>

type_synonym mode = int

definition MODE_MANUAL :: mode where "MODE_MANUAL = 1"
definition MODE_AUTONOMOUS :: mode where "MODE_AUTONOMOUS = 3"

text \<open>What the callback of a subscription does, with the subject it publishes on; \<open>Handler\<close> names a
  handler of another component.\<close>

datatype callback =
    ServoCmd string | ServoRead string | ServoSync string
  | DriveCmd string | Mirror string | TrackMode
  | Gamepad string | Uplink string | Handler string

record conn =
  cnNext :: nat
  cnLive :: "(nat \<times> string \<times> callback) list"

definition nc_subscribe ::
  "(nat \<Rightarrow> string \<Rightarrow> string option) \<Rightarrow> string \<Rightarrow> callback \<Rightarrow> conn \<Rightarrow> (string + nat) \<times> conn" where
  "nc_subscribe fails subj h c =
     (case fails (cnNext c) subj of
        Some e \<Rightarrow> (Inl e, c \<lparr>cnNext := Suc (cnNext c)\<rparr>)
      | None \<Rightarrow> (Inr (cnNext c),
          c \<lparr>cnNext := Suc (cnNext c), cnLive := cnLive c @ [(cnNext c, subj, h)]\<rparr>))"

definition nc_unsubscribe :: "nat \<Rightarrow> conn \<Rightarrow> conn" where
  "nc_unsubscribe i c = c \<lparr>cnLive := filter (\<lambda>e. fst e \<noteq> i) (cnLive c)\<rparr>"

definition unsubscribe_all :: "nat list \<Rightarrow> conn \<Rightarrow> conn" where
  "unsubscribe_all ids c = foldl (\<lambda>c i. nc_unsubscribe i c) c ids"

datatype broker_error = ErrNilConn | ErrSubscribe string string

text \<open>\<^verbatim>\<open>b.subs[moduleID]\<close>: a missing key gives the empty slice.\<close>

definition subs_of :: "(string \<times> nat list) list \<Rightarrow> string \<Rightarrow> nat list" where
  "subs_of m k = (case map_of m k of None \<Rightarrow> [] | Some l \<Rightarrow> l)"

definition platform_subject :: "string \<Rightarrow> string \<Rightarrow> string" where
  "platform_subject rover leaf = ''waypoint.'' @ rover @ ''.'' @ leaf"

definition module_subject :: "string \<Rightarrow> string \<Rightarrow> string \<Rightarrow> string" where
  "module_subject rover moduleID leaf = ''waypoint.'' @ rover @ ''.module.'' @ moduleID @ ''.'' @ leaf"


section \<open>The servo broker\<close>

record servo_broker =
  sbConn :: bool
  sbRover :: string
  sbDeny :: "u32 set"
  sbSubs :: "(string \<times> nat list) list"

definition newServoBroker :: "bool \<Rightarrow> string \<Rightarrow> u32 set \<Rightarrow> servo_broker" where
  "newServoBroker nc roverID deny = \<lparr>sbConn = nc, sbRover = roverID, sbDeny = deny, sbSubs = []\<rparr>"

text \<open>The three subscriptions of \<^verbatim>\<open>start\<close> and \<^verbatim>\<open>startDev\<close>, which differ in the token that stands
  for the module id.\<close>

definition servo_open ::
  "(nat \<Rightarrow> string \<Rightarrow> string option) \<Rightarrow> string \<Rightarrow> string \<Rightarrow> conn \<Rightarrow> (broker_error + nat list) \<times> conn" where
  "servo_open fails rover tok c =
     (let cmdSrc = module_subject rover tok ''servo.cmd'';
          readSrc = module_subject rover tok ''servo.read'';
          syncSrc = module_subject rover tok ''servo.sync''
      in case nc_subscribe fails cmdSrc (ServoCmd (platform_subject rover ''cmd.servo'')) c of
        (Inl e, c1) \<Rightarrow> (Inl (ErrSubscribe cmdSrc e), c1)
      | (Inr cmdSub, c1) \<Rightarrow>
          (case nc_subscribe fails readSrc (ServoRead (platform_subject rover ''rpc.servo_read'')) c1 of
             (Inl e, c2) \<Rightarrow> (Inl (ErrSubscribe readSrc e), nc_unsubscribe cmdSub c2)
           | (Inr readSub, c2) \<Rightarrow>
               (case nc_subscribe fails syncSrc (ServoSync (platform_subject rover ''cmd.servo_sync'')) c2 of
                  (Inl e, c3) \<Rightarrow> (Inl (ErrSubscribe syncSrc e),
                     nc_unsubscribe readSub (nc_unsubscribe cmdSub c3))
                | (Inr syncSub, c3) \<Rightarrow> (Inr [cmdSub, readSub, syncSub], c3))))"

definition servo_start ::
  "(nat \<Rightarrow> string \<Rightarrow> string option) \<Rightarrow> string \<Rightarrow> servo_broker \<times> conn
    \<Rightarrow> broker_error option \<times> servo_broker \<times> conn" where
  "servo_start fails moduleID bc =
     (case bc of (b, c) \<Rightarrow>
        if \<not> sbConn b then (Some ErrNilConn, b, c)
        else case servo_open fails (sbRover b) moduleID c of
          (Inl e, c') \<Rightarrow> (Some e, b, c')
        | (Inr subs, c') \<Rightarrow>
            (None, b \<lparr>sbSubs := map_set moduleID subs (sbSubs b)\<rparr>,
             unsubscribe_all (subs_of (sbSubs b) moduleID) c'))"

definition servo_startDev ::
  "(nat \<Rightarrow> string \<Rightarrow> string option) \<Rightarrow> servo_broker \<times> conn \<Rightarrow> broker_error option \<times> servo_broker \<times> conn"
where
  "servo_startDev fails bc =
     (case bc of (b, c) \<Rightarrow>
        if \<not> sbConn b then (Some ErrNilConn, b, c)
        else case servo_open fails (sbRover b) ''*'' c of
          (Inl e, c') \<Rightarrow> (Some e, b, c')
        | (Inr subs, c') \<Rightarrow> (None, b \<lparr>sbSubs := map_set ''*dev'' subs (sbSubs b)\<rparr>, c'))"

definition servo_stop :: "string \<Rightarrow> servo_broker \<times> conn \<Rightarrow> servo_broker \<times> conn" where
  "servo_stop moduleID bc =
     (case bc of (b, c) \<Rightarrow>
        (b \<lparr>sbSubs := map_del moduleID (sbSubs b)\<rparr>, unsubscribe_all (subs_of (sbSubs b) moduleID) c))"

text \<open>The callbacks. A callback's effect is the list of messages it publishes. \<open>dec\<close> and \<open>enc\<close> stand
  for \<^verbatim>\<open>proto.Unmarshal\<close> and \<^verbatim>\<open>proto.Marshal\<close> on the generated types.\<close>

record servo_goal =
  gServoId :: u32
  gGoalPosition :: u32

definition servo_on_cmd ::
  "(bytes \<Rightarrow> u32 option) \<Rightarrow> u32 set \<Rightarrow> string \<Rightarrow> bytes \<Rightarrow> (string \<times> bytes) list" where
  "servo_on_cmd dec deny dst data =
     (case dec data of
        None \<Rightarrow> []
      | Some sid \<Rightarrow> if sid \<in> deny then [] else [(dst, data)])"

definition servo_on_sync ::
  "(bytes \<Rightarrow> servo_goal list option) \<Rightarrow> (servo_goal list \<Rightarrow> bytes option) \<Rightarrow> u32 set \<Rightarrow> string \<Rightarrow> bytes
    \<Rightarrow> (string \<times> bytes) list" where
  "servo_on_sync dec enc deny dst data =
     (case dec data of
        None \<Rightarrow> []
      | Some goals \<Rightarrow>
          let filtered = filter (\<lambda>g. gServoId g \<notin> deny) goals in
          if length filtered = 0 then []
          else case enc filtered of None \<Rightarrow> [] | Some out \<Rightarrow> [(dst, out)])"

text \<open>\<open>request\<close> stands for \<^verbatim>\<open>RequestWithContext\<close>; the answer goes to the reply subject.\<close>

definition servo_on_read ::
  "(string \<Rightarrow> bytes \<Rightarrow> bytes option) \<Rightarrow> string \<Rightarrow> string \<Rightarrow> bytes \<Rightarrow> (string \<times> bytes) list" where
  "servo_on_read request dst reply data =
     (if reply = '''' then []
      else case request dst data of None \<Rightarrow> [] | Some resp \<Rightarrow> [(reply, resp)])"


section \<open>The drive broker\<close>

record drive_broker =
  dbConn :: bool
  dbRover :: string
  dbSubs :: "(string \<times> nat list) list"
  dbModeSub :: "nat option"
  dbMode :: mode

definition newDriveBroker :: "bool \<Rightarrow> string \<Rightarrow> drive_broker" where
  "newDriveBroker nc roverID = \<lparr>dbConn = nc, dbRover = roverID, dbSubs = [], dbModeSub = None, dbMode = 0\<rparr>"

definition drive_ensureModeSub ::
  "(nat \<Rightarrow> string \<Rightarrow> string option) \<Rightarrow> drive_broker \<times> conn \<Rightarrow> broker_error option \<times> drive_broker \<times> conn"
where
  "drive_ensureModeSub fails bc =
     (case bc of (b, c) \<Rightarrow>
        if dbModeSub b \<noteq> None then (None, b, c)
        else
          let subject = platform_subject (dbRover b) ''event.mode'' in
          case nc_subscribe fails subject TrackMode c of
            (Inl e, c') \<Rightarrow> (Some (ErrSubscribe subject e), b, c')
          | (Inr sub, c') \<Rightarrow> (None, b \<lparr>dbModeSub := Some sub\<rparr>, c'))"

definition drive_startMirrors ::
  "(nat \<Rightarrow> string \<Rightarrow> string option) \<Rightarrow> string \<Rightarrow> nat list \<Rightarrow> drive_broker \<times> conn
    \<Rightarrow> broker_error option \<times> drive_broker \<times> conn" where
  "drive_startMirrors fails moduleID extra bc =
     (if \<not> dbConn (fst bc) then (Some ErrNilConn, bc)
      else case drive_ensureModeSub fails bc of
        (Some e, bc1) \<Rightarrow> (Some e, bc1)
      | (None, b, c1) \<Rightarrow>
          (let telemSrc = platform_subject (dbRover b) ''telemetry.drive'';
               modeSrc = platform_subject (dbRover b) ''event.mode''
           in case nc_subscribe fails telemSrc (Mirror (module_subject (dbRover b) moduleID ''drive.telemetry'')) c1 of
             (Inl e, c2) \<Rightarrow> (Some (ErrSubscribe telemSrc e), b, c2)
           | (Inr telemSub, c2) \<Rightarrow>
               (case nc_subscribe fails modeSrc (Mirror (module_subject (dbRover b) moduleID ''mode'')) c2 of
                  (Inl e, c3) \<Rightarrow> (Some (ErrSubscribe modeSrc e), b, nc_unsubscribe telemSub c3)
                | (Inr modeSub, c3) \<Rightarrow>
                    (None, b \<lparr>dbSubs := map_set moduleID (extra @ [telemSub, modeSub]) (dbSubs b)\<rparr>,
                     unsubscribe_all (subs_of (dbSubs b) moduleID) c3))))"

definition drive_start ::
  "(nat \<Rightarrow> string \<Rightarrow> string option) \<Rightarrow> string \<Rightarrow> drive_broker \<times> conn
    \<Rightarrow> broker_error option \<times> drive_broker \<times> conn" where
  "drive_start fails moduleID bc =
     (if \<not> dbConn (fst bc) then (Some ErrNilConn, bc)
      else case drive_ensureModeSub fails bc of
        (Some e, bc1) \<Rightarrow> (Some e, bc1)
      | (None, b, c1) \<Rightarrow>
          (let cmdSrc = module_subject (dbRover b) moduleID ''drive.cmd'' in
           case nc_subscribe fails cmdSrc (DriveCmd (platform_subject (dbRover b) ''cmd.drive'')) c1 of
             (Inl e, c2) \<Rightarrow> (Some (ErrSubscribe cmdSrc e), b, c2)
           | (Inr cmdSub, c2) \<Rightarrow>
               (case drive_startMirrors fails moduleID [cmdSub] (b, c2) of
                  (Some e, b', c3) \<Rightarrow> (Some e, b', nc_unsubscribe cmdSub c3)
                | (None, bc3) \<Rightarrow> (None, bc3))))"

definition drive_startDev ::
  "(nat \<Rightarrow> string \<Rightarrow> string option) \<Rightarrow> drive_broker \<times> conn \<Rightarrow> broker_error option \<times> drive_broker \<times> conn"
where
  "drive_startDev fails bc =
     (if \<not> dbConn (fst bc) then (Some ErrNilConn, bc)
      else case drive_ensureModeSub fails bc of
        (Some e, bc1) \<Rightarrow> (Some e, bc1)
      | (None, b, c1) \<Rightarrow>
          (let cmdSrc = module_subject (dbRover b) ''*'' ''drive.cmd'' in
           case nc_subscribe fails cmdSrc (DriveCmd (platform_subject (dbRover b) ''cmd.drive'')) c1 of
             (Inl e, c2) \<Rightarrow> (Some (ErrSubscribe cmdSrc e), b, c2)
           | (Inr cmdSub, c2) \<Rightarrow> (None, b \<lparr>dbSubs := map_set ''*dev'' [cmdSub] (dbSubs b)\<rparr>, c2)))"

definition drive_stop :: "string \<Rightarrow> drive_broker \<times> conn \<Rightarrow> drive_broker \<times> conn" where
  "drive_stop moduleID bc =
     (case bc of (b, c) \<Rightarrow>
        (b \<lparr>dbSubs := map_del moduleID (dbSubs b)\<rparr>, unsubscribe_all (subs_of (dbSubs b) moduleID) c))"

text \<open>\<open>decDrive\<close> tells whether the payload is a \<^verbatim>\<open>DriveCommand\<close>; \<open>decMode\<close> gives the target mode of a
  \<^verbatim>\<open>ModeEvent\<close>.\<close>

definition drive_relayCmd ::
  "(bytes \<Rightarrow> bool) \<Rightarrow> string \<Rightarrow> drive_broker \<Rightarrow> bytes \<Rightarrow> (string \<times> bytes) list" where
  "drive_relayCmd decDrive dst b data =
     (if \<not> decDrive data then []
      else if dbMode b \<noteq> MODE_AUTONOMOUS then []
      else [(dst, data)])"

definition drive_on_mode :: "(bytes \<Rightarrow> mode option) \<Rightarrow> drive_broker \<Rightarrow> bytes \<Rightarrow> drive_broker" where
  "drive_on_mode decMode b data =
     (case decMode data of None \<Rightarrow> b | Some to \<Rightarrow> b \<lparr>dbMode := to\<rparr>)"


section \<open>The teleop input broker and the uplink mirror\<close>

record teleop_broker =
  tbConn :: bool
  tbRover :: string
  tbSubs :: "(string \<times> nat) list"
  tbModeSub :: "nat option"
  tbMode :: mode

definition newTeleopInputBroker :: "bool \<Rightarrow> string \<Rightarrow> teleop_broker" where
  "newTeleopInputBroker nc roverID =
     \<lparr>tbConn = nc, tbRover = roverID, tbSubs = [], tbModeSub = None, tbMode = 0\<rparr>"

definition teleop_ensureModeSub ::
  "(nat \<Rightarrow> string \<Rightarrow> string option) \<Rightarrow> teleop_broker \<times> conn \<Rightarrow> broker_error option \<times> teleop_broker \<times> conn"
where
  "teleop_ensureModeSub fails bc =
     (case bc of (b, c) \<Rightarrow>
        if tbModeSub b \<noteq> None then (None, b, c)
        else
          let subject = platform_subject (tbRover b) ''event.mode'' in
          case nc_subscribe fails subject TrackMode c of
            (Inl e, c') \<Rightarrow> (Some (ErrSubscribe subject e), b, c')
          | (Inr sub, c') \<Rightarrow> (None, b \<lparr>tbModeSub := Some sub\<rparr>, c'))"

definition teleop_start ::
  "(nat \<Rightarrow> string \<Rightarrow> string option) \<Rightarrow> string \<Rightarrow> teleop_broker \<times> conn
    \<Rightarrow> broker_error option \<times> teleop_broker \<times> conn" where
  "teleop_start fails moduleID bc =
     (if \<not> tbConn (fst bc) then (Some ErrNilConn, bc)
      else case teleop_ensureModeSub fails bc of
        (Some e, bc1) \<Rightarrow> (Some e, bc1)
      | (None, b, c1) \<Rightarrow>
          (let src = platform_subject (tbRover b) ''cmd.gamepad'' in
           case nc_subscribe fails src (Gamepad (module_subject (tbRover b) moduleID ''input'')) c1 of
             (Inl e, c2) \<Rightarrow> (Some (ErrSubscribe src e), b, c2)
           | (Inr sub, c2) \<Rightarrow>
               (None, b \<lparr>tbSubs := map_set moduleID sub (tbSubs b)\<rparr>,
                (case map_of (tbSubs b) moduleID of None \<Rightarrow> c2 | Some old \<Rightarrow> nc_unsubscribe old c2))))"

definition teleop_stop :: "string \<Rightarrow> teleop_broker \<times> conn \<Rightarrow> teleop_broker \<times> conn" where
  "teleop_stop moduleID bc =
     (case bc of (b, c) \<Rightarrow>
        (case map_of (tbSubs b) moduleID of
           None \<Rightarrow> (b, c)
         | Some sub \<Rightarrow> (b \<lparr>tbSubs := map_del moduleID (tbSubs b)\<rparr>, nc_unsubscribe sub c)))"

definition teleop_on_gamepad ::
  "(bytes \<Rightarrow> bool) \<Rightarrow> string \<Rightarrow> teleop_broker \<Rightarrow> bytes \<Rightarrow> (string \<times> bytes) list" where
  "teleop_on_gamepad decPad dst b data =
     (if \<not> decPad data then []
      else if tbMode b \<noteq> MODE_MANUAL then []
      else [(dst, data)])"

definition teleop_on_mode :: "(bytes \<Rightarrow> mode option) \<Rightarrow> teleop_broker \<Rightarrow> bytes \<Rightarrow> teleop_broker" where
  "teleop_on_mode decMode b data =
     (case decMode data of None \<Rightarrow> b | Some to \<Rightarrow> b \<lparr>tbMode := to\<rparr>)"

record uplink_mirror =
  umConn :: bool
  umRover :: string
  umSubs :: "(string \<times> nat) list"

definition newUplinkMirror :: "bool \<Rightarrow> string \<Rightarrow> uplink_mirror" where
  "newUplinkMirror nc roverID = \<lparr>umConn = nc, umRover = roverID, umSubs = []\<rparr>"

definition uplink_start ::
  "(nat \<Rightarrow> string \<Rightarrow> string option) \<Rightarrow> string \<Rightarrow> uplink_mirror \<times> conn
    \<Rightarrow> broker_error option \<times> uplink_mirror \<times> conn" where
  "uplink_start fails moduleID bc =
     (case bc of (u, c) \<Rightarrow>
        if \<not> umConn u then (Some ErrNilConn, u, c)
        else
          let src = module_subject (umRover u) moduleID ''uplink'' in
          case nc_subscribe fails src (Uplink (platform_subject (umRover u) ''telemetry.uplink'')) c of
            (Inl e, c') \<Rightarrow> (Some (ErrSubscribe src e), u, c')
          | (Inr sub, c') \<Rightarrow>
              (None, u \<lparr>umSubs := map_set moduleID sub (umSubs u)\<rparr>,
               (case map_of (umSubs u) moduleID of None \<Rightarrow> c' | Some old \<Rightarrow> nc_unsubscribe old c')))"

definition uplink_stop :: "string \<Rightarrow> uplink_mirror \<times> conn \<Rightarrow> uplink_mirror \<times> conn" where
  "uplink_stop moduleID bc =
     (case bc of (u, c) \<Rightarrow>
        (case map_of (umSubs u) moduleID of
           None \<Rightarrow> (u, c)
         | Some sub \<Rightarrow> (u \<lparr>umSubs := map_del moduleID (umSubs u)\<rparr>, nc_unsubscribe sub c)))"

definition uplink_on_msg :: "(bytes \<Rightarrow> bool) \<Rightarrow> string \<Rightarrow> bytes \<Rightarrow> (string \<times> bytes) list" where
  "uplink_on_msg decUplink dst data = (if \<not> decUplink data then [] else [(dst, data)])"

section \<open>No subscription leaks\<close>

text \<open>Open subscriptions have distinct ids below the next one. \<open>open_ids\<close> is their multiset of ids.\<close>

definition conn_inv :: "conn \<Rightarrow> bool" where
  "conn_inv c \<longleftrightarrow> distinct (map fst (cnLive c)) \<and> (\<forall>e \<in> set (cnLive c). fst e < cnNext c)"

definition open_ids :: "conn \<Rightarrow> nat multiset" where
  "open_ids c = mset (map fst (cnLive c))"

lemma nc_subscribe_Inr:
  assumes "nc_subscribe fails s h c = (Inr i, c')" "conn_inv c"
  shows "conn_inv c'" "open_ids c' = open_ids c + {#i#}"
proof -
  have "i = cnNext c" "c' = c \<lparr>cnNext := Suc (cnNext c), cnLive := cnLive c @ [(cnNext c, s, h)]\<rparr>"
    using assms(1) by (auto simp: nc_subscribe_def split: option.splits)
  then show "conn_inv c'" "open_ids c' = open_ids c + {#i#}"
    using assms(2) by (simp_all add: conn_inv_def open_ids_def) (metis less_SucI less_irrefl imageE)
qed

lemma nc_subscribe_Inl:
  assumes "nc_subscribe fails s h c = (Inl e, c')" "conn_inv c"
  shows "conn_inv c'" "open_ids c' = open_ids c"
proof -
  have "c' = c \<lparr>cnNext := Suc (cnNext c)\<rparr>"
    using assms(1) by (auto simp: nc_subscribe_def split: option.splits)
  then show "conn_inv c'" "open_ids c' = open_ids c"
    using assms(2) by (simp_all add: conn_inv_def open_ids_def less_SucI)
qed

lemma mset_filter_fst:
  "distinct (map fst xs) \<Longrightarrow>
     mset (map fst (filter (\<lambda>e. fst e \<noteq> i) xs)) = mset (map fst xs) - {#i#}"
proof (induction xs)
  case (Cons x xs)
  have "i \<notin> fst ` set xs \<Longrightarrow> filter (\<lambda>e. fst e \<noteq> i) xs = xs" by (auto intro: filter_True)
  with Cons show ?case by (cases "fst x = i") (auto simp: add_mset_remove_trivial_eq)
qed simp

lemma nc_unsubscribe_open:
  assumes "conn_inv c"
  shows "conn_inv (nc_unsubscribe i c)" "open_ids (nc_unsubscribe i c) = open_ids c - {#i#}"
  using assms mset_filter_fst [of "cnLive c" i]
  by (auto simp: nc_unsubscribe_def conn_inv_def open_ids_def distinct_map_filter)

lemma unsubscribe_all_open:
  assumes "conn_inv c"
  shows "conn_inv (unsubscribe_all ids c)" "open_ids (unsubscribe_all ids c) = open_ids c - mset ids"
proof -
  have "conn_inv (unsubscribe_all ids c) \<and> open_ids (unsubscribe_all ids c) = open_ids c - mset ids"
    using assms
    by (induction ids arbitrary: c) (simp_all add: unsubscribe_all_def nc_unsubscribe_open)
  then show "conn_inv (unsubscribe_all ids c)" "open_ids (unsubscribe_all ids c) = open_ids c - mset ids"
    by simp_all
qed

lemmas conn_simps = nc_subscribe_Inr nc_subscribe_Inl nc_unsubscribe_open unsubscribe_all_open

text \<open>Ids held in the subscription table of a broker.\<close>

definition held :: "(string \<times> nat list) list \<Rightarrow> nat multiset" where
  "held m = mset (concat (map snd m))"

lemma held_map_set: "held (map_set k v m) + mset (subs_of m k) = held m + mset v"
  by (induction m) (auto simp: held_def subs_of_def)

lemma subs_of_Cons: "subs_of ((k', l) # m) k = (if k = k' then l else subs_of m k)"
  by (simp add: subs_of_def)

lemma held_map_del: "wf_map m \<Longrightarrow> held (map_del k m) + mset (subs_of m k) = held m"
proof (induction m)
  case Nil
  then show ?case by (simp add: held_def subs_of_def map_del_def)
next
  case (Cons e m)
  have "map_del k m = m" "subs_of m k = []" if "k \<notin> fst ` set m" for k
    using that map_of_eq_None_iff [of m k]
    by (force simp: map_del_def subs_of_def intro!: filter_True)+
  with Cons show ?case
    by (cases e) (auto simp: held_def subs_of_Cons map_del_def wf_map_def)
qed

lemma held_set_diff:
  assumes "open_ids c = F + held m + mset v"
  shows "open_ids c - mset (subs_of m k) = F + held (map_set k v m)"
  using held_map_set [of k v m] assms
  by (metis add_diff_cancel_right' union_assoc)

lemma held_del_diff:
  assumes "open_ids c = F + held m" "wf_map m"
  shows "open_ids c - mset (subs_of m k) = F + held (map_del k m)"
  using held_map_del [of m k] assms
  by (metis add_diff_cancel_right' union_assoc)

text \<open>
  What a broker promises about the subscriptions it opens. \<open>owned\<close> are the ids the broker holds, \<open>good\<close> is
  its own well-formedness and \<open>step\<close> performs one lifecycle operation. Every operation, whether it
  succeeds or fails half way, keeps the open subscriptions equal to the broker's own plus those of
  everybody else on the connection.
\<close>

locale subscription_owner =
  fixes owned :: "'b \<Rightarrow> nat multiset"
    and good :: "'b \<Rightarrow> bool"
    and step :: "'o \<Rightarrow> 'b \<times> conn \<Rightarrow> 'b \<times> conn"
  assumes step_keeps:
    "good b \<Longrightarrow> conn_inv c \<Longrightarrow> open_ids c = F + owned b \<Longrightarrow> step op (b, c) = (b', c') \<Longrightarrow>
       good b' \<and> conn_inv c' \<and> open_ids c' = F + owned b'"
begin

lemma run_keeps:
  "good b \<Longrightarrow> conn_inv c \<Longrightarrow> open_ids c = F + owned b \<Longrightarrow>
     foldl (\<lambda>bc op. step op bc) (b, c) ops = (b', c') \<Longrightarrow>
     good b' \<and> conn_inv c' \<and> open_ids c' = F + owned b'"
proof (induction ops arbitrary: b c)
  case (Cons op ops)
  obtain b1 c1 where "step op (b, c) = (b1, c1)" by fastforce
  with Cons step_keeps [of b c F op b1 c1] show ?case by auto
qed auto

end

text \<open>Lifecycle operations: attaching and detaching a module.\<close>

datatype life_op = Start string | Stop string

fun servo_step ::
  "(nat \<Rightarrow> string \<Rightarrow> string option) \<Rightarrow> life_op \<Rightarrow> servo_broker \<times> conn \<Rightarrow> servo_broker \<times> conn" where
  "servo_step fails (Start i) bc = snd (servo_start fails i bc)"
| "servo_step fails (Stop i) bc = servo_stop i bc"

fun drive_step ::
  "(nat \<Rightarrow> string \<Rightarrow> string option) \<Rightarrow> life_op \<Rightarrow> drive_broker \<times> conn \<Rightarrow> drive_broker \<times> conn" where
  "drive_step fails (Start i) bc = snd (drive_start fails i bc)"
| "drive_step fails (Stop i) bc = drive_stop i bc"

lemma servo_open_cases:
  assumes "servo_open fails r tok c = (res, c')" "conn_inv c"
  shows "conn_inv c' \<and>
    (case res of Inl e \<Rightarrow> open_ids c' = open_ids c | Inr ids \<Rightarrow> open_ids c' = open_ids c + mset ids)"
  using assms
  by (auto simp: servo_open_def Let_def conn_simps split: prod.splits sum.splits)

lemma servo_start_keeps:
  assumes "wf_map (sbSubs b)" "conn_inv c" "open_ids c = F + held (sbSubs b)"
    "servo_start fails i (b, c) = (r, b', c')"
  shows "wf_map (sbSubs b') \<and> conn_inv c' \<and> open_ids c' = F + held (sbSubs b')"
proof (cases "sbConn b")
  case True
  obtain res c1 where open1: "servo_open fails (sbRover b) i c = (res, c1)" by fastforce
  note o = servo_open_cases [OF open1 assms(2)]
  show ?thesis
  proof (cases res)
    case (Inl e)
    with True open1 o assms show ?thesis by (auto simp: servo_start_def)
  next
    case (Inr ids)
    with o assms(3) have "open_ids c1 = F + held (sbSubs b) + mset ids" by simp
    from held_set_diff [OF this, of i] True open1 o Inr assms(1,4) show ?thesis
      by (auto simp: servo_start_def unsubscribe_all_open)
  qed
qed (use assms in \<open>auto simp: servo_start_def\<close>)

lemma servo_stop_keeps:
  assumes "wf_map (sbSubs b)" "conn_inv c" "open_ids c = F + held (sbSubs b)"
    "servo_stop i (b, c) = (b', c')"
  shows "wf_map (sbSubs b') \<and> conn_inv c' \<and> open_ids c' = F + held (sbSubs b')"
  using assms held_del_diff [OF assms(3,1), of i]
  by (auto simp: servo_stop_def unsubscribe_all_open)

interpretation servo_owner: subscription_owner "\<lambda>b. held (sbSubs b)" "\<lambda>b. wf_map (sbSubs b)" "servo_step fails"
proof
  fix b c F op b' c'
  assume *: "wf_map (sbSubs b)" "conn_inv c" "open_ids c = F + held (sbSubs b)"
    "servo_step fails op (b, c) = (b', c')"
  then show "wf_map (sbSubs b') \<and> conn_inv c' \<and> open_ids c' = F + held (sbSubs b')"
  proof (cases op)
    case (Start i)
    with *(4) have "servo_start fails i (b, c) = (fst (servo_start fails i (b, c)), b', c')"
      by (simp add: prod_eq_iff)
    with *(1-3) show ?thesis by (rule servo_start_keeps)
  next
    case (Stop i)
    with * show ?thesis by (intro servo_stop_keeps) auto
  qed
qed

text \<open>The drive broker also owns the one subscription that tracks the mode.\<close>

definition drive_owned :: "drive_broker \<Rightarrow> nat multiset" where
  "drive_owned b = held (dbSubs b) + (case dbModeSub b of None \<Rightarrow> {#} | Some i \<Rightarrow> {#i#})"

lemma drive_ensureModeSub_keeps:
  assumes "conn_inv c" "open_ids c = F + drive_owned b" "drive_ensureModeSub fails (b, c) = (r, b', c')"
  shows "conn_inv c' \<and> open_ids c' = F + drive_owned b' \<and> dbSubs b' = dbSubs b"
  using assms
  by (auto simp: drive_ensureModeSub_def drive_owned_def Let_def conn_simps
      split: prod.splits sum.splits if_splits option.splits)

lemma drive_startMirrors_keeps:
  assumes "wf_map (dbSubs b)" "conn_inv c" "open_ids c = F + drive_owned b + mset extra"
    "drive_startMirrors fails i extra (b, c) = (r, b', c')"
  shows "wf_map (dbSubs b') \<and> conn_inv c' \<and>
    open_ids c' = F + drive_owned b' + (if r = None then {#} else mset extra)"
proof -
  let ?F = "F + mset extra"
  have pre: "open_ids c = ?F + drive_owned b" using assms(3) by (simp add: ac_simps)
  obtain r1 b1 c1 where e: "drive_ensureModeSub fails (b, c) = (r1, b1, c1)" by (metis prod_cases3)
  note k = drive_ensureModeSub_keeps [OF assms(2) pre e]
  consider (nil) "\<not> dbConn b" | (err) err where "dbConn b" "r1 = Some err" | (ok) "dbConn b" "r1 = None"
    by (cases r1) auto
  then show ?thesis
  proof cases
    case nil
    with assms show ?thesis by (auto simp: drive_startMirrors_def)
  next
    case err
    with assms e k show ?thesis by (auto simp: drive_startMirrors_def ac_simps)
  next
    case ok
    define G where "G = F + (case dbModeSub b1 of None \<Rightarrow> {#} | Some i \<Rightarrow> {#i#})"
    let ?tel = "platform_subject (dbRover b1) ''telemetry.drive''"
    let ?md = "platform_subject (dbRover b1) ''event.mode''"
    obtain s2 c2 where s2: "nc_subscribe fails ?tel (Mirror (module_subject (dbRover b1) i ''drive.telemetry'')) c1 = (s2, c2)"
      by fastforce
    show ?thesis
    proof (cases s2)
      case (Inl err)
      with s2 ok assms e k show ?thesis
        by (auto simp: drive_startMirrors_def conn_simps ac_simps)
    next
      case t: (Inr tsub)
      obtain s3 c3 where s3: "nc_subscribe fails ?md (Mirror (module_subject (dbRover b1) i ''mode'')) c2 = (s3, c3)"
        by fastforce
      have c2: "conn_inv c2" "open_ids c2 = ?F + drive_owned b1 + {#tsub#}"
        using nc_subscribe_Inr [OF s2 [unfolded t]] k by auto
      show ?thesis
      proof (cases s3)
        case (Inl err)
        with s2 s3 t ok assms e k c2 show ?thesis
          by (auto simp: drive_startMirrors_def conn_simps ac_simps)
      next
        case m: (Inr msub)
        have c3: "conn_inv c3" "open_ids c3 = G + held (dbSubs b1) + mset (extra @ [tsub, msub])"
          using nc_subscribe_Inr [OF s3 [unfolded m] c2(1)] c2
          by (auto simp: G_def drive_owned_def ac_simps)
        from held_set_diff [OF c3(2), of i] c3 s2 s3 t m ok assms e k show ?thesis
          by (auto simp: drive_startMirrors_def unsubscribe_all_open drive_owned_def G_def ac_simps)
      qed
    qed
  qed
qed

lemma drive_start_keeps:
  assumes "wf_map (dbSubs b)" "conn_inv c" "open_ids c = F + drive_owned b"
    "drive_start fails i (b, c) = (r, b', c')"
  shows "wf_map (dbSubs b') \<and> conn_inv c' \<and> open_ids c' = F + drive_owned b'"
proof -
  obtain r1 b1 c1 where e: "drive_ensureModeSub fails (b, c) = (r1, b1, c1)" by (metis prod_cases3)
  note k = drive_ensureModeSub_keeps [OF assms(2,3) e]
  let ?src = "module_subject (dbRover b1) i ''drive.cmd''"
  obtain s2 c2 where s2: "nc_subscribe fails ?src (DriveCmd (platform_subject (dbRover b1) ''cmd.drive'')) c1 = (s2, c2)"
    by fastforce
  consider (nil) "\<not> dbConn b" | (err) err where "dbConn b" "r1 = Some err"
    | (sub) err where "dbConn b" "r1 = None" "s2 = Inl err" | (ok) cmd where "dbConn b" "r1 = None" "s2 = Inr cmd"
    by (cases r1; cases s2) auto
  then show ?thesis
  proof cases
    case ok
    obtain r3 b3 c3 where m: "drive_startMirrors fails i [cmd] (b1, c2) = (r3, b3, c3)" by (metis prod_cases3)
    have "conn_inv c2" "open_ids c2 = F + drive_owned b1 + mset [cmd]" "wf_map (dbSubs b1)"
      using nc_subscribe_Inr [OF s2 [unfolded ok]] k assms(1) by auto
    from drive_startMirrors_keeps [OF this(3,1,2) m] ok s2 e m assms(4) show ?thesis
      by (cases r3) (auto simp: drive_start_def nc_unsubscribe_open)
  qed (use assms e k s2 in \<open>auto simp: drive_start_def conn_simps\<close>)
qed

lemma drive_stop_keeps:
  assumes "wf_map (dbSubs b)" "conn_inv c" "open_ids c = F + drive_owned b"
    "drive_stop i (b, c) = (b', c')"
  shows "wf_map (dbSubs b') \<and> conn_inv c' \<and> open_ids c' = F + drive_owned b'"
proof -
  let ?G = "F + (case dbModeSub b of None \<Rightarrow> {#} | Some i \<Rightarrow> {#i#})"
  have "open_ids c = ?G + held (dbSubs b)" using assms(3) by (simp add: drive_owned_def ac_simps)
  from held_del_diff [OF this assms(1), of i] assms show ?thesis
    by (auto simp: drive_stop_def unsubscribe_all_open drive_owned_def ac_simps)
qed

interpretation drive_owner: subscription_owner drive_owned "\<lambda>b. wf_map (dbSubs b)" "drive_step fails"
proof
  fix b c F op b' c'
  assume *: "wf_map (dbSubs b)" "conn_inv c" "open_ids c = F + drive_owned b"
    "drive_step fails op (b, c) = (b', c')"
  then show "wf_map (dbSubs b') \<and> conn_inv c' \<and> open_ids c' = F + drive_owned b'"
  proof (cases op)
    case (Start i)
    with *(4) have "drive_start fails i (b, c) = (fst (drive_start fails i (b, c)), b', c')"
      by (simp add: prod_eq_iff)
    with *(1-3) show ?thesis by (rule drive_start_keeps)
  next
    case (Stop i)
    with * show ?thesis by (intro drive_stop_keeps) auto
  qed
qed

text \<open>The teleop broker and the uplink mirror hold one subscription per module.\<close>

definition held1 :: "(string \<times> nat) list \<Rightarrow> nat multiset" where
  "held1 m = mset (map snd m)"

lemma held1_map_set:
  "held1 (map_set k v m) + (case map_of m k of None \<Rightarrow> {#} | Some i \<Rightarrow> {#i#}) = held1 m + {#v#}"
  by (induction m) (auto simp: held1_def)

lemma held1_map_del:
  "wf_map m \<Longrightarrow> map_of m k = Some i \<Longrightarrow> held1 (map_del k m) + {#i#} = held1 m"
proof (induction m)
  case (Cons e m)
  have "map_del k m = m" if "k \<notin> fst ` set m"
    using that by (force simp: map_del_def intro!: filter_True)
  with Cons show ?case
    by (cases e) (auto simp: held1_def map_del_def wf_map_def simp del: mset_map mset_filter split: if_splits)
qed simp

definition close_old :: "nat option \<Rightarrow> conn \<Rightarrow> conn" where
  "close_old old c = (case old of None \<Rightarrow> c | Some i \<Rightarrow> nc_unsubscribe i c)"

lemma close_old_open:
  "conn_inv c \<Longrightarrow> conn_inv (close_old old c) \<and>
     open_ids (close_old old c) = open_ids c - (case old of None \<Rightarrow> {#} | Some i \<Rightarrow> {#i#})"
  by (cases old) (simp_all add: close_old_def nc_unsubscribe_open)

lemma held1_set_diff:
  assumes "open_ids c = F + held1 m + {#v#}"
  shows "open_ids c - (case map_of m k of None \<Rightarrow> {#} | Some i \<Rightarrow> {#i#}) = F + held1 (map_set k v m)"
  using held1_map_set [of k v m] assms by (metis add_diff_cancel_right' union_assoc)

fun teleop_step ::
  "(nat \<Rightarrow> string \<Rightarrow> string option) \<Rightarrow> life_op \<Rightarrow> teleop_broker \<times> conn \<Rightarrow> teleop_broker \<times> conn" where
  "teleop_step fails (Start i) bc = snd (teleop_start fails i bc)"
| "teleop_step fails (Stop i) bc = teleop_stop i bc"

fun uplink_step ::
  "(nat \<Rightarrow> string \<Rightarrow> string option) \<Rightarrow> life_op \<Rightarrow> uplink_mirror \<times> conn \<Rightarrow> uplink_mirror \<times> conn" where
  "uplink_step fails (Start i) bc = snd (uplink_start fails i bc)"
| "uplink_step fails (Stop i) bc = uplink_stop i bc"

lemma uplink_start_keeps:
  assumes "wf_map (umSubs b)" "conn_inv c" "open_ids c = F + held1 (umSubs b)"
    "uplink_start fails i (b, c) = (r, b', c')"
  shows "wf_map (umSubs b') \<and> conn_inv c' \<and> open_ids c' = F + held1 (umSubs b')"
proof (cases "umConn b")
  case True
  obtain s c1 where s: "nc_subscribe fails (module_subject (umRover b) i ''uplink'')
      (Uplink (platform_subject (umRover b) ''telemetry.uplink'')) c = (s, c1)" by fastforce
  show ?thesis
  proof (cases s)
    case (Inl e)
    with s True assms show ?thesis by (auto simp: uplink_start_def conn_simps)
  next
    case (Inr sub)
    have *: "conn_inv c1" "open_ids c1 = F + held1 (umSubs b) + {#sub#}"
      using nc_subscribe_Inr [OF s [unfolded Inr]] assms by auto
    have "(r, b', c') = (None, b \<lparr>umSubs := map_set i sub (umSubs b)\<rparr>, close_old (map_of (umSubs b) i) c1)"
      using s Inr True assms(4) by (simp add: uplink_start_def close_old_def)
    with held1_set_diff [OF *(2), of i] close_old_open [OF *(1)] assms(1) show ?thesis by simp
  qed
qed (use assms in \<open>auto simp: uplink_start_def\<close>)

lemma uplink_stop_keeps:
  assumes "wf_map (umSubs b)" "conn_inv c" "open_ids c = F + held1 (umSubs b)"
    "uplink_stop i (b, c) = (b', c')"
  shows "wf_map (umSubs b') \<and> conn_inv c' \<and> open_ids c' = F + held1 (umSubs b')"
proof (cases "map_of (umSubs b) i")
  case (Some sub)
  from held1_map_del [OF assms(1) Some] assms(3)
  have "open_ids c - {#sub#} = F + held1 (map_del i (umSubs b))"
    by (metis add_diff_cancel_right' union_assoc)
  with Some assms show ?thesis by (auto simp: uplink_stop_def nc_unsubscribe_open)
qed (use assms in \<open>auto simp: uplink_stop_def\<close>)

interpretation uplink_owner: subscription_owner "\<lambda>b. held1 (umSubs b)" "\<lambda>b. wf_map (umSubs b)" "uplink_step fails"
proof
  fix b c F op b' c'
  assume *: "wf_map (umSubs b)" "conn_inv c" "open_ids c = F + held1 (umSubs b)"
    "uplink_step fails op (b, c) = (b', c')"
  then show "wf_map (umSubs b') \<and> conn_inv c' \<and> open_ids c' = F + held1 (umSubs b')"
  proof (cases op)
    case (Start i)
    with *(4) have "uplink_start fails i (b, c) = (fst (uplink_start fails i (b, c)), b', c')"
      by (simp add: prod_eq_iff)
    with *(1-3) show ?thesis by (rule uplink_start_keeps)
  next
    case (Stop i)
    with * show ?thesis by (intro uplink_stop_keeps) auto
  qed
qed

definition teleop_owned :: "teleop_broker \<Rightarrow> nat multiset" where
  "teleop_owned b = held1 (tbSubs b) + (case tbModeSub b of None \<Rightarrow> {#} | Some i \<Rightarrow> {#i#})"

lemma teleop_ensureModeSub_keeps:
  assumes "conn_inv c" "open_ids c = F + teleop_owned b" "teleop_ensureModeSub fails (b, c) = (r, b', c')"
  shows "conn_inv c' \<and> open_ids c' = F + teleop_owned b' \<and> tbSubs b' = tbSubs b"
  using assms
  by (auto simp: teleop_ensureModeSub_def teleop_owned_def Let_def conn_simps
      split: prod.splits sum.splits if_splits option.splits)

lemma teleop_start_keeps:
  assumes "wf_map (tbSubs b)" "conn_inv c" "open_ids c = F + teleop_owned b"
    "teleop_start fails i (b, c) = (r, b', c')"
  shows "wf_map (tbSubs b') \<and> conn_inv c' \<and> open_ids c' = F + teleop_owned b'"
proof -
  obtain r1 b1 c1 where e: "teleop_ensureModeSub fails (b, c) = (r1, b1, c1)" by (metis prod_cases3)
  note k = teleop_ensureModeSub_keeps [OF assms(2,3) e]
  obtain s c2 where s: "nc_subscribe fails (platform_subject (tbRover b1) ''cmd.gamepad'')
      (Gamepad (module_subject (tbRover b1) i ''input'')) c1 = (s, c2)" by fastforce
  consider (nil) "\<not> tbConn b" | (err) err where "tbConn b" "r1 = Some err"
    | (sub) err where "tbConn b" "r1 = None" "s = Inl err" | (ok) sub where "tbConn b" "r1 = None" "s = Inr sub"
    by (cases r1; cases s) auto
  then show ?thesis
  proof cases
    case (ok sub)
    let ?G = "F + (case tbModeSub b1 of None \<Rightarrow> {#} | Some i \<Rightarrow> {#i#})"
    have *: "conn_inv c2" "open_ids c2 = ?G + held1 (tbSubs b1) + {#sub#}"
      using nc_subscribe_Inr [OF s [unfolded ok]] k by (auto simp: teleop_owned_def)
    have "(r, b', c') = (None, b1 \<lparr>tbSubs := map_set i sub (tbSubs b1)\<rparr>, close_old (map_of (tbSubs b1) i) c2)"
      using s ok e assms(4) by (simp add: teleop_start_def close_old_def)
    with held1_set_diff [OF *(2), of i] close_old_open [OF *(1)] assms(1) k show ?thesis
      by (simp add: teleop_owned_def)
  qed (use assms e k s in \<open>auto simp: teleop_start_def conn_simps\<close>)
qed

lemma teleop_stop_keeps:
  assumes "wf_map (tbSubs b)" "conn_inv c" "open_ids c = F + teleop_owned b"
    "teleop_stop i (b, c) = (b', c')"
  shows "wf_map (tbSubs b') \<and> conn_inv c' \<and> open_ids c' = F + teleop_owned b'"
proof (cases "map_of (tbSubs b) i")
  case (Some sub)
  let ?G = "F + (case tbModeSub b of None \<Rightarrow> {#} | Some i \<Rightarrow> {#i#})"
  have "open_ids c = ?G + held1 (map_del i (tbSubs b)) + {#sub#}"
    using assms(3) unfolding teleop_owned_def held1_map_del [OF assms(1) Some, symmetric]
    by (simp add: ac_simps)
  then have "open_ids c - {#sub#} = ?G + held1 (map_del i (tbSubs b))" by simp
  with Some assms show ?thesis by (auto simp: teleop_stop_def nc_unsubscribe_open teleop_owned_def)
qed (use assms in \<open>auto simp: teleop_stop_def\<close>)

interpretation teleop_owner: subscription_owner teleop_owned "\<lambda>b. wf_map (tbSubs b)" "teleop_step fails"
proof
  fix b c F op b' c'
  assume *: "wf_map (tbSubs b)" "conn_inv c" "open_ids c = F + teleop_owned b"
    "teleop_step fails op (b, c) = (b', c')"
  then show "wf_map (tbSubs b') \<and> conn_inv c' \<and> open_ids c' = F + teleop_owned b'"
  proof (cases op)
    case (Start i)
    with *(4) have "teleop_start fails i (b, c) = (fst (teleop_start fails i (b, c)), b', c')"
      by (simp add: prod_eq_iff)
    with *(1-3) show ?thesis by (rule teleop_start_keeps)
  next
    case (Stop i)
    with * show ?thesis by (intro teleop_stop_keeps) auto
  qed
qed

definition conn0 :: conn where
  "conn0 = \<lparr>cnNext = 0, cnLive = []\<rparr>"

lemma conn0_inv: "conn_inv conn0" "open_ids conn0 = {#}"
  by (simp_all add: conn0_def conn_inv_def open_ids_def)

text \<open>
  C14. No broker leaks a subscription: after any sequence of module attachments and detachments, with
  any of the subscribe calls failing, the subscriptions open on the connection are exactly those in
  the broker's table, and for the two mode-gated brokers the one that tracks the mode.
\<close>

theorem brokers_leak_no_subscription:
  "(case foldl (\<lambda>bc op. servo_step fails op bc) (newServoBroker nc r deny, conn0) ops of
      (b, c) \<Rightarrow> open_ids c = held (sbSubs b)) \<and>
   (case foldl (\<lambda>bc op. drive_step fails op bc) (newDriveBroker nc r, conn0) ops of
      (b, c) \<Rightarrow> open_ids c = held (dbSubs b) + (case dbModeSub b of None \<Rightarrow> {#} | Some i \<Rightarrow> {#i#})) \<and>
   (case foldl (\<lambda>bc op. teleop_step fails op bc) (newTeleopInputBroker nc r, conn0) ops of
      (b, c) \<Rightarrow> open_ids c = held1 (tbSubs b) + (case tbModeSub b of None \<Rightarrow> {#} | Some i \<Rightarrow> {#i#})) \<and>
   (case foldl (\<lambda>bc op. uplink_step fails op bc) (newUplinkMirror nc r, conn0) ops of
      (b, c) \<Rightarrow> open_ids c = held1 (umSubs b))"
proof (intro conjI, goal_cases)
  case 1
  then show ?case
    using servo_owner.run_keeps [of "newServoBroker nc r deny" conn0 "{#}" fails ops]
    by (auto simp: newServoBroker_def wf_map_def held_def conn0_inv split: prod.splits)
next
  case 2
  then show ?case
    using drive_owner.run_keeps [of "newDriveBroker nc r" conn0 "{#}" fails ops]
    by (auto simp: newDriveBroker_def wf_map_def held_def drive_owned_def conn0_inv split: prod.splits)
next
  case 3
  then show ?case
    using teleop_owner.run_keeps [of "newTeleopInputBroker nc r" conn0 "{#}" fails ops]
    by (auto simp: newTeleopInputBroker_def wf_map_def held1_def teleop_owned_def conn0_inv split: prod.splits)
next
  case 4
  then show ?case
    using uplink_owner.run_keeps [of "newUplinkMirror nc r" conn0 "{#}" fails ops]
    by (auto simp: newUplinkMirror_def wf_map_def held1_def conn0_inv split: prod.splits)
qed

section \<open>The servo guard\<close>

lemma loadDenyIDs_first:
  assumes "\<forall>q \<in> set pre. q = '''' \<or> (\<exists>e. load q = Inl e)" "p \<noteq> ''''" "load p = Inr d"
  shows "loadDenyIDs load (pre @ p # post) = set (PlatformOwnedBusIDs d)"
  using assms by (induction pre) auto

lemma platform_owned_mem:
  "i \<in> set (PlatformOwnedBusIDs d) \<longleftrightarrow> (\<exists>j \<in> set (dJoints d). jOwnership j = ''platform'' \<and> jBusID j = i)"
  by (auto simp: PlatformOwnedBusIDs_def)

text \<open>
  C4. A module can never command a joint the platform owns: with the deny-list taken from the first
  readable descriptor, a servo command for the bus id of a platform-owned joint is dropped, and a
  relayed sync write decodes to exactly the goals of the request that address other ids, in order.
\<close>

theorem servo_surface_guards_platform_joints:
  assumes "\<forall>q \<in> set pre. q = '''' \<or> (\<exists>e. Load readFile decode q = Inl e)"
    and "p \<noteq> ''''" "Load readFile decode p = Inr d"
    and "j \<in> set (dJoints d)" "jOwnership j = ''platform''"
    and "\<forall>gs out. enc gs = Some out \<longrightarrow> decS out = Some gs"
    and "deny = loadDenyIDs (Load readFile decode) (pre @ p # post)"
  shows "(dec cmd = Some (jBusID j) \<longrightarrow> servo_on_cmd dec deny dst cmd = []) \<and>
    (\<forall>(s, out) \<in> set (servo_on_sync decS enc deny dst req).
       \<exists>gs. decS req = Some gs \<and> s = dst \<and>
         decS out = Some (filter (\<lambda>g. gServoId g \<notin> set (PlatformOwnedBusIDs d)) gs) \<and>
         jBusID j \<in> set (PlatformOwnedBusIDs d))"
proof -
  have "deny = set (PlatformOwnedBusIDs d)"
    using loadDenyIDs_first [OF assms(1-3)] assms(7) by simp
  moreover have "jBusID j \<in> set (PlatformOwnedBusIDs d)"
    using assms(4,5) platform_owned_mem by blast
  moreover have "\<exists>gs. decS req = Some gs \<and> s = dst \<and> decS out = Some (filter (\<lambda>g. gServoId g \<notin> deny) gs)"
    if "(s, out) \<in> set (servo_on_sync decS enc deny dst req)" for s out
    using that assms(6)
    by (cases "decS req") (auto simp: servo_on_sync_def Let_def split: option.splits if_splits)
  ultimately show ?thesis by (auto simp: servo_on_cmd_def)
qed

theorem servo_surface_guards_platform_joints_witness:
  "servo_on_cmd (\<lambda>_. Some 8)
     (loadDenyIDs (Load (\<lambda>_. Inr '''') (\<lambda>_. Inr (demo_rover (Fin 1) demo_wheels, []))) [''platform.toml'']) ''x'' [] = []"
proof -
  let ?load = "Load (\<lambda>_. Inr '''') (\<lambda>_. Inr (demo_rover (Fin 1) demo_wheels, []))"
  have l: "?load ''platform.toml'' = Inr (demo_rover (Fin 1) demo_wheels)"
    by (simp add: Load_def Parse_def demo_rover_valid)
  have "demo_wheel ''fr'' 8 True \<in> set (dJoints (demo_rover (Fin 1) demo_wheels))"
    "jOwnership (demo_wheel ''fr'' 8 True) = ''platform''" "jBusID (demo_wheel ''fr'' 8 True) = 8"
    by (simp_all add: demo_rover_def demo_wheel_def)
  then show ?thesis
    using servo_surface_guards_platform_joints [of "[]" "\<lambda>_. Inr ''''" _ "''platform.toml''",
        OF _ _ l, of "demo_wheel ''fr'' 8 True" "\<lambda>_. None" "\<lambda>_. None" _ "[]" "\<lambda>_. Some 8" "[]" "''x''" "[]"]
    by simp
qed

section \<open>The mode gates\<close>

text \<open>What reaches a gated broker: an announcement of the rover's mode, or a payload to forward.\<close>

datatype gate_input = ModeMsg bytes | Payload bytes

text \<open>The last mode announced, when \<open>m\<close> held before: undecodable announcements change nothing.\<close>

fun last_mode :: "(bytes \<Rightarrow> mode option) \<Rightarrow> mode \<Rightarrow> gate_input list \<Rightarrow> mode" where
  "last_mode dec m [] = m"
| "last_mode dec m (ModeMsg x # ins) = last_mode dec (case dec x of None \<Rightarrow> m | Some to \<Rightarrow> to) ins"
| "last_mode dec m (Payload x # ins) = last_mode dec m ins"

text \<open>A run of a broker over its inputs, with the messages it publishes. \<open>on_mode\<close> and \<open>relay\<close> are the
  broker's two callbacks.\<close>

fun gate_run ::
  "('b \<Rightarrow> bytes \<Rightarrow> 'b) \<Rightarrow> ('b \<Rightarrow> bytes \<Rightarrow> (string \<times> bytes) list) \<Rightarrow> 'b \<Rightarrow> gate_input list \<Rightarrow> (string \<times> bytes) list"
where
  "gate_run on_mode relay b [] = []"
| "gate_run on_mode relay b (ModeMsg x # ins) = gate_run on_mode relay (on_mode b x) ins"
| "gate_run on_mode relay b (Payload x # ins) = relay b x @ gate_run on_mode relay b ins"

text \<open>
  The contract of a mode gate: it remembers the mode of the last decodable announcement and forwards
  a well-formed payload, unchanged, exactly in the required mode.
\<close>

locale mode_gate =
  fixes required :: mode
    and mode_of :: "'b \<Rightarrow> mode"
    and on_mode :: "(bytes \<Rightarrow> mode option) \<Rightarrow> 'b \<Rightarrow> bytes \<Rightarrow> 'b"
    and relay :: "(bytes \<Rightarrow> bool) \<Rightarrow> string \<Rightarrow> 'b \<Rightarrow> bytes \<Rightarrow> (string \<times> bytes) list"
  assumes on_mode_law: "mode_of (on_mode dec b x) = (case dec x of None \<Rightarrow> mode_of b | Some to \<Rightarrow> to)"
    and relay_law: "relay ok dst b x = (if ok x \<and> mode_of b = required then [(dst, x)] else [])"
begin

lemma gate_run_append:
  "gate_run (on_mode dec) (relay ok dst) b (ins @ [Payload x]) = gate_run (on_mode dec) (relay ok dst) b ins @
     (if ok x \<and> last_mode dec (mode_of b) ins = required then [(dst, x)] else [])"
proof (induction ins arbitrary: b)
  case Nil
  show ?case using relay_law [of ok dst b x] by simp
next
  case (Cons i ins)
  then show ?case by (cases i) (auto simp: on_mode_law)
qed

lemma gate_closed_without_mode:
  "mode_of b \<noteq> required \<Longrightarrow> (\<forall>x. ModeMsg x \<in> set ins \<longrightarrow> dec x \<noteq> Some required) \<Longrightarrow>
     gate_run (on_mode dec) (relay ok dst) b ins = []"
proof (induction ins arbitrary: b)
  case (Cons i ins)
  show ?case
  proof (cases i)
    case (ModeMsg x)
    with Cons.prems have "mode_of (on_mode dec b x) \<noteq> required"
      by (auto simp: on_mode_law split: option.splits)
    with ModeMsg Cons show ?thesis by simp
  next
    case (Payload x)
    with Cons show ?thesis by (simp add: relay_law [of ok dst b x])
  qed
qed simp

end

interpretation drive_gate: mode_gate MODE_AUTONOMOUS dbMode drive_on_mode drive_relayCmd
  by unfold_locales (auto simp: drive_on_mode_def drive_relayCmd_def split: option.splits)

interpretation teleop_gate: mode_gate MODE_MANUAL tbMode teleop_on_mode teleop_on_gamepad
  by unfold_locales (auto simp: teleop_on_mode_def teleop_on_gamepad_def split: option.splits)

text \<open>
  C13. Drive authority: a module's drive command is forwarded to the platform exactly when it is a
  well-formed command and the last mode core announced is autonomous; a broker that has heard no
  announcement of autonomous forwards nothing at all.
\<close>

theorem drive_relay_only_in_autonomous:
  "gate_run (drive_on_mode dec) (drive_relayCmd ok dst) (newDriveBroker nc r) (ins @ [Payload x]) =
     gate_run (drive_on_mode dec) (drive_relayCmd ok dst) (newDriveBroker nc r) ins @
     (if ok x \<and> last_mode dec 0 ins = MODE_AUTONOMOUS then [(dst, x)] else []) \<and>
   ((\<forall>x. ModeMsg x \<in> set ins \<longrightarrow> dec x \<noteq> Some MODE_AUTONOMOUS) \<longrightarrow>
     gate_run (drive_on_mode dec) (drive_relayCmd ok dst) (newDriveBroker nc r) ins = [])"
  using drive_gate.gate_closed_without_mode [of "newDriveBroker nc r" ins dec ok dst]
  by (simp add: drive_gate.gate_run_append newDriveBroker_def MODE_AUTONOMOUS_def)

theorem drive_relay_only_in_autonomous_witness:
  "gate_run (drive_on_mode (\<lambda>x. Some (int (length x)))) (drive_relayCmd (\<lambda>_. True) ''d'')
     (newDriveBroker True ''r'') ([ModeMsg [0]] @ [Payload [7]]) = [] \<and>
   gate_run (drive_on_mode (\<lambda>x. Some (int (length x)))) (drive_relayCmd (\<lambda>_. True) ''d'')
     (newDriveBroker True ''r'') ([ModeMsg [0, 0, 0]] @ [Payload [7]]) = [(''d'', [7])]"
  using drive_relay_only_in_autonomous [of "\<lambda>x. Some (int (length x))" "\<lambda>_. True" "''d''" True "''r''" "[ModeMsg [0]]" "[7]"]
    drive_relay_only_in_autonomous [of "\<lambda>x. Some (int (length x))" "\<lambda>_. True" "''d''" True "''r''" "[ModeMsg [0, 0, 0]]" "[7]"]
  by (simp add: MODE_AUTONOMOUS_def)

text \<open>
  Operator input reaches a module exactly when it is a well-formed snapshot and the last mode
  core announced is manual; before any announcement of manual nothing is mirrored.
\<close>

theorem teleop_mirror_only_in_manual:
  "gate_run (teleop_on_mode dec) (teleop_on_gamepad ok dst) (newTeleopInputBroker nc r) (ins @ [Payload x]) =
     gate_run (teleop_on_mode dec) (teleop_on_gamepad ok dst) (newTeleopInputBroker nc r) ins @
     (if ok x \<and> last_mode dec 0 ins = MODE_MANUAL then [(dst, x)] else []) \<and>
   ((\<forall>x. ModeMsg x \<in> set ins \<longrightarrow> dec x \<noteq> Some MODE_MANUAL) \<longrightarrow>
     gate_run (teleop_on_mode dec) (teleop_on_gamepad ok dst) (newTeleopInputBroker nc r) ins = [])"
  using teleop_gate.gate_closed_without_mode [of "newTeleopInputBroker nc r" ins dec ok dst]
  by (simp add: teleop_gate.gate_run_append newTeleopInputBroker_def MODE_MANUAL_def)

theorem teleop_mirror_only_in_manual_witness:
  "gate_run (teleop_on_mode (\<lambda>x. Some (int (length x)))) (teleop_on_gamepad (\<lambda>_. True) ''d'')
     (newTeleopInputBroker True ''r'') ([ModeMsg [0, 0]] @ [Payload [7]]) = []"
  using teleop_mirror_only_in_manual [of "\<lambda>x. Some (int (length x))" "\<lambda>_. True" "''d''" True "''r''" "[ModeMsg [0, 0]]" "[7]"]
  by (simp add: MODE_MANUAL_def)

end
