(* ===== verification/Manifest.thy ===== *)
theory Manifest
  imports Prelude
begin

text \<open>
  The module manifest of \<^verbatim>\<open>agent/internal/modules/manifest.go\<close> and the permissions
  \<^verbatim>\<open>agent/internal/modules/acl.go\<close> derives from it. \<open>raw_manifest\<close> is the decoded
  \<^verbatim>\<open>module.toml\<close>; the TOML decoder is an argument of \<open>ParseManifest\<close>. The lemmas show which
  manifests are accepted, that every subject an accepted manifest is granted lies in the module's
  own subtree, and what the hardware allow-list does and does not keep out.
\<close>

section \<open>Data\<close>

record permissions =
  pPublish :: "string list"
  pSubscribe :: "string list"
  pHardware :: "string list"

record health_probe =
  hProbe :: string
  hInterval :: duration
  hTimeout :: duration

datatype ui_kind = UIKindNone | UIKindStatic | UIKindProxy

record teleop_window =
  twWindowID :: string
  twLabel :: string
  twEntry :: string
  twBindings :: "string list"

record ui_binding =
  uKind :: ui_kind
  uTabID :: string
  uStaticBundle :: string
  uProxyPort :: "16 word"
  uLANOnly :: bool
  uTeleop :: "teleop_window option"

record hardware =
  hwDevices :: "string list"
  hwReadOnly :: "string list"
  hwReadWrite :: "string list"
  hwCapabilities :: "string list"

record config_field =
  cfKey :: string
  cfLabel :: string
  cfType :: string
  cfDefault :: string
  cfHelp :: string
  cfRequired :: bool

record mod_component =
  cClass :: string
  cStateRateHz :: f64

record manifest =
  mName :: string
  mLabel :: string
  mVersion :: string
  mAPIVersion :: string
  mLanguage :: string
  mEntrypoint :: string
  mPermissions :: permissions
  mHealth :: health_probe
  mUI :: ui_binding
  mHardware :: hardware
  mProvides :: "string list"
  mRequires :: "string list"
  mComponents :: "mod_component list"
  mConfigFields :: "config_field list"

record raw_static =
  rsTabID :: string
  rsBundle :: string

record raw_proxy =
  rpTabID :: string
  rpPort :: int
  rpLANOnly :: bool

record raw_ui =
  ruTabID :: string
  ruStatic :: "raw_static option"
  ruProxy :: "raw_proxy option"
  ruTeleop :: "teleop_window option"

record raw_manifest =
  rName :: string
  rLabel :: string
  rVersion :: string
  rAPIVersion :: string
  rLanguage :: string
  rEntrypoint :: string
  rPermissions :: permissions
  rHealthProbe :: string
  rHealthIntervalS :: int
  rHealthTimeoutS :: int
  rUI :: raw_ui
  rHardware :: hardware
  rProvides :: "string list"
  rRequires :: "string list"
  rComponent :: "mod_component option"
  rComponentList :: "mod_component list"
  rConfigFields :: "config_field list"

datatype manifest_error =
    MErrDecode string
  | MErrNameRequired
  | MErrName string
  | MErrEntrypoint
  | MErrSubject string
  | MErrProvides string
  | MErrRequires string
  | MErrComponentForms
  | MErrClass string
  | MErrDuplicateClass string
  | MErrRate f64
  | MErrFieldKey nat string
  | MErrDuplicateField string
  | MErrUIForms
  | MErrLANOnly
  | MErrPort int
  | MErrTabID string
  | MErrDevice string
  | MErrReadOnly string
  | MErrReadWrite string
  | MErrCapability string


section \<open>Names and allow-lists\<close>

definition name_char :: "char \<Rightarrow> bool" where
  "name_char c \<longleftrightarrow> is_lower c \<or> is_digit_char c \<or> c = CHR ''-''"

text \<open>\<^verbatim>\<open>^[a-z][a-z0-9-]{0,63}$\<close>, \<^verbatim>\<open>^[a-z][a-z0-9-]{1,31}$\<close> and \<^verbatim>\<open>^[a-z][a-z0-9_]{0,63}$\<close>.\<close>

definition validModuleName :: "string \<Rightarrow> bool" where
  "validModuleName s \<longleftrightarrow>
     (case s of [] \<Rightarrow> False
      | c # cs \<Rightarrow> is_lower c \<and> length cs \<le> 63 \<and> list_all name_char cs)"

definition componentClassRe :: "string \<Rightarrow> bool" where
  "componentClassRe s \<longleftrightarrow>
     (case s of [] \<Rightarrow> False
      | c # cs \<Rightarrow> is_lower c \<and> 1 \<le> length cs \<and> length cs \<le> 31 \<and> list_all name_char cs)"

definition configFieldKeyRe :: "string \<Rightarrow> bool" where
  "configFieldKeyRe s \<longleftrightarrow>
     (case s of [] \<Rightarrow> False
      | c # cs \<Rightarrow> is_lower c \<and> length cs \<le> 63 \<and>
          list_all (\<lambda>c. is_lower c \<or> is_digit_char c \<or> c = CHR ''_'') cs)"

definition allowedDevicePrefixes :: "string list" where
  "allowedDevicePrefixes = [''/dev/i2c-'', ''/dev/spidev'', ''/dev/ttyUSB'', ''/dev/ttyACM'',
     ''/dev/video'', ''/dev/gpiochip'']"

definition allowedReadOnlyPaths :: "string list" where
  "allowedReadOnlyPaths = [''/sys/class/hwmon'', ''/sys/class/gpio'', ''/sys/class/thermal'']"

definition allowedReadWritePaths :: "string list" where
  "allowedReadWritePaths = [''/var/lib/waypoint-module-'']"

definition allowedCapabilities :: "string list" where
  "allowedCapabilities = [''NET_ADMIN'', ''SYS_NICE'']"

definition knownCapabilities :: "string list" where
  "knownCapabilities = [''uplink'']"

definition knownRequires :: "string list" where
  "knownRequires = [''servo-control'', ''teleop-input'', ''drive-control'']"


section \<open>Subjects\<close>

text \<open>The string \<^verbatim>\<open>waypoint.*.module.<name>.\<close> every subject of a module starts with.\<close>

definition sandbox_base :: "string \<Rightarrow> string" where
  "sandbox_base name = ''waypoint.*.module.'' @ name @ ''.''"

definition componentLeaves :: "string \<Rightarrow> string \<Rightarrow> string list \<times> string list" where
  "componentLeaves name cls =
     (let base = sandbox_base name in
      if cls = ''arm'' then ([base @ ''arm.state''], [base @ ''arm.cmd''])
      else if cls = ''sensor'' then ([base @ ''sensor.state''], [])
      else if cls = ''base'' then ([base @ ''base.state''], [base @ ''base.cmd''])
      else ([base @ cls @ ''.state''], [base @ cls @ ''.cmd'']))"

definition subjectInOwnSandbox :: "string \<Rightarrow> string \<Rightarrow> bool" where
  "subjectInOwnSandbox name subj \<longleftrightarrow>
     has_prefix subj (sandbox_base name) \<and> length subj > length (sandbox_base name)"


section \<open>Parsing\<close>

fun buildComponents_loop ::
  "string list \<Rightarrow> mod_component list \<Rightarrow> manifest_error + mod_component list" where
  "buildComponents_loop seen [] = Inr []"
| "buildComponents_loop seen (e # es) =
     ensure (check (componentClassRe (cClass e)) (MErrClass (cClass e)))
     (ensure (check (cClass e \<notin> set seen) (MErrDuplicateClass (cClass e)))
     (let rate = (if f_eq (cStateRateHz e) (Fin 0) then Fin 10 else cStateRateHz e) in
      ensure (check (\<not> (f_lt rate (Fin 0) \<or> f_lt (Fin 100) rate)) (MErrRate (cStateRateHz e)))
      (res_bind (buildComponents_loop (cClass e # seen) es)
        (\<lambda>out. Inr (\<lparr>cClass = cClass e, cStateRateHz = rate\<rparr> # out)))))"

definition buildComponents :: "raw_manifest \<Rightarrow> manifest_error + mod_component list" where
  "buildComponents raw =
     ensure (check (\<not> (rComponent raw \<noteq> None \<and> length (rComponentList raw) > 0)) MErrComponentForms)
       (buildComponents_loop []
         ((case rComponent raw of None \<Rightarrow> [] | Some c \<Rightarrow> [c]) @ rComponentList raw))"

fun buildConfigFields_loop ::
  "nat \<Rightarrow> string list \<Rightarrow> config_field list \<Rightarrow> manifest_error + config_field list" where
  "buildConfigFields_loop i seen [] = Inr []"
| "buildConfigFields_loop i seen (f # fs) =
     ensure (check (configFieldKeyRe (cfKey f)) (MErrFieldKey i (cfKey f)))
     (ensure (check (cfKey f \<notin> set seen) (MErrDuplicateField (cfKey f)))
     (res_bind (buildConfigFields_loop (Suc i) (cfKey f # seen) fs)
       (\<lambda>out. Inr (f \<lparr>cfLabel := if cfLabel f = '''' then cfKey f else cfLabel f\<rparr> # out))))"

definition buildConfigFields :: "raw_manifest \<Rightarrow> manifest_error + config_field list" where
  "buildConfigFields raw =
     (if length (rConfigFields raw) = 0 then Inr []
      else buildConfigFields_loop 0 [] (rConfigFields raw))"

definition ui_none :: ui_binding where
  "ui_none = \<lparr>uKind = UIKindNone, uTabID = '''', uStaticBundle = '''', uProxyPort = 0,
     uLANOnly = False, uTeleop = None\<rparr>"

text \<open>The \<^verbatim>\<open>switch\<close> of \<^verbatim>\<open>buildUI\<close>.\<close>

definition select_ui :: "raw_ui \<Rightarrow> ui_binding \<Rightarrow> manifest_error + ui_binding" where
  "select_ui ui old =
     (case ruStatic ui of
        Some s \<Rightarrow> Inr (ui_none \<lparr>uKind := UIKindStatic, uTabID := rsTabID s, uStaticBundle := rsBundle s\<rparr>)
      | None \<Rightarrow>
          (case ruProxy ui of
             Some p \<Rightarrow>
               ensure (check (rpLANOnly p) MErrLANOnly)
               (ensure (check (\<not> (rpPort p < 1 \<or> rpPort p > 65535)) (MErrPort (rpPort p)))
               (Inr (ui_none \<lparr>uKind := UIKindProxy, uTabID := rpTabID p,
                  uProxyPort := of_int (rpPort p), uLANOnly := True\<rparr>)))
           | None \<Rightarrow>
               if ruTabID ui \<noteq> '''' then Inr (ui_none \<lparr>uKind := UIKindStatic, uTabID := ruTabID ui\<rparr>)
               else Inr old))"

definition buildUI :: "raw_manifest \<Rightarrow> manifest \<Rightarrow> manifest_error + manifest" where
  "buildUI raw m =
     ensure (check (\<not> (ruStatic (rUI raw) \<noteq> None \<and> ruProxy (rUI raw) \<noteq> None)) MErrUIForms)
     (res_bind (select_ui (rUI raw) (mUI m)) (\<lambda>ui.
      ensure (check (\<not> (uKind ui \<noteq> UIKindNone \<and> \<not> has_prefix (uTabID ui) ''m-'')) (MErrTabID (uTabID ui)))
      (Inr (case ruTeleop (rUI raw) of
              None \<Rightarrow> m \<lparr>mUI := ui\<rparr>
            | Some t \<Rightarrow> m \<lparr>mUI := ui \<lparr>uTeleop := Some t\<rparr>\<rparr>))))"

definition some_prefix :: "string list \<Rightarrow> string \<Rightarrow> bool" where
  "some_prefix allowed s \<longleftrightarrow> list_ex (\<lambda>p. has_prefix s p) allowed"

definition buildHardware :: "raw_manifest \<Rightarrow> manifest \<Rightarrow> manifest_error + manifest" where
  "buildHardware raw m =
     (let hw = rHardware raw in
      ensure (first_error (map (\<lambda>d. check (some_prefix allowedDevicePrefixes d) (MErrDevice d)) (hwDevices hw)))
      (ensure (first_error (map (\<lambda>p. check (some_prefix allowedReadOnlyPaths p) (MErrReadOnly p)) (hwReadOnly hw)))
      (ensure (first_error (map (\<lambda>p. check (some_prefix allowedReadWritePaths p) (MErrReadWrite p)) (hwReadWrite hw)))
      (ensure (first_error (map (\<lambda>c. check (c \<in> set allowedCapabilities) (MErrCapability c)) (hwCapabilities hw)))
      (Inr (m \<lparr>mHardware := hw\<rparr>))))))"

definition manifest_of_raw :: "raw_manifest \<Rightarrow> manifest" where
  "manifest_of_raw raw = \<lparr>
     mName = rName raw, mLabel = rLabel raw, mVersion = rVersion raw, mAPIVersion = rAPIVersion raw,
     mLanguage = rLanguage raw, mEntrypoint = rEntrypoint raw, mPermissions = rPermissions raw,
     mHealth = \<lparr>hProbe = rHealthProbe raw,
       hInterval = wrap64 (rHealthIntervalS raw * 1000000000),
       hTimeout = wrap64 (rHealthTimeoutS raw * 1000000000)\<rparr>,
     mUI = ui_none,
     mHardware = \<lparr>hwDevices = [], hwReadOnly = [], hwReadWrite = [], hwCapabilities = []\<rparr>,
     mProvides = rProvides raw, mRequires = rRequires raw, mComponents = [], mConfigFields = []\<rparr>"

definition validate_raw :: "raw_manifest \<Rightarrow> manifest_error option" where
  "validate_raw raw = first_error
     [check (rName raw \<noteq> '''') MErrNameRequired,
      check (validModuleName (rName raw)) (MErrName (rName raw)),
      check (rEntrypoint raw \<noteq> '''') MErrEntrypoint,
      first_error (map (\<lambda>s. check (subjectInOwnSandbox (rName raw) s) (MErrSubject s))
        (pPublish (rPermissions raw) @ pSubscribe (rPermissions raw))),
      first_error (map (\<lambda>c. check (c \<in> set knownCapabilities) (MErrProvides c)) (rProvides raw)),
      first_error (map (\<lambda>c. check (c \<in> set knownRequires) (MErrRequires c)) (rRequires raw))]"

definition ParseManifest :: "(string \<Rightarrow> string + raw_manifest) \<Rightarrow> string \<Rightarrow> manifest_error + manifest" where
  "ParseManifest decode data =
     (case decode data of
        Inl msg \<Rightarrow> Inl (MErrDecode msg)
      | Inr raw \<Rightarrow>
          ensure (validate_raw raw)
          (res_bind (buildComponents raw) (\<lambda>comps.
           res_bind (buildConfigFields raw) (\<lambda>fields.
           res_bind (buildUI raw ((manifest_of_raw raw) \<lparr>mComponents := comps, mConfigFields := fields\<rparr>))
             (buildHardware raw)))))"


section \<open>Permissions derived from a manifest\<close>

record module_permissions =
  Publish :: "string list"
  Subscribe :: "string list"

definition ToLocalAuthPermissions :: "permissions \<Rightarrow> module_permissions" where
  "ToLocalAuthPermissions p = \<lparr>Publish = pPublish p, Subscribe = pSubscribe p\<rparr>"

definition requiresLeaves :: "string \<Rightarrow> string \<Rightarrow> string list \<times> string list" where
  "requiresLeaves name req =
     (let base = sandbox_base name in
      if req = ''drive-control'' then ([base @ ''drive.cmd''], [base @ ''drive.telemetry'', base @ ''mode''])
      else ([], []))"

definition add_leaves :: "module_permissions \<Rightarrow> string list \<times> string list \<Rightarrow> module_permissions" where
  "add_leaves p l = p \<lparr>Publish := Publish p @ fst l, Subscribe := Subscribe p @ snd l\<rparr>"

definition ManifestAuthPermissions :: "manifest \<Rightarrow> module_permissions" where
  "ManifestAuthPermissions m =
     foldl (\<lambda>p r. add_leaves p (requiresLeaves (mName m) r))
       (foldl (\<lambda>p c. add_leaves p (componentLeaves (mName m) (cClass c)))
         (ToLocalAuthPermissions (mPermissions m)) (mComponents m))
       (mRequires m)"

section \<open>What the parser accepts\<close>

text \<open>The reference definition of an acceptable manifest, as independent facts.\<close>

definition effective_rate :: "f64 \<Rightarrow> f64" where
  "effective_rate r = (if f_eq r (Fin 0) then Fin 10 else r)"

definition components_ok :: "mod_component list \<Rightarrow> bool" where
  "components_ok cs \<longleftrightarrow> distinct (map cClass cs) \<and>
     (\<forall>c \<in> set cs. componentClassRe (cClass c) \<and>
        \<not> f_lt (effective_rate (cStateRateHz c)) (Fin 0) \<and>
        \<not> f_lt (Fin 100) (effective_rate (cStateRateHz c)))"

definition fields_ok :: "config_field list \<Rightarrow> bool" where
  "fields_ok fs \<longleftrightarrow> distinct (map cfKey fs) \<and> (\<forall>f \<in> set fs. configFieldKeyRe (cfKey f))"

definition ui_ok :: "raw_ui \<Rightarrow> bool" where
  "ui_ok ui \<longleftrightarrow>
     (case (ruStatic ui, ruProxy ui) of
        (Some _, Some _) \<Rightarrow> False
      | (Some s, None) \<Rightarrow> has_prefix (rsTabID s) ''m-''
      | (None, Some p) \<Rightarrow> rpLANOnly p \<and> 1 \<le> rpPort p \<and> rpPort p \<le> 65535 \<and> has_prefix (rpTabID p) ''m-''
      | (None, None) \<Rightarrow> ruTabID ui = '''' \<or> has_prefix (ruTabID ui) ''m-'')"

definition hardware_ok :: "hardware \<Rightarrow> bool" where
  "hardware_ok hw \<longleftrightarrow>
     (\<forall>d \<in> set (hwDevices hw). \<exists>p \<in> set allowedDevicePrefixes. has_prefix d p) \<and>
     (\<forall>d \<in> set (hwReadOnly hw). \<exists>p \<in> set allowedReadOnlyPaths. has_prefix d p) \<and>
     (\<forall>d \<in> set (hwReadWrite hw). \<exists>p \<in> set allowedReadWritePaths. has_prefix d p) \<and>
     set (hwCapabilities hw) \<subseteq> set allowedCapabilities"

definition raw_ok :: "raw_manifest \<Rightarrow> bool" where
  "raw_ok raw \<longleftrightarrow>
     validModuleName (rName raw) \<and> rEntrypoint raw \<noteq> '''' \<and>
     (\<forall>s \<in> set (pPublish (rPermissions raw)) \<union> set (pSubscribe (rPermissions raw)).
        \<exists>leaf. leaf \<noteq> [] \<and> s = sandbox_base (rName raw) @ leaf) \<and>
     set (rProvides raw) \<subseteq> set knownCapabilities \<and> set (rRequires raw) \<subseteq> set knownRequires \<and>
     (rComponent raw = None \<or> rComponentList raw = []) \<and>
     components_ok (case rComponent raw of None \<Rightarrow> rComponentList raw | Some c \<Rightarrow> [c]) \<and>
     fields_ok (rConfigFields raw) \<and> ui_ok (rUI raw) \<and> hardware_ok (rHardware raw)"

lemma subjectInOwnSandbox_iff:
  "subjectInOwnSandbox n s \<longleftrightarrow> (\<exists>leaf. leaf \<noteq> [] \<and> s = sandbox_base n @ leaf)"
  by (auto simp: subjectInOwnSandbox_def has_prefix_iff)

lemma buildComponents_loop_Inr:
  "buildComponents_loop seen es = Inr out \<longleftrightarrow>
     components_ok es \<and> set seen \<inter> cClass ` set es = {} \<and>
     out = map (\<lambda>e. \<lparr>cClass = cClass e, cStateRateHz = effective_rate (cStateRateHz e)\<rparr>) es"
proof (induction es arbitrary: seen out)
  case Nil
  then show ?case by (auto simp: components_ok_def)
next
  case (Cons e es)
  show ?case
    by (simp add: Cons.IH Let_def components_ok_def flip: effective_rate_def) blast
qed

lemma buildConfigFields_loop_Inr:
  "(\<exists>out. buildConfigFields_loop i seen fs = Inr out) \<longleftrightarrow>
     fields_ok fs \<and> set seen \<inter> cfKey ` set fs = {}"
proof (induction fs arbitrary: i seen)
  case Nil
  then show ?case by (auto simp: fields_ok_def)
next
  case (Cons f fs)
  have "(\<exists>out. buildConfigFields_loop i seen (f # fs) = Inr out) \<longleftrightarrow>
      configFieldKeyRe (cfKey f) \<and> cfKey f \<notin> set seen \<and>
      (\<exists>out. buildConfigFields_loop (Suc i) (cfKey f # seen) fs = Inr out)"
    by simp
  also have "\<dots> \<longleftrightarrow> fields_ok (f # fs) \<and> set seen \<inter> cfKey ` set (f # fs) = {}"
    by (simp add: Cons.IH fields_ok_def) blast
  finally show ?case .
qed

lemma buildConfigFields_keys:
  "buildConfigFields_loop i seen fs = Inr out \<Longrightarrow>
     map cfKey out = map cfKey fs \<and> (\<forall>f \<in> set out. cfLabel f \<noteq> '''')"
  by (induction fs arbitrary: i seen out) (auto simp: configFieldKeyRe_def split: if_splits)

lemma buildComponents_Inr:
  "buildComponents raw = Inr out \<longleftrightarrow>
     (rComponent raw = None \<or> rComponentList raw = []) \<and>
     components_ok (case rComponent raw of None \<Rightarrow> rComponentList raw | Some c \<Rightarrow> [c]) \<and>
     out = map (\<lambda>e. \<lparr>cClass = cClass e, cStateRateHz = effective_rate (cStateRateHz e)\<rparr>)
       (case rComponent raw of None \<Rightarrow> rComponentList raw | Some c \<Rightarrow> [c])"
  by (cases "rComponent raw") (auto simp: buildComponents_def buildComponents_loop_Inr simp del: buildComponents_loop.simps)

lemma buildConfigFields_Inr:
  "(\<exists>out. buildConfigFields raw = Inr out) \<longleftrightarrow> fields_ok (rConfigFields raw)"
  using buildConfigFields_loop_Inr [of 0 "[]" "rConfigFields raw"]
  by (auto simp: buildConfigFields_def fields_ok_def)

lemma buildUI_Inr:
  assumes "mUI m = ui_none"
  shows "(\<exists>m'. buildUI raw m = Inr m') \<longleftrightarrow> ui_ok (rUI raw)"
  using assms
  by (cases "ruStatic (rUI raw)"; cases "ruProxy (rUI raw)")
    (auto simp: buildUI_def select_ui_def ui_ok_def ui_none_def)

lemma buildHardware_Inr:
  "buildHardware raw m = Inr m' \<longleftrightarrow> hardware_ok (rHardware raw) \<and> m' = m \<lparr>mHardware := rHardware raw\<rparr>"
  by (auto simp: buildHardware_def hardware_ok_def some_prefix_def list_ex_iff Let_def)

lemma validate_raw_None:
  "validate_raw raw = None \<longleftrightarrow>
     validModuleName (rName raw) \<and> rEntrypoint raw \<noteq> '''' \<and>
     (\<forall>s \<in> set (pPublish (rPermissions raw)) \<union> set (pSubscribe (rPermissions raw)).
        \<exists>leaf. leaf \<noteq> [] \<and> s = sandbox_base (rName raw) @ leaf) \<and>
     set (rProvides raw) \<subseteq> set knownCapabilities \<and> set (rRequires raw) \<subseteq> set knownRequires"
proof -
  have "validModuleName n \<Longrightarrow> n \<noteq> ''''" for n by (auto simp: validModuleName_def)
  then show ?thesis
    by (auto simp: validate_raw_def subjectInOwnSandbox_iff ball_Un)
qed

lemma accepts_iff_raw_ok:
  assumes "decode data = Inr raw"
  shows "(\<exists>m. ParseManifest decode data = Inr m) \<longleftrightarrow> raw_ok raw"
proof -
  let ?m = "\<lambda>comps fields. (manifest_of_raw raw) \<lparr>mComponents := comps, mConfigFields := fields\<rparr>"
  have ui: "(\<exists>m'. buildUI raw (?m comps fields) = Inr m') \<longleftrightarrow> ui_ok (rUI raw)" for comps fields
    by (rule buildUI_Inr) (simp add: manifest_of_raw_def)
  have "(\<exists>m. ParseManifest decode data = Inr m) \<longleftrightarrow>
     validate_raw raw = None \<and> (\<exists>comps. buildComponents raw = Inr comps \<and>
       (\<exists>fields. buildConfigFields raw = Inr fields \<and>
         (\<exists>m'. buildUI raw (?m comps fields) = Inr m') \<and> hardware_ok (rHardware raw)))"
    using assms by (simp add: ParseManifest_def buildHardware_Inr) blast
  also have "\<dots> \<longleftrightarrow> raw_ok raw"
    unfolding ui validate_raw_None raw_ok_def buildComponents_Inr buildConfigFields_Inr [symmetric]
    by blast
  finally show ?thesis .
qed

text \<open>
  C9. The parser accepts a decoded manifest exactly when it is acceptable: a well-formed name, an
  entrypoint, subjects strictly inside the module's own subtree, known capabilities, at most one
  form of component declaration with distinct well-formed classes and rates in range, distinct
  well-formed config keys, at most one user-interface form with a reserved tab id (and, for a
  proxied one, a LAN-only binding to a real port), and hardware entries from the allow-list.
\<close>

theorem parse_manifest_accepts_iff:
  assumes "decode data = Inr raw"
  shows "(\<exists>m. ParseManifest decode data = Inr m) \<longleftrightarrow> raw_ok raw"
  using assms by (rule accepts_iff_raw_ok)

lemma buildUI_only_ui: "buildUI raw m = Inr m' \<Longrightarrow> \<exists>ui. m' = m \<lparr>mUI := ui\<rparr>"
  by (auto simp: buildUI_def split: option.splits)

lemma ParseManifest_shape:
  assumes "ParseManifest decode data = Inr m"
  obtains raw comps fields ui where "decode data = Inr raw" "validate_raw raw = None"
    "buildComponents raw = Inr comps" "buildConfigFields raw = Inr fields"
    "hardware_ok (rHardware raw)"
    "m = (manifest_of_raw raw) \<lparr>mComponents := comps, mConfigFields := fields, mUI := ui,
            mHardware := rHardware raw\<rparr>"
proof -
  from assms obtain raw comps fields m' where *: "decode data = Inr raw" "validate_raw raw = None"
    "buildComponents raw = Inr comps" "buildConfigFields raw = Inr fields"
    "buildUI raw ((manifest_of_raw raw) \<lparr>mComponents := comps, mConfigFields := fields\<rparr>) = Inr m'"
    "buildHardware raw m' = Inr m"
    by (auto simp: ParseManifest_def split: sum.splits)
  from buildUI_only_ui [OF *(5)] obtain ui where
    "m' = (manifest_of_raw raw) \<lparr>mComponents := comps, mConfigFields := fields, mUI := ui\<rparr>" by auto
  with * show thesis by (intro that) (auto simp: buildHardware_Inr)
qed

text \<open>A subject list that stays inside the subtree of a module.\<close>

definition in_sandbox :: "string \<Rightarrow> string list \<Rightarrow> bool" where
  "in_sandbox n ss \<longleftrightarrow> (\<forall>s \<in> set ss. \<exists>leaf. leaf \<noteq> [] \<and> s = sandbox_base n @ leaf)"

definition perms_in_sandbox :: "string \<Rightarrow> module_permissions \<Rightarrow> bool" where
  "perms_in_sandbox n p \<longleftrightarrow> in_sandbox n (Publish p) \<and> in_sandbox n (Subscribe p)"

lemma in_sandbox_simps [simp]:
  "in_sandbox n []" "in_sandbox n (xs @ ys) \<longleftrightarrow> in_sandbox n xs \<and> in_sandbox n ys"
  "in_sandbox n ((sandbox_base n @ l) # xs) \<longleftrightarrow> l \<noteq> [] \<and> in_sandbox n xs"
  by (auto simp: in_sandbox_def)

lemma perms_add_leaves:
  "perms_in_sandbox n p \<Longrightarrow> in_sandbox n (fst l) \<Longrightarrow> in_sandbox n (snd l) \<Longrightarrow>
     perms_in_sandbox n (add_leaves p l)"
  by (simp add: perms_in_sandbox_def add_leaves_def)

lemma leaves_in_sandbox:
  "in_sandbox n (fst (componentLeaves n c))" "in_sandbox n (snd (componentLeaves n c))"
  "in_sandbox n (fst (requiresLeaves n r))" "in_sandbox n (snd (requiresLeaves n r))"
  by (simp_all add: componentLeaves_def requiresLeaves_def Let_def)

lemma foldl_perms_in_sandbox:
  "perms_in_sandbox n p \<Longrightarrow> (\<And>x. in_sandbox n (fst (f x)) \<and> in_sandbox n (snd (f x))) \<Longrightarrow>
     perms_in_sandbox n (foldl (\<lambda>p x. add_leaves p (f x)) p xs)"
  by (induction xs arbitrary: p) (auto intro: perms_add_leaves)

lemma manifest_perms_in_sandbox:
  assumes "ParseManifest decode data = Inr m"
  shows "perms_in_sandbox (mName m) (ManifestAuthPermissions m)"
proof -
  from assms have "perms_in_sandbox (mName m) (ToLocalAuthPermissions (mPermissions m))"
    by (rule ParseManifest_shape)
      (auto simp: validate_raw_None perms_in_sandbox_def in_sandbox_def ToLocalAuthPermissions_def
        manifest_of_raw_def)
  then show ?thesis
    unfolding ManifestAuthPermissions_def by (intro foldl_perms_in_sandbox) (auto simp: leaves_in_sandbox)
qed

text \<open>
  C23. Sandbox confinement: every subject the agent grants a module from its manifest, declared
  explicitly or through a component class or a required capability, is of the form
  \<^verbatim>\<open>waypoint.*.module.<name>.<leaf>\<close> with a non-empty leaf and the module's own name.
\<close>

theorem manifest_subjects_in_own_sandbox:
  assumes "ParseManifest decode data = Inr m"
    and "s \<in> set (Publish (ManifestAuthPermissions m)) \<union> set (Subscribe (ManifestAuthPermissions m))"
  shows "\<exists>leaf. leaf \<noteq> [] \<and> s = ''waypoint.*.module.'' @ mName m @ ''.'' @ leaf"
  using manifest_perms_in_sandbox [OF assms(1)] assms(2)
  by (auto simp: perms_in_sandbox_def in_sandbox_def sandbox_base_def)

lemma ParseManifest_hardware_ok: "ParseManifest decode data = Inr m \<Longrightarrow> hardware_ok (mHardware m)"
  by (erule ParseManifest_shape) simp

lemma allowed_device_not_uart:
  "\<exists>p \<in> set allowedDevicePrefixes. has_prefix d p \<Longrightarrow> \<not> has_prefix d ''/dev/ttyAMA''"
  by (auto simp: allowedDevicePrefixes_def has_prefix_iff)

text \<open>
  No accepted manifest names a Pi hardware UART (\<^verbatim>\<open>/dev/ttyAMA*\<close>) as a device, and every
  device, path and capability it names starts with an allow-listed prefix.
\<close>

theorem manifest_hardware_allow_listed:
  assumes "ParseManifest decode data = Inr m"
  shows "(\<forall>d \<in> set (hwDevices (mHardware m)). \<not> has_prefix d ''/dev/ttyAMA'' \<and>
            some_prefix allowedDevicePrefixes d) \<and>
         (\<forall>p \<in> set (hwReadOnly (mHardware m)). some_prefix allowedReadOnlyPaths p) \<and>
         (\<forall>p \<in> set (hwReadWrite (mHardware m)). some_prefix allowedReadWritePaths p) \<and>
         set (hwCapabilities (mHardware m)) \<subseteq> set allowedCapabilities"
  using ParseManifest_hardware_ok [OF assms] allowed_device_not_uart
  by (simp add: hardware_ok_def some_prefix_def list_ex_iff)

lemma effective_rate_range:
  "\<not> f_lt (effective_rate r) (Fin 0) \<Longrightarrow> \<not> f_lt (Fin 100) (effective_rate r) \<Longrightarrow>
     (\<exists>x. effective_rate r = Fin x \<and> 0 < x \<and> x \<le> 100) \<or> effective_rate r = NaN"
  by (cases r) (auto simp: effective_rate_def f_eq_def not_less less_le split: if_splits)

text \<open>
  C40. The components and config fields of an accepted manifest: classes are distinct and well
  formed, every effective publish rate lies in (0, 100] or is NaN, config keys are distinct and
  well formed, and every field has a label.
\<close>

theorem manifest_components_wf:
  assumes "ParseManifest decode data = Inr m"
  shows "distinct (map cClass (mComponents m)) \<and>
         (\<forall>c \<in> set (mComponents m). componentClassRe (cClass c) \<and>
            (cStateRateHz c = NaN \<or> (\<exists>x. cStateRateHz c = Fin x \<and> 0 < x \<and> x \<le> 100))) \<and>
         distinct (map cfKey (mConfigFields m)) \<and>
         (\<forall>f \<in> set (mConfigFields m). configFieldKeyRe (cfKey f) \<and> cfLabel f \<noteq> '''')"
proof -
  obtain raw comps fields ui where *: "buildComponents raw = Inr comps"
    "buildConfigFields raw = Inr fields" "mComponents m = comps" "mConfigFields m = fields"
    by (rule ParseManifest_shape [OF assms]) auto
  have keys: "map cfKey fields = map cfKey (rConfigFields raw)"
    and labels: "\<forall>f \<in> set fields. cfLabel f \<noteq> ''''"
    using *(2) buildConfigFields_keys [of 0 "[]" "rConfigFields raw" fields]
    by (auto simp: buildConfigFields_def split: if_splits)
  have "fields_ok (rConfigFields raw)" using *(2) buildConfigFields_Inr by blast
  then have "distinct (map cfKey fields)" "\<forall>k \<in> set (map cfKey fields). configFieldKeyRe k"
    unfolding keys by (simp_all add: fields_ok_def)
  with labels have f: "distinct (map cfKey fields)"
    "\<forall>f \<in> set fields. configFieldKeyRe (cfKey f) \<and> cfLabel f \<noteq> ''''" by simp_all
  have c: "distinct (map cClass comps) \<and> (\<forall>c \<in> set comps. componentClassRe (cClass c) \<and>
      (cStateRateHz c = NaN \<or> (\<exists>x. cStateRateHz c = Fin x \<and> 0 < x \<and> x \<le> 100)))"
    using *(1) effective_rate_range by (auto simp: buildComponents_Inr components_ok_def o_def)
  show ?thesis using f c *(3,4) by simp
qed

text \<open>A small manifest for concrete runs.\<close>

definition demo_raw :: "string \<Rightarrow> raw_manifest" where
  "demo_raw n = \<lparr>rName = n, rLabel = ''Demo'', rVersion = ''1.0.0'', rAPIVersion = ''1'',
     rLanguage = ''go'', rEntrypoint = ''/usr/bin/demo'',
     rPermissions = \<lparr>pPublish = [''waypoint.*.module.'' @ n @ ''.stats''], pSubscribe = [], pHardware = []\<rparr>,
     rHealthProbe = '''', rHealthIntervalS = 5, rHealthTimeoutS = 1,
     rUI = \<lparr>ruTabID = ''m-demo'', ruStatic = None, ruProxy = None, ruTeleop = None\<rparr>,
     rHardware = \<lparr>hwDevices = [''/dev/ttyUSB0''], hwReadOnly = [], hwReadWrite = [],
       hwCapabilities = [''SYS_NICE'']\<rparr>,
     rProvides = [], rRequires = [''drive-control''],
     rComponent = Some \<lparr>cClass = ''arm'', cStateRateHz = Fin 0\<rparr>, rComponentList = [],
     rConfigFields = []\<rparr>"

definition demo_manifest :: "string \<Rightarrow> manifest" where
  "demo_manifest n = (manifest_of_raw (demo_raw n))
     \<lparr>mComponents := [\<lparr>cClass = ''arm'', cStateRateHz = Fin 10\<rparr>], mConfigFields := [],
      mUI := ui_none \<lparr>uKind := UIKindStatic, uTabID := ''m-demo''\<rparr>,
      mHardware := rHardware (demo_raw n)\<rparr>"

lemma demo_manifest_parses:
  assumes "validModuleName n"
  shows "ParseManifest (\<lambda>_. Inr (demo_raw n)) '''' = Inr (demo_manifest n)"
proof -
  have "validate_raw (demo_raw n) = None"
    using assms
    by (auto simp: validate_raw_None demo_raw_def sandbox_base_def knownRequires_def)
  moreover have "buildComponents (demo_raw n) = Inr [\<lparr>cClass = ''arm'', cStateRateHz = Fin 10\<rparr>]"
    by (simp add: buildComponents_def demo_raw_def componentClassRe_def name_char_def is_lower_def
        f_eq_def Let_def)
  moreover have "buildConfigFields (demo_raw n) = Inr []"
    by (simp add: buildConfigFields_def demo_raw_def)
  moreover have "hardware_ok (rHardware (demo_raw n))"
    by (simp add: hardware_ok_def demo_raw_def allowedDevicePrefixes_def allowedCapabilities_def
        has_prefix_def)
  moreover have "buildUI (demo_raw n) m = Inr (m \<lparr>mUI := ui_none \<lparr>uKind := UIKindStatic, uTabID := ''m-demo''\<rparr>\<rparr>)" for m
    by (simp add: buildUI_def select_ui_def demo_raw_def has_prefix_def)
  ultimately show ?thesis
    by (simp add: ParseManifest_def buildHardware_Inr demo_manifest_def)
qed

lemma valid_names: "validModuleName ''survey''" "validModuleName ''arm''"
  by (simp_all add: validModuleName_def name_char_def is_lower_def)

lemmas demo_parses = demo_manifest_parses [OF valid_names(1)]

lemma demo_raw_ok: "raw_ok (demo_raw ''survey'')"
  using accepts_iff_raw_ok [of "\<lambda>_. Inr (demo_raw ''survey'')" "''''" "demo_raw ''survey''"] demo_parses
  by blast

theorem parse_manifest_accepts_iff_witness:
  "(\<exists>m. ParseManifest (\<lambda>_. Inr (demo_raw ''survey'')) '''' = Inr m) \<and> raw_ok (demo_raw ''survey'')"
  using parse_manifest_accepts_iff [of "\<lambda>_. Inr (demo_raw ''survey'')" "''''" "demo_raw ''survey''"]
    demo_parses by blast

theorem manifest_subjects_in_own_sandbox_witness:
  "\<exists>leaf. leaf \<noteq> [] \<and> ''waypoint.*.module.survey.drive.cmd'' = ''waypoint.*.module.'' @ ''survey'' @ ''.'' @ leaf"
  using manifest_subjects_in_own_sandbox [OF demo_parses, of "''waypoint.*.module.survey.drive.cmd''"]
  by (simp add: demo_manifest_def demo_raw_def manifest_of_raw_def ManifestAuthPermissions_def
      ToLocalAuthPermissions_def add_leaves_def componentLeaves_def requiresLeaves_def
      sandbox_base_def Let_def)

theorem manifest_hardware_allow_listed_witness:
  "\<not> has_prefix ''/dev/ttyUSB0'' ''/dev/ttyAMA'' \<and> some_prefix allowedDevicePrefixes ''/dev/ttyUSB0''"
  using manifest_hardware_allow_listed [OF demo_parses] by (simp add: demo_manifest_def demo_raw_def)

theorem manifest_components_wf_witness:
  "componentClassRe ''arm'' \<and> distinct (map cClass (mComponents (demo_manifest ''survey'')))"
  using manifest_components_wf [OF demo_parses] by (simp add: demo_manifest_def)

text \<open>
  Two gaps of the manifest checks, on one manifest of the module \<^verbatim>\<open>survey\<close>: a state rate
  that is NaN is neither below 0 nor above 100 and is kept, and the read-write allow-list accepts the
  private state directory of another module.
\<close>

theorem manifest_gaps:
  "\<exists>m. ParseManifest (\<lambda>_. Inr (demo_raw ''survey''
        \<lparr>rComponent := Some \<lparr>cClass = ''arm'', cStateRateHz = NaN\<rparr>,
         rHardware := \<lparr>hwDevices = [], hwReadOnly = [],
           hwReadWrite = [''/var/lib/waypoint-module-arm''], hwCapabilities = []\<rparr>\<rparr>)) '''' = Inr m \<and>
     cStateRateHz (hd (mComponents m)) = NaN \<and> mName m = ''survey'' \<and>
     hwReadWrite (mHardware m) = [''/var/lib/waypoint-module-arm'']"
proof -
  let ?hw = "\<lparr>hwDevices = [], hwReadOnly = [], hwReadWrite = [''/var/lib/waypoint-module-arm''],
    hwCapabilities = []\<rparr>"
  let ?raw = "demo_raw ''survey'' \<lparr>rComponent := Some \<lparr>cClass = ''arm'', cStateRateHz = NaN\<rparr>, rHardware := ?hw\<rparr>"
  let ?comps = "[\<lparr>cClass = ''arm'', cStateRateHz = NaN\<rparr>]"
  have "validate_raw ?raw = None"
    using valid_names
    by (auto simp: validate_raw_None demo_raw_def sandbox_base_def knownRequires_def)
  moreover have "buildComponents ?raw = Inr ?comps"
    by (simp add: buildComponents_def demo_raw_def componentClassRe_def name_char_def is_lower_def
        f_eq_def Let_def)
  moreover have "buildConfigFields ?raw = Inr []"
    by (simp add: buildConfigFields_def demo_raw_def)
  moreover have "hardware_ok ?hw"
    by (simp add: hardware_ok_def allowedReadWritePaths_def has_prefix_def)
  moreover have "buildUI ?raw m = Inr (m \<lparr>mUI := ui_none \<lparr>uKind := UIKindStatic, uTabID := ''m-demo''\<rparr>\<rparr>)" for m
    by (simp add: buildUI_def select_ui_def demo_raw_def has_prefix_def)
  ultimately show ?thesis
    by (simp add: ParseManifest_def buildHardware_Inr manifest_of_raw_def) (simp add: demo_raw_def)
qed

end
