(* ===== verification/LocalAuth.thy ===== *)
theory LocalAuth
  imports Manifest
begin

text \<open>
  The NATS users of the embedded server, \<^verbatim>\<open>agent/internal/localauth/users.go\<close>. A \<open>builder\<close>
  collects the users; \<open>AddModuleUser\<close> turns the permissions of a manifest into the allow-lists of a
  per-module user for one rover. The random source of the password is an argument. The lemmas show
  that the builder never holds two users of one name and that the allow-lists of two modules share
  no subject.
\<close>

section \<open>The builder\<close>

definition DefaultUsername :: string where
  "DefaultUsername = ''_default''"

record credentials =
  cUsername :: string
  cPassword :: string

text \<open>\<open>uAllow\<close> holds the publish and subscribe allow-lists; it is \<open>None\<close> for the default user, which
  has no narrowing.\<close>

record nats_user =
  uUsername :: string
  uPassword :: string
  uAllow :: "(string list \<times> string list) option"

record builder =
  bUsers :: "nats_user list"
  bByName :: "string set"

datatype auth_error = ErrDuplicateModule string | ErrGeneratePassword string

definition NewBuilder :: builder where
  "NewBuilder = \<lparr>bUsers = [\<lparr>uUsername = DefaultUsername, uPassword = '''', uAllow = None\<rparr>],
     bByName = {DefaultUsername}\<rparr>"

definition substituteRoverID :: "string list \<Rightarrow> string \<Rightarrow> string list" where
  "substituteRoverID patterns roverID = map (\<lambda>p. replace_char p (CHR ''*'') roverID) patterns"

text \<open>\<^verbatim>\<open>hex.EncodeToString\<close>: two lower-case digits per byte.\<close>

definition hex_digit :: "nat \<Rightarrow> char" where
  "hex_digit n = ''0123456789abcdef'' ! n"

definition hex_encode :: "8 word list \<Rightarrow> string" where
  "hex_encode bs = concat (map (\<lambda>b. [hex_digit (unat b div 16), hex_digit (unat b mod 16)]) bs)"

text \<open>\<open>rand\<close> stands for \<^verbatim>\<open>rand.Read\<close>: it fails, or fills a buffer of the given length.\<close>

definition randomToken :: "(nat \<Rightarrow> string + 8 word list) \<Rightarrow> nat \<Rightarrow> string + string" where
  "randomToken rand nBytes = res_bind (rand nBytes) (\<lambda>buf. Inr (hex_encode buf))"

definition AddModuleUser ::
  "(nat \<Rightarrow> string + 8 word list) \<Rightarrow> builder \<Rightarrow> string \<Rightarrow> string \<Rightarrow> module_permissions
    \<Rightarrow> (auth_error + credentials) \<times> builder" where
  "AddModuleUser rand b moduleID roverID perms =
     (let username = ''module-'' @ moduleID in
      if username \<in> bByName b then (Inl (ErrDuplicateModule moduleID), b)
      else case randomToken rand 32 of
        Inl msg \<Rightarrow> (Inl (ErrGeneratePassword msg), b)
      | Inr password \<Rightarrow>
          let pub = ''_INBOX.>'' # substituteRoverID (Publish perms) roverID;
              sub = ''_INBOX.>'' # substituteRoverID (Subscribe perms) roverID;
              u = \<lparr>uUsername = username, uPassword = password, uAllow = Some (pub, sub)\<rparr>
          in (Inr \<lparr>cUsername = username, cPassword = password\<rparr>,
              b \<lparr>bUsers := bUsers b @ [u], bByName := insert username (bByName b)\<rparr>))"

definition HasUser :: "builder \<Rightarrow> string \<Rightarrow> bool" where
  "HasUser b moduleID \<longleftrightarrow> ''module-'' @ moduleID \<in> bByName b"

definition Build :: "builder \<Rightarrow> nats_user list \<times> string" where
  "Build b = (bUsers b, DefaultUsername)"


section \<open>The builder invariant\<close>

text \<open>The name index is exactly the set of user names, names are unique, the default user comes
  first and is the only one without an allow-list, and every other user is a module user whose
  allow-lists open with the reply inbox.\<close>

definition builder_inv :: "builder \<Rightarrow> bool" where
  "builder_inv b \<longleftrightarrow>
     bByName b = uUsername ` set (bUsers b) \<and> distinct (map uUsername (bUsers b)) \<and>
     (\<exists>us. bUsers b = \<lparr>uUsername = DefaultUsername, uPassword = '''', uAllow = None\<rparr> # us \<and>
        (\<forall>u \<in> set us. \<exists>i pub sub. uUsername u = ''module-'' @ i \<and>
           uAllow u = Some (''_INBOX.>'' # pub, ''_INBOX.>'' # sub)))"

lemma NewBuilder_inv: "builder_inv NewBuilder"
  by (simp add: builder_inv_def NewBuilder_def)

lemma AddModuleUser_cases:
  obtains (dup) "AddModuleUser rand b i r p = (Inl (ErrDuplicateModule i), b)" "HasUser b i"
  | (rnd) msg where "AddModuleUser rand b i r p = (Inl (ErrGeneratePassword msg), b)"
      "\<not> HasUser b i" "randomToken rand 32 = Inl msg"
  | (ok) pw where "\<not> HasUser b i" "randomToken rand 32 = Inr pw"
      "AddModuleUser rand b i r p = (Inr \<lparr>cUsername = ''module-'' @ i, cPassword = pw\<rparr>,
        b \<lparr>bUsers := bUsers b @ [\<lparr>uUsername = ''module-'' @ i, uPassword = pw,
             uAllow = Some (''_INBOX.>'' # substituteRoverID (Publish p) r,
                            ''_INBOX.>'' # substituteRoverID (Subscribe p) r)\<rparr>],
           bByName := insert (''module-'' @ i) (bByName b)\<rparr>)"
proof (cases "HasUser b i")
  case True
  then show thesis by (intro dup) (simp_all add: AddModuleUser_def HasUser_def)
next
  case False
  show thesis
  proof (cases "randomToken rand 32")
    case (Inl msg)
    with False show thesis by (intro rnd) (simp_all add: AddModuleUser_def HasUser_def)
  next
    case (Inr pw)
    with False show thesis by (intro ok) (simp_all add: AddModuleUser_def HasUser_def Let_def)
  qed
qed

lemma AddModuleUser_inv:
  assumes "builder_inv b"
  shows "builder_inv (snd (AddModuleUser rand b i r p))"
proof (cases rule: AddModuleUser_cases [of rand b i r p])
  case (ok pw)
  with assms show ?thesis
    by (auto simp: builder_inv_def HasUser_def image_iff)
qed (use assms in simp_all)

text \<open>The users a sequence of provisioning calls leaves behind.\<close>

definition add_all ::
  "(nat \<Rightarrow> string + 8 word list) \<Rightarrow> string \<Rightarrow> builder \<Rightarrow> (string \<times> module_permissions) list \<Rightarrow> builder"
where
  "add_all rand r b ms = foldl (\<lambda>b mp. snd (AddModuleUser rand b (fst mp) r (snd mp))) b ms"

lemma add_all_inv: "builder_inv b \<Longrightarrow> builder_inv (add_all rand r b ms)"
  unfolding add_all_def by (induction ms arbitrary: b) (auto intro: AddModuleUser_inv)

section \<open>Isolation of modules\<close>

text \<open>
  The server decides which subjects an allow-list entry covers. What isolation relies on is the
  documented rule that a token other than the wildcards matches only itself: an entry that starts
  with wildcard-free tokens covers only subjects that start with the same tokens.
\<close>

definition literal_tokens :: "(string \<Rightarrow> string \<Rightarrow> bool) \<Rightarrow> bool" where
  "literal_tokens covers \<longleftrightarrow>
     (\<forall>p q s. CHR ''*'' \<notin> set p \<and> CHR ''>'' \<notin> set p \<and> covers (p @ ''.'' @ q) s \<longrightarrow>
        (\<exists>t. s = p @ ''.'' @ t))"

lemma validModuleName_chars:
  assumes "validModuleName n" and "c \<in> {CHR ''.'', CHR ''*'', CHR ''>''}"
  shows "c \<notin> set n"
proof -
  have "is_lower x \<or> name_char x" if "x \<in> set n" for x
    using assms(1) that by (auto simp: validModuleName_def list_all_iff split: list.splits)
  moreover have "\<not> (is_lower c \<or> name_char c)"
    using assms(2) by (auto simp: name_char_def is_lower_def is_digit_char_def)
  ultimately show ?thesis by blast
qed

lemma ParseManifest_valid_name: "ParseManifest decode data = Inr m \<Longrightarrow> validModuleName (mName m)"
  by (erule ParseManifest_shape) (simp add: validate_raw_None manifest_of_raw_def)

definition rover_base :: "string \<Rightarrow> string \<Rightarrow> string" where
  "rover_base r n = ''waypoint.'' @ r @ ''.module.'' @ n"

lemma substituted_in_base:
  assumes "in_sandbox n ps" "validModuleName n" "p \<in> set (substituteRoverID ps r)"
  shows "\<exists>t. p = rover_base r n @ ''.'' @ t"
proof -
  from assms(1,3) obtain leaf where
    "p = replace_char (sandbox_base n @ leaf) (CHR ''*'') r"
    by (auto simp: substituteRoverID_def in_sandbox_def)
  moreover have "replace_char (sandbox_base n) (CHR ''*'') r = rover_base r n @ ''.''"
    using replace_char_absent [OF validModuleName_chars, of n "CHR ''*''"] assms(2)
    by (simp add: sandbox_base_def rover_base_def) (simp add: replace_char_def)
  ultimately show ?thesis by simp
qed

lemma dotted_prefix_unique:
  assumes "n @ CHR ''.'' # t = n' @ CHR ''.'' # t'" "CHR ''.'' \<notin> set n" "CHR ''.'' \<notin> set n'"
  shows "n = n'"
proof -
  have "takeWhile (\<lambda>c. c \<noteq> CHR ''.'') (x @ CHR ''.'' # y) = x" if "CHR ''.'' \<notin> set x" for x y :: string
    using that by (simp add: takeWhile_append)
  from arg_cong [OF assms(1), of "takeWhile (\<lambda>c. c \<noteq> CHR ''.'')"] this [OF assms(2)] this [OF assms(3)]
  show ?thesis by simp
qed

definition granted :: "manifest \<Rightarrow> string \<Rightarrow> string set" where
  "granted m r = set (substituteRoverID (Publish (ManifestAuthPermissions m)) r) \<union>
                 set (substituteRoverID (Subscribe (ManifestAuthPermissions m)) r)"

lemma granted_covers_base:
  assumes "ParseManifest decode data = Inr m" "p \<in> granted m r" "literal_tokens covers" "covers p s"
    "CHR ''*'' \<notin> set r" "CHR ''>'' \<notin> set r"
  shows "\<exists>t. s = rover_base r (mName m) @ ''.'' @ t"
proof -
  note v = ParseManifest_valid_name [OF assms(1)]
  have "\<exists>t. p = rover_base r (mName m) @ ''.'' @ t"
    using manifest_perms_in_sandbox [OF assms(1)] assms(2) substituted_in_base [OF _ v]
    by (auto simp: granted_def perms_in_sandbox_def)
  moreover have "CHR ''*'' \<notin> set (rover_base r (mName m))" "CHR ''>'' \<notin> set (rover_base r (mName m))"
    using assms(5,6) validModuleName_chars [OF v] by (simp_all add: rover_base_def)
  ultimately show ?thesis
    using assms(3,4) unfolding literal_tokens_def by blast
qed


text \<open>A token matcher with the two wildcards, for concrete runs.\<close>

fun tokens_cover :: "string list \<Rightarrow> string list \<Rightarrow> bool" where
  "tokens_cover [] ts = (ts = [])"
| "tokens_cover (p # ps) [] = False"
| "tokens_cover (p # ps) (t # ts) =
     (if p = ''>'' \<and> ps = [] then True else (p = ''*'' \<or> p = t) \<and> tokens_cover ps ts)"

definition subject_covers :: "string \<Rightarrow> string \<Rightarrow> bool" where
  "subject_covers p s \<longleftrightarrow> tokens_cover (split_at_char (CHR ''.'') p) (split_at_char (CHR ''.'') s)"

lemma split_at_char_dot: "split_at_char c (p @ c # q) = split_at_char c p @ split_at_char c q"
  by (induction p) (auto split: list.splits)

lemma split_at_char_chars: "t \<in> set (split_at_char c s) \<Longrightarrow> x \<in> set t \<Longrightarrow> x \<in> set s"
  by (induction s arbitrary: t) (fastforce split: list.splits if_splits)+

lemma tokens_cover_literal:
  "\<forall>p \<in> set ps. p \<noteq> ''*'' \<and> p \<noteq> ''>'' \<Longrightarrow> tokens_cover (ps @ qs) ts \<Longrightarrow> \<exists>us. ts = ps @ us \<and> tokens_cover qs us"
proof (induction ps arbitrary: ts)
  case (Cons p ps)
  then show ?case by (cases ts) auto
qed simp

lemma join_char_append:
  "ts \<noteq> [] \<Longrightarrow> us \<noteq> [] \<Longrightarrow> join_char c (ts @ us) = join_char c ts @ c # join_char c us"
  by (induction c ts rule: join_char.induct) (auto simp: neq_Nil_conv)

lemma subject_covers_literal: "literal_tokens subject_covers"
  unfolding literal_tokens_def
proof (intro allI impI, elim conjE)
  fix p q s assume *: "CHR ''*'' \<notin> set p" "CHR ''>'' \<notin> set p" "subject_covers (p @ ''.'' @ q) s"
  let ?sp = "split_at_char (CHR ''.'')"
  have "t \<noteq> ''*'' \<and> t \<noteq> ''>''" if "t \<in> set (?sp p)" for t
    using *(1,2) split_at_char_chars [OF that] by auto
  then have "\<forall>t \<in> set (?sp p). t \<noteq> ''*'' \<and> t \<noteq> ''>''" by blast
  moreover have "tokens_cover (?sp p @ ?sp q) (?sp s)"
    using *(3) by (simp add: subject_covers_def split_at_char_dot)
  ultimately obtain us where us: "?sp s = ?sp p @ us" "tokens_cover (?sp q) us"
    using tokens_cover_literal by blast
  have "us \<noteq> []" using us(2) by (cases "?sp q") auto
  then have "join_char (CHR ''.'') (?sp s) = p @ CHR ''.'' # join_char (CHR ''.'') us"
    unfolding us(1) by (simp add: join_char_append)
  then show "\<exists>t. s = p @ ''.'' @ t" by simp
qed


text \<open>
  Whatever sequence of provisioning calls the agent makes, with failures of the random source
  and repeated module ids included, the server gets users with distinct names, the unnarrowed
  default user exactly once and in front, and an allow-list on every other user.
\<close>

theorem built_users_unique:
  "distinct (map uUsername (fst (Build (add_all rand r NewBuilder ms)))) \<and>
   hd (fst (Build (add_all rand r NewBuilder ms))) =
     \<lparr>uUsername = DefaultUsername, uPassword = '''', uAllow = None\<rparr> \<and>
   filter (\<lambda>u. uAllow u = None) (fst (Build (add_all rand r NewBuilder ms))) =
     [\<lparr>uUsername = DefaultUsername, uPassword = '''', uAllow = None\<rparr>]"
proof -
  have "builder_inv (add_all rand r NewBuilder ms)" by (intro add_all_inv NewBuilder_inv)
  then obtain us where us: "bUsers (add_all rand r NewBuilder ms) =
      \<lparr>uUsername = DefaultUsername, uPassword = '''', uAllow = None\<rparr> # us"
    "\<forall>u \<in> set us. uAllow u \<noteq> None" "distinct (map uUsername (bUsers (add_all rand r NewBuilder ms)))"
    unfolding builder_inv_def by fastforce
  then have "filter (\<lambda>u. uAllow u = None) us = []" by (simp add: filter_empty_conv)
  with us show ?thesis by (simp add: Build_def)
qed

end
