(* ===== verification/Effects.thy ===== *)
theory Effects
  imports Prelude "HOL-Library.State_Monad"
begin

text \<open>
  Effectful Go code as state transformers. A computation works on a pair of the program's own state
  and a log of the calls it made to the outside (newest first); the outside answers a call with a
  result that may depend on everything called before. The second half is the rule set the component
  proofs use: Hoare triples, and computations that only add calls of a given kind to the log.
\<close>

section \<open>Computations\<close>

type_synonym ('s, 'c, 'a) eff = "('s \<times> 'c list, 'a) state"

abbreviation ret :: "'a \<Rightarrow> ('s, 'a) state" where
  "ret \<equiv> State_Monad.return"

text \<open>Call the outside and log the call.\<close>

definition perform :: "('c list \<Rightarrow> 'c \<Rightarrow> 'r) \<Rightarrow> 'c \<Rightarrow> ('s, 'c, 'r) eff" where
  "perform answer c = State (\<lambda>(s, l). (answer l c, (s, c # l)))"

definition gets :: "('s \<Rightarrow> 'a) \<Rightarrow> ('s, 'c, 'a) eff" where
  "gets f = State (\<lambda>(s, l). (f s, (s, l)))"

definition modify :: "('s \<Rightarrow> 's) \<Rightarrow> ('s, 'c, unit) eff" where
  "modify f = State (\<lambda>(s, l). ((), (f s, l)))"

text \<open>\<^verbatim>\<open>if err := c(); err != nil { return wrap(err) }\<close> followed by the rest.\<close>

definition try_then :: "('w, 'x option) state \<Rightarrow> ('x \<Rightarrow> 'e) \<Rightarrow> ('w, 'e option) state \<Rightarrow> ('w, 'e option) state" where
  "try_then c wrap k = do { e \<leftarrow> c; case e of Some x \<Rightarrow> ret (Some (wrap x)) | None \<Rightarrow> k }"

text \<open>A loop whose body may return early with an error.\<close>

fun each :: "('a \<Rightarrow> ('w, 'e option) state) \<Rightarrow> 'a list \<Rightarrow> ('w, 'e option) state" where
  "each f [] = ret None"
| "each f (x # xs) = try_then (f x) id (each f xs)"

text \<open>\<^verbatim>\<open>if cond { c() }\<close>\<close>

definition when_eff :: "bool \<Rightarrow> ('w, 'e option) state \<Rightarrow> ('w, 'e option) state" where
  "when_eff b c = (if b then c else ret None)"

lemma run_perform [simp]: "run_state (perform answer c) (s, l) = (answer l c, (s, c # l))"
  by (simp add: perform_def)

lemma run_gets [simp]: "run_state (gets f) (s, l) = (f s, (s, l))"
  by (simp add: gets_def)

lemma run_modify [simp]: "run_state (modify f) (s, l) = ((), (f s, l))"
  by (simp add: modify_def)

lemma run_try_then [simp]:
  "run_state (try_then c wrap k) w =
     (case run_state c w of (Some x, w') \<Rightarrow> (Some (wrap x), w') | (None, w') \<Rightarrow> run_state k w')"
  by (simp add: try_then_def split: prod.split option.split)

lemma run_when [simp]:
  "run_state (when_eff b c) w = (if b then run_state c w else (None, w))"
  by (simp add: when_eff_def)


section \<open>Hoare triples\<close>

definition valid :: "('w \<Rightarrow> bool) \<Rightarrow> ('w, 'a) state \<Rightarrow> ('a \<Rightarrow> 'w \<Rightarrow> bool) \<Rightarrow> bool" where
  "valid P c Q \<longleftrightarrow> (\<forall>w. P w \<longrightarrow> (case run_state c w of (x, w') \<Rightarrow> Q x w'))"

named_theorems eff_rules \<open>structural rules for triples and for logged calls\<close>

lemma validI: "(\<And>w x w'. P w \<Longrightarrow> run_state c w = (x, w') \<Longrightarrow> Q x w') \<Longrightarrow> valid P c Q"
  by (auto simp: valid_def)

lemma validD: "valid P c Q \<Longrightarrow> P w \<Longrightarrow> run_state c w = (x, w') \<Longrightarrow> Q x w'"
  by (auto simp: valid_def)

lemma valid_weaken:
  "valid P' c Q' \<Longrightarrow> (\<And>w. P w \<Longrightarrow> P' w) \<Longrightarrow> (\<And>x w. Q' x w \<Longrightarrow> Q x w) \<Longrightarrow> valid P c Q"
  by (fastforce simp: valid_def)

lemma valid_bind: "valid P c R \<Longrightarrow> (\<And>x. valid (R x) (f x) Q) \<Longrightarrow> valid P (State_Monad.bind c f) Q"
  by (fastforce simp: valid_def split: prod.splits)

lemma valid_ret: "(\<And>w. P w \<Longrightarrow> Q x w) \<Longrightarrow> valid P (ret x) Q"
  by (simp add: valid_def)

lemma valid_try_then:
  assumes "valid P c (\<lambda>e w. case e of Some x \<Rightarrow> Q (Some (wrap x)) w | None \<Rightarrow> R w)" "valid R k Q"
  shows "valid P (try_then c wrap k) Q"
  unfolding try_then_def
  by (rule valid_bind [OF assms(1)]) (use assms(2) in \<open>auto simp: valid_def split: option.splits\<close>)

lemma valid_when:
  assumes "b \<Longrightarrow> valid P c Q" "\<And>w. \<not> b \<Longrightarrow> P w \<Longrightarrow> Q None w"
  shows "valid P (when_eff b c) Q"
  using assms by (auto simp: when_eff_def valid_def)

text \<open>Loop rule: the invariant holds for the elements already handled.\<close>

lemma valid_each:
  assumes step: "\<And>x ys zs. xs = ys @ x # zs \<Longrightarrow> valid (I ys) (f x) (\<lambda>e w. case e of Some y \<Rightarrow> E y w | None \<Rightarrow> I (ys @ [x]) w)"
  shows "valid (I []) (each f xs) (\<lambda>e w. case e of Some y \<Rightarrow> E y w | None \<Rightarrow> I xs w)"
proof -
  have "valid (I ys) (each f zs) (\<lambda>e w. case e of Some y \<Rightarrow> E y w | None \<Rightarrow> I (ys @ zs) w)"
    if "xs = ys @ zs" for ys zs
    using that
  proof (induction zs arbitrary: ys)
    case Nil
    then show ?case by (simp add: valid_ret)
  next
    case (Cons x zs)
    have snoc: "(ys @ [x]) @ zs = ys @ x # zs" by simp
    with Cons.prems have "xs = (ys @ [x]) @ zs" by simp
    note rest = Cons.IH [OF this, unfolded snoc]
    show ?case
      unfolding each.simps
      by (rule valid_try_then [OF _ rest]) (use step [OF Cons.prems] in \<open>simp cong: option.case_cong\<close>)
  qed
  from this [of "[]" xs, unfolded append_Nil] show ?thesis by simp
qed


section \<open>Computations that only log\<close>

text \<open>The computation leaves the program state alone and adds only calls in \<^term>\<open>A\<close>.\<close>

definition emits :: "('c \<Rightarrow> bool) \<Rightarrow> ('s, 'c, 'a) eff \<Rightarrow> bool" where
  "emits A c \<longleftrightarrow> (\<forall>s l. \<exists>x l'. run_state c (s, l) = (x, (s, l' @ l)) \<and> list_all A l')"

lemma emits_perform [eff_rules]: "A c \<Longrightarrow> emits A (perform answer c)"
  unfolding emits_def by (intro allI exI [of _ "[c]"]) auto

lemma emits_ret [eff_rules]: "emits A (ret x)"
  by (auto simp: emits_def)

lemma emits_gets [eff_rules]: "emits A (gets f)"
  by (auto simp: emits_def)

lemma emits_bind [eff_rules]:
  assumes "emits A c" "\<And>x. emits A (f x)"
  shows "emits A (State_Monad.bind c f)"
  unfolding emits_def
proof (intro allI)
  fix s l
  obtain x l' where 1: "run_state c (s, l) = (x, (s, l' @ l))" "list_all A l'"
    using assms(1) unfolding emits_def by blast
  obtain y l'' where 2: "run_state (f x) (s, l' @ l) = (y, (s, l'' @ l' @ l))" "list_all A l''"
    using assms(2) unfolding emits_def by blast
  show "\<exists>y l'. run_state (State_Monad.bind c f) (s, l) = (y, (s, l' @ l)) \<and> list_all A l'"
    by (rule exI [of _ y], rule exI [of _ "l'' @ l'"]) (use 1 2 in simp)
qed

lemma emits_try_then [eff_rules]: "emits A c \<Longrightarrow> emits A k \<Longrightarrow> emits A (try_then c wrap k)"
  unfolding try_then_def by (intro emits_bind) (auto intro: emits_ret split: option.split)

lemma emits_when [eff_rules]: "(b \<Longrightarrow> emits A c) \<Longrightarrow> emits A (when_eff b c)"
  by (simp add: when_eff_def emits_ret)

lemma emits_each [eff_rules]: "(\<And>x. x \<in> set xs \<Longrightarrow> emits A (f x)) \<Longrightarrow> emits A (each f xs)"
  by (induction xs) (auto intro: emits_ret emits_try_then)

lemma emits_if [eff_rules]: "(b \<Longrightarrow> emits A c) \<Longrightarrow> (\<not> b \<Longrightarrow> emits A d) \<Longrightarrow> emits A (if b then c else d)"
  by simp

lemma emits_option [eff_rules]:
  "(x = None \<Longrightarrow> emits A c) \<Longrightarrow> (\<And>y. x = Some y \<Longrightarrow> emits A (d y)) \<Longrightarrow>
    emits A (case x of None \<Rightarrow> c | Some y \<Rightarrow> d y)"
  by (cases x) auto

lemma emits_sum [eff_rules]:
  "(\<And>y. x = Inl y \<Longrightarrow> emits A (c y)) \<Longrightarrow> (\<And>y. x = Inr y \<Longrightarrow> emits A (d y)) \<Longrightarrow>
    emits A (case x of Inl y \<Rightarrow> c y | Inr y \<Rightarrow> d y)"
  by (cases x) auto

lemma emitsE:
  assumes "emits A c"
  obtains x l' where "run_state c (s, l) = (x, (s, l' @ l))" "list_all A l'"
  using assms unfolding emits_def by blast

lemma emits_weaken: "emits A c \<Longrightarrow> (\<And>x. A x \<Longrightarrow> B x) \<Longrightarrow> emits B c"
  unfolding emits_def by (metis list.pred_mono_strong)

text \<open>A property of state and log that calls in \<^term>\<open>A\<close> cannot destroy survives such a computation.\<close>

lemma valid_emits:
  assumes "emits A c" "\<And>s l a. A a \<Longrightarrow> P (s, l) \<Longrightarrow> P (s, a # l)"
  shows "valid P c (\<lambda>_. P)"
proof (rule validI)
  fix w x w'
  assume P: "P w" and run: "run_state c w = (x, w')"
  obtain s l where w: "w = (s, l)" by (cases w)
  obtain l' where l': "w' = (s, l' @ l)" "list_all A l'"
    using emitsE [OF assms(1), of s l] run w by auto
  from l'(2) have "P (s, l' @ l)"
    by (induction l') (use assms(2) P w in auto)
  with l' show "P w'" by simp
qed

end
