(* ===== verification/Paths.thy ===== *)
theory Paths
  imports Prelude
begin

text \<open>
  The path functions of Go's \<^verbatim>\<open>path/filepath\<close> on a Unix system that the agent uses to place module
  images and runtime files: \<open>Clean\<close>, \<open>Join\<close> and \<open>Dir\<close>. A cleaned path is held as its components. The
  lemmas show what joining plain names gives and that it is injective.
\<close>

section \<open>Clean, Join and Dir\<close>

text \<open>The component loop of \<^verbatim>\<open>Clean\<close>. The accumulator holds the kept components, last one first;
  \<^verbatim>\<open>..\<close> removes the last one, stays at the root, or is kept in front of a relative path.\<close>

fun clean_loop :: "bool \<Rightarrow> string list \<Rightarrow> string list \<Rightarrow> string list" where
  "clean_loop rooted acc [] = rev acc"
| "clean_loop rooted acc (c # cs) =
     (if c = '''' \<or> c = ''.'' then clean_loop rooted acc cs
      else if c = ''..'' then
        (case acc of
           [] \<Rightarrow> clean_loop rooted (if rooted then [] else [''..'']) cs
         | d # ds \<Rightarrow> if d = ''..'' then clean_loop rooted (''..'' # acc) cs else clean_loop rooted ds cs)
      else clean_loop rooted (c # acc) cs)"

definition is_rooted :: "string \<Rightarrow> bool" where
  "is_rooted s \<longleftrightarrow> has_prefix s ''/''"

definition comps :: "string \<Rightarrow> string list" where
  "comps s = clean_loop (is_rooted s) [] (split_at_char (CHR ''/'') s)"

definition show_path :: "bool \<Rightarrow> string list \<Rightarrow> string" where
  "show_path rooted cs =
     (if rooted then CHR ''/'' # join_char (CHR ''/'') cs
      else if cs = [] then ''.'' else join_char (CHR ''/'') cs)"

definition path_clean :: "string \<Rightarrow> string" where
  "path_clean s = show_path (is_rooted s) (comps s)"

text \<open>\<^verbatim>\<open>Join\<close> skips leading empty elements and cleans the rest joined with slashes.\<close>

definition path_join :: "string list \<Rightarrow> string" where
  "path_join es =
     (let es' = dropWhile (\<lambda>e. e = '''') es in
      if es' = [] then '''' else path_clean (join_char (CHR ''/'') es'))"

text \<open>\<^verbatim>\<open>Dir\<close>: everything up to the last slash, cleaned.\<close>

definition path_dir :: "string \<Rightarrow> string" where
  "path_dir s = path_clean (rev (dropWhile (\<lambda>c. c \<noteq> CHR ''/'') (rev s)))"


section \<open>Plain names\<close>

text \<open>A plain name is one path component that means itself.\<close>

definition plain_name :: "string \<Rightarrow> bool" where
  "plain_name c \<longleftrightarrow> c \<noteq> '''' \<and> c \<noteq> ''.'' \<and> c \<noteq> ''..'' \<and> CHR ''/'' \<notin> set c"

lemma clean_loop_plain:
  "(\<forall>c \<in> set cs. plain_name c) \<Longrightarrow> clean_loop rooted acc cs = rev acc @ cs"
  by (induction cs arbitrary: acc) (auto simp: plain_name_def)

lemma clean_loop_append:
  "(\<forall>c \<in> set cs. plain_name c) \<Longrightarrow> clean_loop rooted acc (ds @ cs) = clean_loop rooted acc ds @ cs"
  by (induction rooted acc ds rule: clean_loop.induct) (auto simp: clean_loop_plain split: list.splits)

lemma split_join_append:
  "c \<notin> set t \<Longrightarrow> split_at_char c (s @ c # t) = split_at_char c s @ [t]"
  by (induction s) (auto simp: split_at_char_free split: list.splits)

lemma comps_extend:
  assumes "s \<noteq> ''''" "plain_name c"
  shows "comps (s @ CHR ''/'' # c) = comps s @ [c]" "is_rooted (s @ CHR ''/'' # c) = is_rooted s"
proof -
  show r: "is_rooted (s @ CHR ''/'' # c) = is_rooted s"
    using assms(1) by (cases s) (simp_all add: is_rooted_def has_prefix_def)
  have "CHR ''/'' \<notin> set c" using assms(2) by (simp add: plain_name_def)
  with assms(2) show "comps (s @ CHR ''/'' # c) = comps s @ [c]"
    unfolding comps_def r by (simp add: split_join_append clean_loop_append)
qed

lemma path_join_plain:
  assumes "base \<noteq> ''''" "\<forall>c \<in> set cs. plain_name c"
  shows "path_join (base # cs) = show_path (is_rooted base) (comps base @ cs)"
proof -
  have "comps (join_char (CHR ''/'') (base # cs)) = comps base @ cs \<and>
        is_rooted (join_char (CHR ''/'') (base # cs)) = is_rooted base"
    using assms(2)
  proof (induction cs rule: rev_induct)
    case (snoc c cs)
    have "join_char x (ts @ [t]) = join_char x ts @ x # t" if "ts \<noteq> []" for x t and ts :: "string list"
      using that by (induction x ts rule: join_char.induct) (auto simp: neq_Nil_conv)
    then have j: "join_char (CHR ''/'') (base # cs @ [c]) = join_char (CHR ''/'') (base # cs) @ CHR ''/'' # c"
      by (metis append_Cons list.distinct(1))
    have "join_char (CHR ''/'') (base # cs) \<noteq> ''''" using assms(1) by (cases cs) auto
    with snoc comps_extend [of "join_char (CHR ''/'') (base # cs)" c] show ?case
      unfolding j by (simp add: plain_name_def)
  qed simp
  with assms(1) show ?thesis by (simp add: path_join_def path_clean_def)
qed

lemma clean_loop_set: "set (clean_loop r acc cs) \<subseteq> insert ''..'' (set acc \<union> set cs)"
proof (induction cs arbitrary: acc)
  case (Cons c cs)
  have "set (clean_loop r acc (c # cs)) \<subseteq> insert ''..'' (set acc \<union> set (c # cs))" if "c \<noteq> ''..''"
    using that Cons.IH [of acc] Cons.IH [of "c # acc"] by auto
  moreover have "set (clean_loop r acc (''..'' # cs)) \<subseteq> insert ''..'' (set acc \<union> set cs)"
  proof (cases acc)
    case Nil
    then show ?thesis using Cons.IH [of "[]"] Cons.IH [of "[''..'']"] by (cases r) simp_all
  next
    case acc: (Cons d ds)
    then show ?thesis using Cons.IH [of ds] Cons.IH [of "''..'' # acc"] by auto
  qed
  ultimately show ?case by (cases "c = ''..''") auto
qed auto

lemma comps_no_slash:
  assumes "c \<in> set (comps s)"
  shows "CHR ''/'' \<notin> set c"
proof -
  have "c \<in> insert ''..'' (set (split_at_char (CHR ''/'') s))"
    using assms clean_loop_set [of "is_rooted s" "[]" "split_at_char (CHR ''/'') s"]
    by (auto simp: comps_def)
  then show ?thesis using split_at_char_sep_free [of c "CHR ''/''" s] by auto
qed

lemma show_path_inj:
  assumes "show_path r cs = show_path r ds" "cs \<noteq> []" "ds \<noteq> []"
    "\<forall>c \<in> set cs. CHR ''/'' \<notin> set c" "\<forall>c \<in> set ds. CHR ''/'' \<notin> set c"
  shows "cs = ds"
proof -
  have "join_char (CHR ''/'') cs = join_char (CHR ''/'') ds"
    using assms(1-3) by (simp add: show_path_def split: if_splits)
  with split_join_char [OF assms(2,4)] split_join_char [OF assms(3,5)] show ?thesis by metis
qed


lemma clean_loop_nonempty: "'''' \<notin> set acc \<Longrightarrow> '''' \<notin> set (clean_loop r acc cs)"
  by (induction r acc cs rule: clean_loop.induct) (auto split: list.splits)

lemma path_clean_nonempty [simp]: "path_clean s \<noteq> ''''"
proof -
  have "'''' \<notin> set (comps s)" by (simp add: comps_def clean_loop_nonempty)
  then have "join_char (CHR ''/'') (comps s) \<noteq> ''''" if "comps s \<noteq> []"
    using that by (cases "comps s" rule: list.exhaust; cases "tl (comps s)") auto
  then show ?thesis by (simp add: path_clean_def show_path_def)
qed

lemma path_join_nonempty: "\<exists>e \<in> set es. e \<noteq> '''' \<Longrightarrow> path_join es \<noteq> ''''"
  by (auto simp: path_join_def Let_def)

end
