(* ===== verification/Desired.thy ===== *)
theory Desired
  imports Prelude
begin

text \<open>
  The desired module sets of the agent: \<^verbatim>\<open>agent/internal/modules/local.go\<close> (merging the
  proxy's set with the locally installed one, the trust pins) and \<^verbatim>\<open>desired.go\<close> (the cache files),
  with \<^verbatim>\<open>SigningIdentity\<close> of \<^verbatim>\<open>modverify/identity.go\<close>. A nil set is \<open>None\<close>; the clock, the file system and
  the codecs are arguments. The lemmas show the store laws, that local entries win, and what a pin
  accepts.
\<close>

section \<open>Sets of desired modules\<close>

record module_desired =
  mdId :: string
  mdVersion :: string
  mdRawUrl :: string
  mdRawSha256 :: string
  mdConfigToml :: string

record desired_set =
  dsT :: "time option"
  dsModules :: "module_desired list"

definition empty_set :: desired_set where
  "empty_set = \<lparr>dsT = None, dsModules = []\<rparr>"

text \<open>\<^verbatim>\<open>GetModules\<close> of a nil message is empty.\<close>

definition modules_of :: "desired_set option \<Rightarrow> module_desired list" where
  "modules_of s = (case s of None \<Rightarrow> [] | Some d \<Rightarrow> dsModules d)"

text \<open>The two loops of \<^verbatim>\<open>mergeDesired\<close>: local entries are all taken and their ids recorded, proxy
  entries only when the id is not recorded.\<close>

definition mergeDesired :: "time \<Rightarrow> desired_set option \<Rightarrow> desired_set option \<Rightarrow> desired_set" where
  "mergeDesired now proxy local =
     (let seen = map mdId (modules_of local) in
      \<lparr>dsT = Some now,
       dsModules = modules_of local @ filter (\<lambda>m. mdId m \<notin> set seen) (modules_of proxy)\<rparr>)"

fun replace_first :: "module_desired list \<Rightarrow> module_desired \<Rightarrow> module_desired list option" where
  "replace_first [] m = None"
| "replace_first (e # es) m =
     (if mdId e = mdId m then Some (m # es)
      else map_option (\<lambda>es'. e # es') (replace_first es m))"

definition upsertModule :: "desired_set option \<Rightarrow> module_desired \<Rightarrow> desired_set" where
  "upsertModule s m =
     (let s' = (case s of None \<Rightarrow> empty_set | Some d \<Rightarrow> d) in
      case replace_first (dsModules s') m of
        Some ms \<Rightarrow> s' \<lparr>dsModules := ms\<rparr>
      | None \<Rightarrow> s' \<lparr>dsModules := dsModules s' @ [m]\<rparr>)"

definition removeModule :: "desired_set option \<Rightarrow> string \<Rightarrow> desired_set" where
  "removeModule s i =
     (case s of
        None \<Rightarrow> empty_set
      | Some d \<Rightarrow> \<lparr>dsT = dsT d, dsModules = filter (\<lambda>m. mdId m \<noteq> i) (dsModules d)\<rparr>)"

definition containsModule :: "desired_set option \<Rightarrow> string \<Rightarrow> bool" where
  "containsModule s i \<longleftrightarrow> list_ex (\<lambda>m. mdId m = i) (modules_of s)"


section \<open>The cache files\<close>

datatype io_error = IONotExist | IOError string

datatype store_error =
    ErrMarshal string | ErrMkdir string | ErrWriteTmp string | ErrRename string
  | ErrRead string | ErrUnmarshal string

text \<open>What is on disk, by path. \<open>ioerr\<close> decides whether a call fails; a failed call changes nothing.\<close>

type_synonym 'c disk = "string \<Rightarrow> 'c option"

datatype disk_call = Mkdir string | WriteFile string | Rename string string | ReadFile string

definition WriteDesiredCache ::
  "(disk_call \<Rightarrow> string option) \<Rightarrow> (desired_set \<Rightarrow> string + 'c) \<Rightarrow> string \<Rightarrow> string \<Rightarrow> desired_set \<Rightarrow> 'c disk
    \<Rightarrow> store_error option \<times> 'c disk" where
  "WriteDesiredCache ioerr marshal dir path ds disk =
     (case marshal ds of
        Inl e \<Rightarrow> (Some (ErrMarshal e), disk)
      | Inr bs \<Rightarrow>
          (case ioerr (Mkdir dir) of
             Some e \<Rightarrow> (Some (ErrMkdir e), disk)
           | None \<Rightarrow>
               let tmp = path @ ''.tmp'' in
               (case ioerr (WriteFile tmp) of
                  Some e \<Rightarrow> (Some (ErrWriteTmp e), disk)
                | None \<Rightarrow>
                    let disk1 = disk(tmp := Some bs) in
                    (case ioerr (Rename tmp path) of
                       Some e \<Rightarrow> (Some (ErrRename e), disk1)
                     | None \<Rightarrow> (None, disk1(tmp := None, path := Some bs))))))"

definition ReadDesiredCache ::
  "(disk_call \<Rightarrow> string option) \<Rightarrow> ('c \<Rightarrow> string + desired_set) \<Rightarrow> string \<Rightarrow> 'c disk \<Rightarrow> store_error + desired_set" where
  "ReadDesiredCache ioerr unmarshal path disk =
     (case disk path of
        None \<Rightarrow> Inr empty_set
      | Some bs \<Rightarrow>
          (case ioerr (ReadFile path) of
             Some e \<Rightarrow> Inl (ErrRead e)
           | None \<Rightarrow> (case unmarshal bs of Inl e \<Rightarrow> Inl (ErrUnmarshal e) | Inr s \<Rightarrow> Inr s)))"


section \<open>Trust pins\<close>

text \<open>The part of a signer name before the first at-sign; the whole name without one.\<close>

definition SigningIdentity :: "string \<Rightarrow> string" where
  "SigningIdentity san = takeWhile (\<lambda>c. c \<noteq> CHR ''@'') san"

datatype trust_error = ErrSANMismatch | ErrReadTrust string | ErrDecodeTrust string | ErrWriteTrust string

type_synonym trust_file = "(string \<times> string) list"

text \<open>\<open>readf\<close> gives the file's bytes, and \<open>decode\<close> its \<^verbatim>\<open>pins\<close> table, \<open>None\<close> when the table is absent.\<close>

definition readTrust ::
  "(string \<Rightarrow> io_error + string) \<Rightarrow> (string \<Rightarrow> string + trust_file option) \<Rightarrow> string \<Rightarrow> trust_error + trust_file" where
  "readTrust readf decode path =
     (case readf path of
        Inl IONotExist \<Rightarrow> Inr []
      | Inl (IOError e) \<Rightarrow> Inl (ErrReadTrust e)
      | Inr data \<Rightarrow>
          (case decode data of
             Inl e \<Rightarrow> Inl (ErrDecodeTrust e)
           | Inr None \<Rightarrow> Inr []
           | Inr (Some pins) \<Rightarrow> Inr pins))"

definition CheckPinnedSAN :: "trust_error + trust_file \<Rightarrow> string \<Rightarrow> string \<Rightarrow> trust_error option" where
  "CheckPinnedSAN tf i san =
     (case tf of
        Inl e \<Rightarrow> Some e
      | Inr pins \<Rightarrow>
          (case map_of pins i of
             Some pinned \<Rightarrow> if SigningIdentity pinned \<noteq> SigningIdentity san then Some ErrSANMismatch else None
           | None \<Rightarrow> None))"

text \<open>\<open>PinSAN\<close> gives the pins to write back; the two file operations that follow may fail.\<close>

definition PinSAN ::
  "(trust_file \<Rightarrow> string option) \<Rightarrow> trust_error + trust_file \<Rightarrow> string \<Rightarrow> string \<Rightarrow> trust_error + trust_file" where
  "PinSAN write_err tf i san =
     (case tf of
        Inl e \<Rightarrow> Inl e
      | Inr pins \<Rightarrow>
          let pins' = map_set i (SigningIdentity san) pins in
          (case write_err pins' of Some e \<Rightarrow> Inl (ErrWriteTrust e) | None \<Rightarrow> Inr pins'))"

definition hasPin :: "trust_error + trust_file \<Rightarrow> string \<Rightarrow> bool" where
  "hasPin tf i = (case tf of Inl e \<Rightarrow> False | Inr pins \<Rightarrow> map_of pins i \<noteq> None)"


section \<open>Laws of the module store\<close>

definition ds_ids :: "desired_set option \<Rightarrow> string list" where
  "ds_ids s = map mdId (modules_of s)"

text \<open>The entry a set holds for an id: the first one.\<close>

definition ds_lookup :: "desired_set option \<Rightarrow> string \<Rightarrow> module_desired option" where
  "ds_lookup s i = find (\<lambda>m. mdId m = i) (modules_of s)"

lemma find_append: "find P (xs @ ys) = (case find P xs of Some x \<Rightarrow> Some x | None \<Rightarrow> find P ys)"
  by (induction xs) auto

lemma find_filter_other: "(\<And>x. P x \<Longrightarrow> Q x) \<Longrightarrow> find P (filter Q xs) = find P xs"
  by (induction xs) auto

lemma find_None_id: "find (\<lambda>m. mdId m = i) ms = None \<longleftrightarrow> i \<notin> mdId ` set ms"
  by (auto simp: find_None_iff)

lemma replace_first_None: "replace_first ms m = None \<longleftrightarrow> mdId m \<notin> mdId ` set ms"
  by (induction ms) auto

lemma replace_first_Some:
  "replace_first ms m = Some ms' \<Longrightarrow> map mdId ms' = map mdId ms \<and>
     find (\<lambda>e. mdId e = i) ms' = (if i = mdId m then Some m else find (\<lambda>e. mdId e = i) ms)"
proof (induction ms arbitrary: ms')
  case (Cons e ms)
  show ?case
  proof (cases "mdId e = mdId m")
    case True
    with Cons.prems show ?thesis by auto
  next
    case False
    with Cons.prems obtain ms1 where "replace_first ms m = Some ms1" "ms' = e # ms1" by auto
    with Cons.IH [of ms1] False show ?thesis by auto
  qed
qed simp

lemma modules_of_upsert:
  "modules_of (Some (upsertModule s m)) =
     (case replace_first (modules_of s) m of Some ms \<Rightarrow> ms | None \<Rightarrow> modules_of s @ [m])"
  by (cases s) (auto simp: modules_of_def upsertModule_def empty_set_def Let_def split: option.splits)

text \<open>
  What a set of modules promises to its users: insertion, removal, membership and lookup agree, and
  ids stay unique.
\<close>

locale module_store =
  fixes upsert :: "'s \<Rightarrow> 'm \<Rightarrow> 's"
    and remove :: "'s \<Rightarrow> string \<Rightarrow> 's"
    and member :: "'s \<Rightarrow> string \<Rightarrow> bool"
    and look :: "'s \<Rightarrow> string \<Rightarrow> 'm option"
    and uniq :: "'s \<Rightarrow> bool"
    and key :: "'m \<Rightarrow> string"
  assumes look_upsert: "look (upsert s m) i = (if i = key m then Some m else look s i)"
    and look_remove: "look (remove s j) i = (if i = j then None else look s i)"
    and member_look: "member s i \<longleftrightarrow> look s i \<noteq> None"
    and look_key: "look s i = Some m \<Longrightarrow> key m = i"
    and uniq_upsert: "uniq s \<Longrightarrow> uniq (upsert s m)"
    and uniq_remove: "uniq s \<Longrightarrow> uniq (remove s i)"
begin

lemma member_upsert: "member (upsert s m) i \<longleftrightarrow> i = key m \<or> member s i"
  by (simp add: member_look look_upsert)

lemma member_remove: "member (remove s j) i \<longleftrightarrow> i \<noteq> j \<and> member s i"
  by (simp add: member_look look_remove)

lemma upsert_twice: "look (upsert (upsert s m) m') i = look (upsert s m') i" if "key m = key m'"
  using that by (simp add: look_upsert)

lemma remove_upsert: "look (remove (upsert s m) (key m)) i = look (remove s (key m)) i"
  by (simp add: look_upsert look_remove)

text \<open>After any history of insertions and removals, the entry of an id is the last one inserted
  after its last removal.\<close>

lemma history_look:
  "look (foldl (\<lambda>s op. case op of Inl m \<Rightarrow> upsert s m | Inr j \<Rightarrow> remove s j) s ops) i =
     foldl (\<lambda>r op. case op of Inl m \<Rightarrow> if key m = i then Some m else r | Inr j \<Rightarrow> if j = i then None else r)
       (look s i) ops"
  by (induction ops arbitrary: s) (auto simp: look_upsert look_remove split: sum.splits)

lemma history_uniq:
  "uniq s \<Longrightarrow> uniq (foldl (\<lambda>s op. case op of Inl m \<Rightarrow> upsert s m | Inr j \<Rightarrow> remove s j) s ops)"
  by (induction ops arbitrary: s) (auto intro: uniq_upsert uniq_remove split: sum.splits)

end

interpretation desired_store: module_store
  "\<lambda>s m. Some (upsertModule s m)" "\<lambda>s i. Some (removeModule s i)" containsModule ds_lookup
  "\<lambda>s. distinct (ds_ids s)" mdId
proof
  fix s m i
  show "ds_lookup (Some (upsertModule s m)) i = (if i = mdId m then Some m else ds_lookup s i)"
  proof (cases "replace_first (modules_of s) m")
    case None
    then have "mdId m \<notin> mdId ` set (modules_of s)" by (simp add: replace_first_None)
    then have "find (\<lambda>e. mdId e = mdId m) (modules_of s) = None" by (simp add: find_None_id)
    with None show ?thesis
      unfolding ds_lookup_def modules_of_upsert by (auto simp: find_append split: option.splits)
  next
    case (Some ms)
    then show ?thesis
      unfolding ds_lookup_def modules_of_upsert using replace_first_Some [OF Some, of i] by simp
  qed
next
  fix s i j
  have "find (\<lambda>m. mdId m = i) (filter (\<lambda>m. mdId m \<noteq> j) ms) =
      (if i = j then None else find (\<lambda>m. mdId m = i) ms)" for ms
    by (induction ms) auto
  then show "ds_lookup (Some (removeModule s j)) i = (if i = j then None else ds_lookup s i)"
    by (cases s) (auto simp: ds_lookup_def removeModule_def modules_of_def empty_set_def)
next
  fix s i
  show "containsModule s i = (ds_lookup s i \<noteq> None)"
    by (auto simp: containsModule_def ds_lookup_def find_None_iff list_ex_iff)
next
  fix s i m assume "ds_lookup s i = Some m"
  then show "mdId m = i" by (auto simp: ds_lookup_def find_Some_iff)
next
  fix s m assume d: "distinct (ds_ids s)"
  show "distinct (ds_ids (Some (upsertModule s m)))"
  proof (cases "replace_first (modules_of s) m")
    case None
    then have "mdId m \<notin> mdId ` set (modules_of s)" by (simp add: replace_first_None)
    with None d show ?thesis unfolding ds_ids_def modules_of_upsert by simp
  next
    case (Some ms)
    with d replace_first_Some [OF Some] show ?thesis unfolding ds_ids_def modules_of_upsert by simp
  qed
next
  fix s i assume "distinct (ds_ids s)"
  then show "distinct (ds_ids (Some (removeModule s i)))"
    by (cases s) (auto simp: ds_ids_def removeModule_def modules_of_def empty_set_def distinct_map_filter)
qed

text \<open>
  The merged set is the union of both sets with local entries first in line: looking up an id
  gives the local entry when there is one and the proxy's otherwise, and ids stay unique.
\<close>

theorem merge_local_wins:
  "ds_lookup (Some (mergeDesired now proxy local)) = ds_lookup proxy ++ ds_lookup local \<and>
   (distinct (ds_ids proxy) \<and> distinct (ds_ids local) \<longrightarrow> distinct (ds_ids (Some (mergeDesired now proxy local))))"
proof
  show "ds_lookup (Some (mergeDesired now proxy local)) = ds_lookup proxy ++ ds_lookup local"
  proof
    fix i
    let ?P = "\<lambda>m. mdId m = i" and ?Q = "\<lambda>m. mdId m \<notin> set (map mdId (modules_of local))"
    have "find ?P (filter ?Q (modules_of proxy)) = find ?P (modules_of proxy)"
      if "find ?P (modules_of local) = None"
      using that by (intro find_filter_other) (simp add: find_None_id)
    then show "ds_lookup (Some (mergeDesired now proxy local)) i = (ds_lookup proxy ++ ds_lookup local) i"
      by (simp add: ds_lookup_def mergeDesired_def Let_def modules_of_def [of "Some _"] find_append
          map_add_def split: option.splits)
  qed
next
  show "distinct (ds_ids proxy) \<and> distinct (ds_ids local) \<longrightarrow> distinct (ds_ids (Some (mergeDesired now proxy local)))"
    by (auto simp: ds_ids_def mergeDesired_def Let_def modules_of_def [of "Some _"] distinct_map_filter image_iff)
qed

definition demo_module :: "string \<Rightarrow> string \<Rightarrow> module_desired" where
  "demo_module i v = \<lparr>mdId = i, mdVersion = v, mdRawUrl = '''', mdRawSha256 = '''', mdConfigToml = ''''\<rparr>"

theorem merge_local_wins_witness:
  "distinct (ds_ids (Some (mergeDesired 5 (Some \<lparr>dsT = None, dsModules = [demo_module ''a'' ''1'', demo_module ''b'' ''1'']\<rparr>)
     (Some \<lparr>dsT = None, dsModules = [demo_module ''b'' ''2'']\<rparr>))))"
  using merge_local_wins [of 5 "Some \<lparr>dsT = None, dsModules = [demo_module ''a'' ''1'', demo_module ''b'' ''1'']\<rparr>"
      "Some \<lparr>dsT = None, dsModules = [demo_module ''b'' ''2'']\<rparr>"]
  by (simp add: ds_ids_def modules_of_def demo_module_def)

text \<open>
  C37. The list-backed module store refines a finite map: after any history of installs and
  uninstalls, looking up an id in the store gives what the same updates give on a map, and an
  initially duplicate-free store stays so.
\<close>

theorem desired_store_refines_map:
  "ds_lookup (foldl (\<lambda>s op. case op of Inl m \<Rightarrow> Some (upsertModule s m) | Inr j \<Rightarrow> Some (removeModule s j)) s ops) =
     foldl (\<lambda>f op. case op of Inl m \<Rightarrow> f(mdId m \<mapsto> m) | Inr j \<Rightarrow> f(j := None)) (ds_lookup s) ops \<and>
   (distinct (ds_ids s) \<longrightarrow> distinct (ds_ids
     (foldl (\<lambda>s op. case op of Inl m \<Rightarrow> Some (upsertModule s m) | Inr j \<Rightarrow> Some (removeModule s j)) s ops)))"
proof
  have "ds_lookup (Some (upsertModule s m)) = (ds_lookup s)(mdId m \<mapsto> m)"
    "ds_lookup (Some (removeModule s j)) = (ds_lookup s)(j := None)" for s m j
    by (auto simp: desired_store.look_upsert desired_store.look_remove)
  then show "ds_lookup (foldl (\<lambda>s op. case op of Inl m \<Rightarrow> Some (upsertModule s m) | Inr j \<Rightarrow> Some (removeModule s j)) s ops) =
     foldl (\<lambda>f op. case op of Inl m \<Rightarrow> f(mdId m \<mapsto> m) | Inr j \<Rightarrow> f(j := None)) (ds_lookup s) ops"
    by (induction ops arbitrary: s) (simp_all split: sum.splits)
next
  show "distinct (ds_ids s) \<longrightarrow> distinct (ds_ids
     (foldl (\<lambda>s op. case op of Inl m \<Rightarrow> Some (upsertModule s m) | Inr j \<Rightarrow> Some (removeModule s j)) s ops))"
    using desired_store.history_uniq by blast
qed

theorem desired_store_refines_map_witness:
  "distinct (ds_ids (foldl (\<lambda>s op. case op of Inl m \<Rightarrow> Some (upsertModule s m) | Inr j \<Rightarrow> Some (removeModule s j)) None
     [Inl (demo_module ''a'' ''1''), Inl (demo_module ''a'' ''2''), Inr ''b'']))"
  using desired_store_refines_map [of None "[Inl (demo_module ''a'' ''1''), Inl (demo_module ''a'' ''2''), Inr ''b'']"]
  by (simp add: ds_ids_def modules_of_def)

text \<open>
  The cache file is replaced atomically: a write that reports success makes the next read return
  the written set, and a write that fails at any step leaves the previous file contents in place.
\<close>

theorem desired_cache_atomic:
  assumes "\<forall>ds bs. marshal ds = Inr bs \<longrightarrow> unmarshal bs = Inr ds"
    and "\<forall>p. ioerr (ReadFile p) = None"
    and "WriteDesiredCache ioerr marshal dir path ds disk = (res, disk')"
  shows "(res = None \<longrightarrow> ReadDesiredCache ioerr unmarshal path disk' = Inr ds) \<and>
         (res \<noteq> None \<longrightarrow> disk' path = disk path) \<and>
         (\<forall>q. q \<noteq> path \<and> q \<noteq> path @ ''.tmp'' \<longrightarrow> disk' q = disk q)"
  using assms
  by (auto simp: WriteDesiredCache_def ReadDesiredCache_def Let_def split: sum.splits option.splits)

theorem desired_cache_atomic_witness:
  "ReadDesiredCache (\<lambda>_. None) (\<lambda>ds. Inr ds) ''m.pb''
     (snd (WriteDesiredCache (\<lambda>_. None) (\<lambda>ds. Inr ds) ''/d'' ''m.pb'' empty_set (\<lambda>_. None))) = Inr empty_set"
proof -
  obtain res disk' where w: "WriteDesiredCache (\<lambda>_. None) (\<lambda>ds. Inr ds) ''/d'' ''m.pb'' empty_set (\<lambda>_. None) = (res, disk')"
    by fastforce
  then have "res = None" by (auto simp: WriteDesiredCache_def Let_def)
  with desired_cache_atomic [OF _ _ w, where unmarshal = Inr] w show ?thesis by simp
qed

lemma SigningIdentity_idem [simp]: "SigningIdentity (SigningIdentity s) = SigningIdentity s"
proof -
  have "\<forall>c \<in> set (takeWhile (\<lambda>c. c \<noteq> CHR ''@'') s). c \<noteq> CHR ''@''" by (metis set_takeWhileD)
  then show ?thesis by (simp add: SigningIdentity_def takeWhile_eq_all_conv)
qed

text \<open>
  C24. Trust on first use: an id without a pin accepts any signer; once a signer is pinned, exactly
  the signers with the same workflow identity (the name up to the git ref) are accepted for that id,
  and the pins of other ds_ids are untouched.
\<close>

theorem pin_accepts_same_identity:
  assumes "PinSAN werr (Inr pins) i san = Inr pins'"
  shows "(CheckPinnedSAN (Inr pins') i san' = None \<longleftrightarrow> SigningIdentity san' = SigningIdentity san) \<and>
         hasPin (Inr pins') i \<and>
         (\<forall>j. j \<noteq> i \<longrightarrow> CheckPinnedSAN (Inr pins') j san' = CheckPinnedSAN (Inr pins) j san') \<and>
         (\<not> hasPin (Inr pins) i \<longrightarrow> CheckPinnedSAN (Inr pins) i san' = None)"
  using assms
  by (auto simp: PinSAN_def CheckPinnedSAN_def hasPin_def Let_def split: option.splits if_splits)

theorem pin_accepts_same_identity_witness:
  "CheckPinnedSAN (Inr [(''arm'', ''https://github.com/o/r'')]) ''arm'' ''https://github.com/o/r@refs/tags/v2'' = None"
  using pin_accepts_same_identity [of "\<lambda>_. None" "[]" "''arm''" "''https://github.com/o/r@refs/tags/v1''"
      "[(''arm'', ''https://github.com/o/r'')]" "''https://github.com/o/r@refs/tags/v2''"]
  by (simp add: PinSAN_def SigningIdentity_def)

end
