(* ===== verification/Dropin.thy ===== *)
theory Dropin
  imports Manifest
begin

text \<open>
  The systemd drop-ins rendered for a module, \<^verbatim>\<open>agent/internal/modules/dropin.go\<close>. The decimal
  rendering of a rate (\<^verbatim>\<open>strconv.FormatFloat\<close>) is an argument. The lemmas show which lines a
  drop-in has, that the variables of two components never collide, and that a manifest entry with a
  line break adds lines of its own.
\<close>

section \<open>Rendering\<close>

definition nl :: string where
  "nl = [CHR 0x0A]"

definition hardware_lines :: "hardware \<Rightarrow> (string \<Rightarrow> string) option \<Rightarrow> string list" where
  "hardware_lines h rwSource =
     [''[Service]''] @
     map (\<lambda>d. ''DeviceAllow='' @ d @ '' rw'') (hwDevices h) @
     map (\<lambda>p. ''BindReadOnlyPaths='' @ p) (hwReadOnly h) @
     map (\<lambda>p. ''BindPaths='' @ (case rwSource of None \<Rightarrow> '''' | Some f \<Rightarrow> f p @ '':'') @ p) (hwReadWrite h) @
     concat (map (\<lambda>c. [''AmbientCapabilities=CAP_'' @ c, ''CapabilityBoundingSet=CAP_'' @ c]) (hwCapabilities h))"

text \<open>Every write to the builder ends its line.\<close>

definition unlines :: "string list \<Rightarrow> string" where
  "unlines ls = concat (map (\<lambda>l. l @ nl) ls)"

definition RenderHardwareDropin :: "hardware \<Rightarrow> (string \<Rightarrow> string) option \<Rightarrow> string" where
  "RenderHardwareDropin h rwSource =
     (if hwDevices h = [] \<and> hwReadOnly h = [] \<and> hwReadWrite h = [] \<and> hwCapabilities h = [] then ''''
      else unlines (hardware_lines h rwSource))"

text \<open>\<^verbatim>\<open>strings.ToUpper\<close> on ASCII.\<close>

definition to_upper :: "string \<Rightarrow> string" where
  "to_upper s = map (\<lambda>c. if is_lower c then char_of ((of_char c :: nat) - 32) else c) s"

definition classEnvSuffix :: "string \<Rightarrow> string" where
  "classEnvSuffix cls = to_upper (replace_char cls (CHR ''-'') ''_'')"

definition RenderComponentDropin :: "(f64 \<Rightarrow> string) \<Rightarrow> mod_component list \<Rightarrow> string" where
  "RenderComponentDropin formatRate cs =
     (if cs = [] then ''''
      else unlines (
        [''[Service]'',
         ''Environment=WAYPOINT_MODULE_COMPONENT='' @ cClass (hd cs),
         ''Environment=WAYPOINT_MODULE_STATE_RATE_HZ='' @ formatRate (cStateRateHz (hd cs))] @
        map (\<lambda>c. ''Environment=WAYPOINT_MODULE_STATE_RATE_HZ_'' @ classEnvSuffix (cClass c) @ ''='' @
              formatRate (cStateRateHz c)) cs))"


section \<open>Lines of a drop-in\<close>

lemma ParseManifest_hardware:
  assumes "ParseManifest decode data = Inr m" "decode data = Inr raw"
  shows "mHardware m = rHardware raw"
  by (rule ParseManifest_shape [OF assms(1)]) (use assms(2) in simp)

definition file_lines :: "string \<Rightarrow> string list" where
  "file_lines s = split_at_char (CHR 0x0A) s"

lemma file_lines_unlines:
  "\<forall>l \<in> set ls. CHR 0x0A \<notin> set l \<Longrightarrow> file_lines (unlines ls) = ls @ [[]]"
  by (induction ls) (auto simp: file_lines_def unlines_def nl_def split_at_char_append)

text \<open>
  When no declared device, path or capability contains a line break, the drop-in consists of
  the section header and one directive per declaration (two per capability), and nothing else.
\<close>

theorem hardware_dropin_lines:
  assumes "\<forall>s \<in> set (hwDevices h) \<union> set (hwReadOnly h) \<union> set (hwReadWrite h) \<union> set (hwCapabilities h).
      CHR 0x0A \<notin> set s"
    and "\<forall>s. CHR 0x0A \<notin> set s \<longrightarrow> CHR 0x0A \<notin> set (rw s)"
    and "RenderHardwareDropin h (Some rw) \<noteq> ''''"
  shows "file_lines (RenderHardwareDropin h (Some rw)) = hardware_lines h (Some rw) @ [[]] \<and>
    length (hardware_lines h (Some rw)) = 1 + length (hwDevices h) + length (hwReadOnly h) +
      length (hwReadWrite h) + 2 * length (hwCapabilities h)"
proof
  have "\<forall>l \<in> set (hardware_lines h (Some rw)). CHR 0x0A \<notin> set l"
    using assms(1,2) by (auto simp: hardware_lines_def)
  then show "file_lines (RenderHardwareDropin h (Some rw)) = hardware_lines h (Some rw) @ [[]]"
    using assms(3) by (auto simp: RenderHardwareDropin_def file_lines_unlines)
  have "length (concat (map (\<lambda>c. [f c, g c]) xs)) = 2 * length xs" for f g :: "string \<Rightarrow> string" and xs
    by (induction xs) auto
  then show "length (hardware_lines h (Some rw)) = 1 + length (hwDevices h) + length (hwReadOnly h) +
      length (hwReadWrite h) + 2 * length (hwCapabilities h)"
    by (simp add: hardware_lines_def)
qed

theorem hardware_dropin_lines_witness:
  "length (file_lines (RenderHardwareDropin \<lparr>hwDevices = [''/dev/video0''], hwReadOnly = [],
     hwReadWrite = [], hwCapabilities = [''SYS_NICE'']\<rparr> (Some (\<lambda>p. ''/data'' @ p)))) = 5"
  using hardware_dropin_lines [of "\<lparr>hwDevices = [''/dev/video0''], hwReadOnly = [], hwReadWrite = [],
      hwCapabilities = [''SYS_NICE'']\<rparr>" "\<lambda>p. ''/data'' @ p"]
  by (simp add: RenderHardwareDropin_def hardware_lines_def unlines_def nl_def)

text \<open>
  Directive injection: an allow-list entry is only compared by its prefix, so an accepted
  manifest may name a device with a line break, and the rest of that device name becomes a directive
  of the module's unit.
\<close>

theorem hardware_dropin_injection:
  "\<exists>m. ParseManifest (\<lambda>_. Inr (demo_raw ''survey'' \<lparr>rHardware :=
         \<lparr>hwDevices = [''/dev/video0 rw'' @ nl @ ''BindPaths=/:/host'' @ nl @ ''X-A=''], hwReadOnly = [],
          hwReadWrite = [], hwCapabilities = []\<rparr>\<rparr>)) '''' = Inr m \<and>
     ''BindPaths=/:/host'' \<in> set (file_lines (RenderHardwareDropin (mHardware m) rw))"
proof -
  let ?hw = "\<lparr>hwDevices = [''/dev/video0 rw'' @ nl @ ''BindPaths=/:/host'' @ nl @ ''X-A=''],
    hwReadOnly = [], hwReadWrite = [], hwCapabilities = []\<rparr>"
  let ?raw = "demo_raw ''survey'' \<lparr>rHardware := ?hw\<rparr>"
  have "hardware_ok ?hw" by (simp add: hardware_ok_def allowedDevicePrefixes_def has_prefix_def)
  then have "raw_ok ?raw"
    using demo_raw_ok by (simp add: raw_ok_def demo_raw_def)
  then obtain m where m: "ParseManifest (\<lambda>_. Inr ?raw) '''' = Inr m"
    using accepts_iff_raw_ok [of "\<lambda>_. Inr ?raw" "''''" ?raw] by auto
  have "mHardware m = ?hw" using ParseManifest_hardware [OF m] by simp
  then have "''BindPaths=/:/host'' \<in> set (file_lines (RenderHardwareDropin (mHardware m) rw))"
    by (simp add: RenderHardwareDropin_def hardware_lines_def unlines_def nl_def file_lines_def)
  with m show ?thesis by blast
qed

end
