(* ===== verification/Reconciler.thy ===== *)
theory Reconciler
  imports Effects Paths Desired Dropin
begin

text \<open>
  The module reconciler, \<^verbatim>\<open>agent/internal/modules/reconciler.go\<close>: it compares the modules that should
  run with the modules it attached and issues the calls that close the gap. \<^verbatim>\<open>portablectl\<close>, the
  supervisor, the fetcher, the file system and the hooks of the manager are the outside of the
  model: they receive calls, and each answers with success or an error. The order in which Go
  ranges over a map is an argument.
\<close>

section \<open>Calls and state\<close>

datatype host_call =
    CAttach string
  | CDetach string
  | CMount string string
  | CUnmount string
  | CFetch string string string
  | CStart string
  | CStop string
  | CStat string
  | CMkdirAll string
  | CWriteFile string string
  | CReadFile string
  | CRemove string
  | CReloadUnits
  | CEnsureCreds module_desired
  | CSyncConfig module_desired
  | CProxySet string "16 word"
  | CProxyClear string
  | COnAttach string "manifest option"
  | COnDetach string

text \<open>
  The outside: the answer to a call after the calls already made, the contents a successful read
  returns, the TOML decoder and number formatter, and the iteration orders of the two maps.
\<close>

record env =
  enAnswer :: "host_call list \<Rightarrow> host_call \<Rightarrow> io_error option"
  enContents :: "host_call list \<Rightarrow> string \<Rightarrow> string"
  enDecode :: "string \<Rightarrow> string + raw_manifest"
  enFormatRate :: "f64 \<Rightarrow> string"
  enRangeCurrent :: "(string \<times> string) list \<Rightarrow> (string \<times> string) list"
  enRangeWant :: "(string \<times> module_desired) list \<Rightarrow> (string \<times> module_desired) list"

record reconciler =
  rcRootDir :: string
  rcProxyRegistry :: bool
  rcDropinDir :: string
  rcStateBackingRoot :: string
  rcModuleMountRoot :: string
  rcReloadUnits :: bool
  rcOnAttach :: bool
  rcOnDetach :: bool
  rcEnsureCreds :: bool
  rcSyncConfig :: bool
  rcCurrent :: "(string \<times> string) list"
  rcCurrentConfig :: "(string \<times> string) list"

datatype rc_error = RcStop string io_error | RcDetach string io_error | RcAttach io_error
  | RcAttachRetry io_error io_error | RcConfig io_error | RcFetch io_error | RcHook io_error | RcStart io_error

type_synonym 'a rc = "(reconciler, host_call, 'a) eff"

definition call :: "env \<Rightarrow> host_call \<Rightarrow> io_error option rc" where
  "call en c = perform (enAnswer en) c"

text \<open>A map read of a missing key gives the zero value.\<close>

definition get_string :: "(string \<times> string) list \<Rightarrow> string \<Rightarrow> string" where
  "get_string m k = (case map_of m k of Some v \<Rightarrow> v | None \<Rightarrow> '''')"


section \<open>Paths\<close>

definition rawImageName :: "string \<Rightarrow> string" where
  "rawImageName i = i @ ''.raw''"

definition rawDestPath :: "string \<Rightarrow> string \<Rightarrow> string \<Rightarrow> string" where
  "rawDestPath rootDir i version = path_join [rootDir, ''modules'', i, version, rawImageName i]"

definition rawDest :: "reconciler \<Rightarrow> string \<Rightarrow> string \<Rightarrow> string" where
  "rawDest r i version = rawDestPath (rcRootDir r) i version"

definition moduleMount :: "reconciler \<Rightarrow> string \<Rightarrow> string" where
  "moduleMount r i = (if rcModuleMountRoot r = '''' then '''' else path_join [rcModuleMountRoot r, i])"


section \<open>Operations\<close>

definition readAttachedManifest :: "env \<Rightarrow> string \<Rightarrow> string \<Rightarrow> manifest option rc" where
  "readAttachedManifest en mountPath i = do {
     let path = path_join [mountPath, ''usr/share/waypoint/modules'', i, ''module.toml''];
     e \<leftarrow> perform (\<lambda>l c. (enAnswer en l c, enContents en l path)) (CReadFile path);
     case e of
       (Some _, _) \<Rightarrow> ret None
     | (None, body) \<Rightarrow> ret (case ParseManifest (enDecode en) body of Inl _ \<Rightarrow> None | Inr mf \<Rightarrow> Some mf) }"

definition readManifest :: "env \<Rightarrow> string \<Rightarrow> string \<Rightarrow> manifest option rc" where
  "readManifest en i rawPath = do {
     mountPath \<leftarrow> gets (\<lambda>r. moduleMount r i);
     if mountPath = '''' then ret None
     else do {
       e \<leftarrow> call en (CMkdirAll mountPath);
       if e \<noteq> None then ret None
       else do {
         e \<leftarrow> call en (CMount rawPath mountPath);
         if e \<noteq> None then ret None else readAttachedManifest en mountPath i } } }"

definition dropin_dir :: "string \<Rightarrow> string \<Rightarrow> string" where
  "dropin_dir d i = path_join [d, ''waypoint-module-'' @ i @ ''.service.d'']"

definition writeHardwareDropin :: "env \<Rightarrow> string \<Rightarrow> hardware \<Rightarrow> io_error option rc" where
  "writeHardwareDropin en i h = do {
     r \<leftarrow> gets id;
     if rcDropinDir r = '''' then ret None
     else do {
       let rwSource = (if rcStateBackingRoot r = '''' then None else Some (\<lambda>p. path_join [rcStateBackingRoot r, p]));
       let body = RenderHardwareDropin h rwSource;
       let dir = dropin_dir (rcDropinDir r) i;
       try_then
         (case rwSource of None \<Rightarrow> ret None
          | Some src \<Rightarrow> each (\<lambda>p. call en (CMkdirAll (src p))) (hwReadWrite h)) id
         (if body = '''' then ret None
          else try_then (call en (CMkdirAll dir)) id
            (call en (CWriteFile (path_join [dir, ''30-hardware.conf'']) body))) } }"

definition writeComponentDropin :: "env \<Rightarrow> string \<Rightarrow> mod_component list \<Rightarrow> io_error option rc" where
  "writeComponentDropin en i cs = do {
     r \<leftarrow> gets id;
     let body = RenderComponentDropin (enFormatRate en) cs;
     let dir = dropin_dir (rcDropinDir r) i;
     if rcDropinDir r = '''' \<or> body = '''' then ret None
     else try_then (call en (CMkdirAll dir)) id
       (call en (CWriteFile (path_join [dir, ''40-component.conf'']) body)) }"

definition unmount_module :: "env \<Rightarrow> string \<Rightarrow> io_error option rc" where
  "unmount_module en i = do {
     mountPath \<leftarrow> gets (\<lambda>r. moduleMount r i);
     when_eff (mountPath \<noteq> '''') (do {
       _ \<leftarrow> call en (CUnmount mountPath);
       call en (CRemove mountPath) }) }"

definition rc_detach :: "env \<Rightarrow> string \<Rightarrow> rc_error option rc" where
  "rc_detach en i = do {
     r \<leftarrow> gets id;
     try_then (call en (CStop i)) (RcStop i) (do {
       _ \<leftarrow> unmount_module en i;
       try_then (call en (CDetach i)) (RcDetach i) (do {
         _ \<leftarrow> when_eff (rcProxyRegistry r) (call en (CProxyClear i));
         modify (\<lambda>r. r \<lparr>rcCurrent := map_del i (rcCurrent r)\<rparr>);
         _ \<leftarrow> when_eff (rcOnDetach r) (call en (COnDetach i));
         ret None }) }) }"

definition rc_attach :: "env \<Rightarrow> string \<Rightarrow> string \<Rightarrow> rc_error option rc" where
  "rc_attach en i dest = do {
     e \<leftarrow> call en (CAttach dest);
     case e of
       None \<Rightarrow> ret None
     | Some err \<Rightarrow> do {
         _ \<leftarrow> call en (CStop i);
         try_then (call en (CDetach i)) (RcAttachRetry err)
           (try_then (call en (CAttach dest)) RcAttach (ret None)) } }"

definition applyConfigChange :: "env \<Rightarrow> string \<Rightarrow> module_desired \<Rightarrow> rc_error option rc" where
  "applyConfigChange en i m = do {
     r \<leftarrow> gets id;
     if get_string (rcCurrentConfig r) i = mdConfigToml m then ret None
     else
       try_then (when_eff (rcSyncConfig r) (call en (CSyncConfig m))) RcConfig
       (try_then (call en (CStop i)) (RcStop i)
       (try_then (call en (CStart i)) RcStart (do {
          modify (\<lambda>r. r \<lparr>rcCurrentConfig := map_set i (mdConfigToml m) (rcCurrentConfig r)\<rparr>);
          ret None }))) }"

definition fetch_if_missing :: "env \<Rightarrow> module_desired \<Rightarrow> string \<Rightarrow> rc_error option rc" where
  "fetch_if_missing en m dest = do {
     st \<leftarrow> call en (CStat dest);
     when_eff (st = Some IONotExist)
       (try_then (call en (CFetch (mdRawUrl m) (mdRawSha256 m) dest)) RcFetch (ret None)) }"

text \<open>What a readable manifest adds: the drop-ins, the proxy route and a unit reload.\<close>

definition surface_manifest :: "env \<Rightarrow> string \<Rightarrow> manifest option \<Rightarrow> rc_error option rc" where
  "surface_manifest en i manifest = (case manifest of
     None \<Rightarrow> ret None
   | Some mf \<Rightarrow> do {
       r \<leftarrow> gets id;
       _ \<leftarrow> writeHardwareDropin en i (mHardware mf);
       _ \<leftarrow> writeComponentDropin en i (mComponents mf);
       _ \<leftarrow> when_eff (rcProxyRegistry r \<and> uKind (mUI mf) = UIKindProxy)
              (call en (CProxySet i (uProxyPort (mUI mf))));
       _ \<leftarrow> when_eff (rcReloadUnits r \<and> rcDropinDir r \<noteq> '''') (call en CReloadUnits);
       ret None })"

text \<open>The part of the loop body that brings up a module that is not attached at its version.\<close>

definition bring_up :: "env \<Rightarrow> string \<Rightarrow> module_desired \<Rightarrow> string \<Rightarrow> rc_error option rc" where
  "bring_up en i m dest = do {
     r \<leftarrow> gets id;
     try_then (fetch_if_missing en m dest) id
     (try_then (rc_attach en i dest) id (do {
       manifest \<leftarrow> readManifest en i dest;
       _ \<leftarrow> surface_manifest en i manifest;
       try_then (when_eff (rcEnsureCreds r) (call en (CEnsureCreds m))) RcHook
       (try_then (when_eff (rcSyncConfig r) (call en (CSyncConfig m))) RcHook
       (try_then (call en (CStart i)) RcStart (do {
          modify (\<lambda>r. r \<lparr>rcCurrent := map_set i dest (rcCurrent r),
             rcCurrentConfig := map_set i (mdConfigToml m) (rcCurrentConfig r)\<rparr>);
          _ \<leftarrow> when_eff (rcOnAttach r) (call en (COnAttach i manifest));
          ret None }))) })) }"

text \<open>Both failures are logged and the loop goes on.\<close>

definition attach_one :: "env \<Rightarrow> string \<times> module_desired \<Rightarrow> rc_error option rc" where
  "attach_one en im = do {
     r \<leftarrow> gets id;
     let dest = rawDest r (fst im) (mdVersion (snd im));
     _ \<leftarrow> (if get_string (rcCurrent r) (fst im) = dest then applyConfigChange en (fst im) (snd im)
          else bring_up en (fst im) (snd im) dest);
     ret None }"

definition want_map :: "desired_set \<Rightarrow> (string \<times> module_desired) list" where
  "want_map desired = foldl (\<lambda>w m. map_set (mdId m) m w) [] (dsModules desired)"

definition detach_stale :: "env \<Rightarrow> (string \<times> module_desired) list \<Rightarrow> string \<times> string \<Rightarrow> rc_error option rc" where
  "detach_stale en want ip = do {
     r \<leftarrow> gets id;
     case map_of want (fst ip) of
       None \<Rightarrow> rc_detach en (fst ip)
     | Some w \<Rightarrow> when_eff (snd ip \<noteq> rawDest r (fst ip) (mdVersion w)) (rc_detach en (fst ip)) }"

definition Reconcile :: "env \<Rightarrow> desired_set \<Rightarrow> rc_error option rc" where
  "Reconcile en desired = do {
     let want = want_map desired;
     cur \<leftarrow> gets rcCurrent;
     try_then (each (detach_stale en want) (enRangeCurrent en cur)) id
       (each (attach_one en) (enRangeWant en want)) }"


section \<open>Readiness of a module, read off the log\<close>

definition ok :: "env \<Rightarrow> host_call list \<Rightarrow> host_call \<Rightarrow> bool" where
  "ok en l c \<longleftrightarrow> enAnswer en l c = None"

text \<open>An image attached from a path and not detached since.\<close>

fun holds_image :: "env \<Rightarrow> string \<Rightarrow> string \<Rightarrow> host_call list \<Rightarrow> bool" where
  "holds_image en path i [] = False"
| "holds_image en path i (c # l) =
     (c = CAttach path \<and> ok en l c \<or> \<not> (c = CDetach i \<and> ok en l c) \<and> holds_image en path i l)"

text \<open>Credentials were granted at some point; the last configuration write succeeded.\<close>

fun creds_ok :: "env \<Rightarrow> string \<Rightarrow> host_call list \<Rightarrow> bool" where
  "creds_ok en i [] = False"
| "creds_ok en i (c # l) =
     ((case c of CEnsureCreds m \<Rightarrow> mdId m = i \<and> ok en l c | _ \<Rightarrow> False) \<or> creds_ok en i l)"

fun config_ok :: "env \<Rightarrow> string \<Rightarrow> host_call list \<Rightarrow> bool" where
  "config_ok en i [] = False"
| "config_ok en i (c # l) =
     (case c of CSyncConfig m \<Rightarrow> (if mdId m = i then ok en l c else config_ok en i l) | _ \<Rightarrow> config_ok en i l)"

definition ready :: "env \<Rightarrow> string \<Rightarrow> string \<Rightarrow> host_call list \<Rightarrow> bool" where
  "ready en rd i l \<longleftrightarrow> (\<exists>v. holds_image en (rawDestPath rd i v) i l) \<and> creds_ok en i l \<and> config_ok en i l"

fun starts_ok :: "env \<Rightarrow> string \<Rightarrow> host_call list \<Rightarrow> bool" where
  "starts_ok en rd [] = True"
| "starts_ok en rd (c # l) =
     (starts_ok en rd l \<and> (case c of CStart i \<Rightarrow> ready en rd i l | _ \<Rightarrow> True))"

text \<open>Calls that neither move images nor start or stop units.\<close>

definition aux :: "host_call \<Rightarrow> bool" where
  "aux c \<longleftrightarrow> (case c of CAttach _ \<Rightarrow> False | CDetach _ \<Rightarrow> False | CStart _ \<Rightarrow> False | CStop _ \<Rightarrow> False
     | CEnsureCreds _ \<Rightarrow> False | CSyncConfig _ \<Rightarrow> False | _ \<Rightarrow> True)"

lemma aux_simps [simp]:
  "aux (CMount a b)" "aux (CUnmount a)" "aux (CFetch u s d)" "aux (CStat a)" "aux (CMkdirAll a)" "aux (CWriteFile a b)"
  "aux (CReadFile a)" "aux (CRemove a)" "aux CReloadUnits" "aux (CProxySet i p)" "aux (CProxyClear i)"
  "aux (COnAttach i mf)" "aux (COnDetach i)"
  by (simp_all add: aux_def)

lemma emits_call [eff_rules]: "A c \<Longrightarrow> emits A (call en c)"
  unfolding call_def by (rule emits_perform)

lemma valid_call: "(\<And>r l. P (r, l) \<Longrightarrow> Q (enAnswer en l c) (r, c # l)) \<Longrightarrow> valid P (call en c) Q"
  by (rule validI) (auto simp: call_def)

lemma valid_gets: "(\<And>r l. P (r, l) \<Longrightarrow> valid (\<lambda>w. w = (r, l)) (k (f r)) Q) \<Longrightarrow> valid P (gets f \<bind> k) Q"
  by (auto simp: valid_def)

lemma valid_modify: "(\<And>r l. P (r, l) \<Longrightarrow> Q () (f r, l)) \<Longrightarrow> valid P (modify f) Q"
  by (auto simp: valid_def)

text \<open>Nor do they tell the manager about an attachment.\<close>

definition quiet :: "host_call \<Rightarrow> bool" where
  "quiet c \<longleftrightarrow> aux c \<and> (case c of COnAttach _ _ \<Rightarrow> False | COnDetach _ \<Rightarrow> False | _ \<Rightarrow> True)"

lemma quiet_simps [simp]:
  "quiet (CMount a b)" "quiet (CUnmount a)" "quiet (CFetch u s d)" "quiet (CStat a)" "quiet (CMkdirAll a)"
  "quiet (CWriteFile a b)" "quiet (CReadFile a)" "quiet (CRemove a)" "quiet CReloadUnits" "quiet (CProxySet i p)"
  "quiet (CProxyClear i)"
  by (simp_all add: quiet_def)

lemma emits_quiet_aux: "emits quiet c \<Longrightarrow> emits aux c"
  by (erule emits_weaken) (simp add: quiet_def)

lemma quiet_unmount_module [eff_rules]: "emits quiet (unmount_module en i)"
  unfolding unmount_module_def by (intro eff_rules) simp_all

lemma quiet_readAttachedManifest [eff_rules]: "emits quiet (readAttachedManifest en p i)"
  unfolding readAttachedManifest_def Let_def
  by (intro eff_rules) (auto intro: eff_rules split: prod.split option.split)

lemma quiet_readManifest [eff_rules]: "emits quiet (readManifest en i p)"
  unfolding readManifest_def by (intro eff_rules) simp_all

lemma quiet_writeHardwareDropin [eff_rules]: "emits quiet (writeHardwareDropin en i h)"
  unfolding writeHardwareDropin_def Let_def by (intro eff_rules) simp_all

lemma quiet_writeComponentDropin [eff_rules]: "emits quiet (writeComponentDropin en i cs)"
  unfolding writeComponentDropin_def Let_def by (intro eff_rules) simp_all

lemma quiet_surface_manifest [eff_rules]: "emits quiet (surface_manifest en i mf)"
  unfolding surface_manifest_def by (intro eff_rules) simp_all

lemma quiet_fetch_if_missing [eff_rules]: "emits quiet (fetch_if_missing en m dest)"
  unfolding fetch_if_missing_def by (intro eff_rules) simp_all

lemmas emits_unmount_module = quiet_unmount_module [THEN emits_quiet_aux]
  and emits_readAttachedManifest = quiet_readAttachedManifest [THEN emits_quiet_aux]
  and emits_readManifest = quiet_readManifest [THEN emits_quiet_aux]
  and emits_writeHardwareDropin = quiet_writeHardwareDropin [THEN emits_quiet_aux]
  and emits_writeComponentDropin = quiet_writeComponentDropin [THEN emits_quiet_aux]
  and emits_surface_manifest = quiet_surface_manifest [THEN emits_quiet_aux]
  and emits_fetch_if_missing = quiet_fetch_if_missing [THEN emits_quiet_aux]

lemma want_map_id: "map_of (want_map d) i = Some m \<Longrightarrow> mdId m = i"
proof -
  have "map_of (foldl (\<lambda>w m. map_set (mdId m) m w) w ms) i = Some m \<Longrightarrow> mdId m = i"
    if "\<And>m. map_of w i = Some m \<Longrightarrow> mdId m = i" for w and ms :: "module_desired list"
    using that
  proof (induction ms arbitrary: w)
    case (Cons x ms)
    show ?case
      by (rule Cons.IH [of "map_set (mdId x) x w"])
        (use Cons.prems in \<open>auto split: if_splits\<close>)
  qed simp
  from this [of "[]"] show "map_of (want_map d) i = Some m \<Longrightarrow> mdId m = i" by (simp add: want_map_def)
qed

lemma wf_want_map [simp]: "wf_map (want_map d)"
proof -
  have "wf_map w \<Longrightarrow> wf_map (foldl (\<lambda>w m. map_set (mdId m) m w) w ms)" for w and ms :: "module_desired list"
    by (induction ms arbitrary: w) auto
  then show ?thesis by (simp add: want_map_def)
qed


section \<open>The invariant of the reconciler\<close>

lemma holds_image_keep [simp]: "c \<noteq> CDetach i \<Longrightarrow> holds_image en p i l \<Longrightarrow> holds_image en p i (c # l)"
  by simp

lemma creds_ok_keep [simp]: "creds_ok en i l \<Longrightarrow> creds_ok en i (c # l)"
  by simp

text \<open>What is recorded as attached is attached, from a path of the module, with credentials.\<close>

definition recorded_ok :: "env \<Rightarrow> string \<Rightarrow> (string \<times> string) list \<Rightarrow> host_call list \<Rightarrow> bool" where
  "recorded_ok en rd cur l \<longleftrightarrow> (\<forall>i p. map_of cur i = Some p \<longrightarrow>
     (\<exists>v. p = rawDestPath rd i v) \<and> holds_image en p i l \<and> creds_ok en i l)"

definition rc_inv :: "env \<Rightarrow> string \<Rightarrow> reconciler \<times> host_call list \<Rightarrow> bool" where
  "rc_inv en rd w \<longleftrightarrow> rcRootDir (fst w) = rd \<and> rcEnsureCreds (fst w) \<and> rcSyncConfig (fst w) \<and>
     wf_map (rcCurrent (fst w)) \<and> starts_ok en rd (snd w) \<and> recorded_ok en rd (rcCurrent (fst w)) (snd w)"

lemma recorded_ok_call:
  assumes "recorded_ok en rd cur l" "\<And>i. c = CDetach i \<Longrightarrow> map_of cur i = None \<or> \<not> ok en l c"
  shows "recorded_ok en rd cur (c # l)"
proof -
  have "holds_image en p i (c # l)" if "holds_image en p i l" "map_of cur i = Some p" for i p
    using that assms(2) [of i] by (cases "c = CDetach i") auto
  then show ?thesis using assms(1) unfolding recorded_ok_def by fastforce
qed

lemma rc_inv_call:
  assumes "rc_inv en rd (r, l)"
    and "\<And>i. c = CDetach i \<Longrightarrow> map_of (rcCurrent r) i = None \<or> \<not> ok en l c"
    and "\<And>i. c = CStart i \<Longrightarrow> ready en rd i l"
  shows "rc_inv en rd (r, c # l)"
  using assms recorded_ok_call [of en rd "rcCurrent r" l c] by (auto simp: rc_inv_def split: host_call.split)

lemma rc_inv_aux: "aux c \<Longrightarrow> rc_inv en rd (r, l) \<Longrightarrow> rc_inv en rd (r, c # l)"
  by (rule rc_inv_call) (auto simp: aux_def)

definition drop_current :: "string \<Rightarrow> reconciler \<Rightarrow> reconciler" where
  "drop_current i r = r \<lparr>rcCurrent := map_del i (rcCurrent r)\<rparr>"

lemma recorded_ok_del: "recorded_ok en rd cur l \<Longrightarrow> recorded_ok en rd (map_del i cur) l"
  by (auto simp: recorded_ok_def)

lemma rc_inv_drop: "rc_inv en rd (r, l) \<Longrightarrow> rc_inv en rd (drop_current i r, l)"
  by (simp add: rc_inv_def drop_current_def recorded_ok_del)

lemma rc_inv_drop_detach: "rc_inv en rd (r, l) \<Longrightarrow> rc_inv en rd (drop_current i r, CDetach i # l)"
  by (rule rc_inv_call) (simp_all add: rc_inv_drop, simp add: drop_current_def)

text \<open>
  Detaching: on success the entry is gone, otherwise the state is as before. Either way only the
  entry of the module changes.
\<close>

lemma rc_detach_run:
  assumes "run_state (rc_detach en i) (r, l) = (e, (r', l'))"
  shows "r' = (if e = None then drop_current i r else r) \<and> (rc_inv en rd (r, l) \<longrightarrow> rc_inv en rd (r', l'))"
proof -
  obtain x l1 where c: "run_state (unmount_module en i) (r, CStop i # l) = (x, (r, l1 @ CStop i # l))" "list_all aux l1"
    using emits_unmount_module by (rule emitsE)
  define P where "P = (\<lambda>w. rc_inv en rd (r, l) \<longrightarrow> rc_inv en rd w)"
  have stop: "P (r, CStop i # l)" unfolding P_def by (auto intro: rc_inv_call)
  have mount: "P (r, l1 @ CStop i # l)"
    using c(2) stop unfolding P_def by (induction l1) (auto intro: rc_inv_aux)
  have det: "P (drop_current i r, CDetach i # l1 @ CStop i # l)"
    "\<not> ok en (l1 @ CStop i # l) (CDetach i) \<Longrightarrow> P (r, CDetach i # l1 @ CStop i # l)"
    using mount unfolding P_def by (auto intro: rc_inv_drop_detach rc_inv_call)
  have post: "P (drop_current i r, c # ls)" if "P (drop_current i r, ls)" "aux c" for c ls
    using that unfolding P_def by (auto intro: rc_inv_aux)
  have "r' = (if e = None then drop_current i r else r) \<and> P (r', l')"
  proof (cases "enAnswer en l (CStop i)")
    case (Some x)
    then show ?thesis using assms stop by (auto simp: rc_detach_def call_def)
  next
    case None
    then show ?thesis
      using assms c(1) det post
      by (auto simp: rc_detach_def call_def ok_def drop_current_def split: option.splits if_splits)
  qed
  then show ?thesis unfolding P_def .
qed


text \<open>Bringing a module up passes four stages: nothing, image attached, credentials, configuration.\<close>

definition stage :: "env \<Rightarrow> string \<Rightarrow> string \<Rightarrow> string \<Rightarrow> nat \<Rightarrow> reconciler \<times> host_call list \<Rightarrow> bool" where
  "stage en rd i dest k w \<longleftrightarrow> rc_inv en rd w \<and> map_of (rcCurrent (fst w)) i = None \<and>
     (1 \<le> k \<longrightarrow> holds_image en dest i (snd w)) \<and> (2 \<le> k \<longrightarrow> creds_ok en i (snd w)) \<and>
     (3 \<le> k \<longrightarrow> config_ok en i (snd w))"

lemma stage_inv: "stage en rd i dest k w \<Longrightarrow> rc_inv en rd w"
  by (simp add: stage_def)

lemma stage_aux:
  assumes "aux c" "stage en rd i dest k (r, l)"
  shows "stage en rd i dest k (r, c # l)"
proof -
  have "c \<noteq> CDetach i" "\<And>m. c \<noteq> CSyncConfig m" using assms(1) by (auto simp: aux_def)
  then have "config_ok en i l \<Longrightarrow> config_ok en i (c # l)" by (cases c) auto
  with assms \<open>c \<noteq> CDetach i\<close> show ?thesis by (auto simp: stage_def intro: rc_inv_aux)
qed

lemma valid_stage_emits: "emits aux c \<Longrightarrow> valid (stage en rd i dest k) c (\<lambda>_. stage en rd i dest k)"
  by (rule valid_emits, assumption) (auto intro: stage_aux)

lemma rc_attach_stage:
  "valid (stage en rd i dest 0) (rc_attach en i dest)
     (\<lambda>e w. if e = None then stage en rd i dest 1 w else rc_inv en rd w)"
proof (rule validI)
  fix w e w'
  assume w: "stage en rd i dest 0 w" and run: "run_state (rc_attach en i dest) w = (e, w')"
  obtain r l where [simp]: "w = (r, l)" by (cases w)
  have none: "map_of (rcCurrent r) i = None" using w by (simp add: stage_def)
  have add: "rc_inv en rd (r, c # ls)" if "rc_inv en rd (r, ls)" "c = CAttach dest \<or> c = CStop i \<or> c = CDetach i" for c ls
    using that none by (auto intro!: rc_inv_call)
  have "rc_inv en rd (r, l)" using w by (simp add: stage_def)
  then have "rc_inv en rd w' \<and> fst w' = r \<and> (e = None \<longrightarrow> holds_image en dest i (snd w'))"
    using run by (auto simp: rc_attach_def call_def ok_def intro!: add split: option.splits)
  with none show "if e = None then stage en rd i dest 1 w' else rc_inv en rd w'"
    by (simp add: stage_def)
qed

lemma call_creds_stage:
  "mdId m = i \<Longrightarrow> valid (stage en rd i dest 1) (call en (CEnsureCreds m))
     (\<lambda>e w. if e = None then stage en rd i dest 2 w else rc_inv en rd w)"
  by (rule valid_call) (auto simp: stage_def ok_def intro: rc_inv_call)

lemma call_config_stage:
  "mdId m = i \<Longrightarrow> valid (stage en rd i dest 2) (call en (CSyncConfig m))
     (\<lambda>e w. if e = None then stage en rd i dest 3 w else rc_inv en rd w)"
  by (rule valid_call) (auto simp: stage_def ok_def intro: rc_inv_call)

lemma call_start_stage:
  assumes "dest = rawDestPath rd i v"
  shows "valid (stage en rd i dest 3) (call en (CStart i))
     (\<lambda>e w. if e = None then stage en rd i dest 2 w else rc_inv en rd w)"
proof (rule valid_call)
  fix r l
  assume st: "stage en rd i dest 3 (r, l)"
  then have "ready en rd i l" using assms by (auto simp: ready_def stage_def)
  then have "rc_inv en rd (r, CStart i # l)" using st by (auto simp: stage_def intro: rc_inv_call)
  then show "if enAnswer en l (CStart i) = None then stage en rd i dest 2 (r, CStart i # l)
    else rc_inv en rd (r, CStart i # l)"
    using st by (simp add: stage_def)
qed

text \<open>The stages follow one another, each only after the success of the one before.\<close>

lemma valid_next_stage:
  assumes "valid P c (\<lambda>e w. if e = None then R w else rc_inv en rd w)"
    and "valid R k (\<lambda>_. rc_inv en rd)"
  shows "valid P (try_then c f k) (\<lambda>_. rc_inv en rd)"
proof (rule valid_try_then)
  show "valid P c (\<lambda>e w. case e of Some x \<Rightarrow> rc_inv en rd w | None \<Rightarrow> R w)"
    by (rule valid_weaken [OF assms(1)]) (auto split: option.split)
qed (rule assms(2))

lemma record_attached_inv:
  assumes "dest = rawDestPath rd i v"
  shows "valid (stage en rd i dest 2)
    (do { modify (\<lambda>r. r \<lparr>rcCurrent := map_set i dest (rcCurrent r),
            rcCurrentConfig := map_set i cfg (rcCurrentConfig r)\<rparr>);
          _ \<leftarrow> when_eff b (call en (COnAttach i mf));
          ret None }) (\<lambda>_. rc_inv en rd)"
proof (rule validI)
  fix w x w'
  assume st: "stage en rd i dest 2 w"
    and run: "run_state (do { modify (\<lambda>r. r \<lparr>rcCurrent := map_set i dest (rcCurrent r),
            rcCurrentConfig := map_set i cfg (rcCurrentConfig r)\<rparr>);
          _ \<leftarrow> when_eff b (call en (COnAttach i mf));
          ret None }) w = (x, w')"
  obtain r l where [simp]: "w = (r, l)" by (cases w)
  let ?r = "r \<lparr>rcCurrent := map_set i dest (rcCurrent r), rcCurrentConfig := map_set i cfg (rcCurrentConfig r)\<rparr>"
  have "rc_inv en rd (?r, l)"
    using st assms by (auto simp: stage_def rc_inv_def recorded_ok_def)
  then have "rc_inv en rd (?r, COnAttach i mf # l)" by (rule rc_inv_aux [rotated]) simp
  with \<open>rc_inv en rd (?r, l)\<close> run show "rc_inv en rd w'"
    by (auto simp: call_def split: if_splits)
qed

lemma valid_pre: "(\<And>w. P w \<Longrightarrow> valid (\<lambda>w'. w' = w) c Q) \<Longrightarrow> valid P c Q"
  by (auto simp: valid_def)

lemma bring_up_inv:
  assumes "mdId m = i" "dest = rawDestPath rd i (mdVersion m)"
  shows "valid (stage en rd i dest 0) (bring_up en i m dest) (\<lambda>_. rc_inv en rd)"
  unfolding bring_up_def
proof (rule valid_gets)
  fix r l
  assume st: "stage en rd i dest 0 (r, l)"
  then have "rcEnsureCreds r" "rcSyncConfig r" by (simp_all add: stage_def rc_inv_def)
  then have flags: "when_eff (rcEnsureCreds r) c = c" "when_eff (rcSyncConfig r) c = c" for c :: "io_error option rc"
    by (simp_all add: when_eff_def)
  have fetch: "valid (stage en rd i dest 0) (fetch_if_missing en m dest)
    (\<lambda>e w. if e = None then stage en rd i dest 0 w else rc_inv en rd w)"
    by (rule valid_weaken [OF valid_stage_emits [OF emits_fetch_if_missing]]) (auto intro: stage_inv)
  have start: "valid (stage en rd i dest 1)
     (try_then (when_eff (rcEnsureCreds r) (call en (CEnsureCreds m))) RcHook
       (try_then (when_eff (rcSyncConfig r) (call en (CSyncConfig m))) RcHook
       (try_then (call en (CStart i)) RcStart (do {
          modify (\<lambda>r. r \<lparr>rcCurrent := map_set i dest (rcCurrent r),
             rcCurrentConfig := map_set i (mdConfigToml m) (rcCurrentConfig r)\<rparr>);
          _ \<leftarrow> when_eff (rcOnAttach r) (call en (COnAttach i mf));
          ret None })))) (\<lambda>_. rc_inv en rd)" for mf
    unfolding flags
    by (rule valid_next_stage [OF call_creds_stage [OF assms(1)] valid_next_stage [OF call_config_stage [OF assms(1)]
      valid_next_stage [OF call_start_stage [OF assms(2)] record_attached_inv [OF assms(2)]]]])
  show "valid (\<lambda>w. w = (r, l)) (try_then (fetch_if_missing en m dest) id
     (try_then (rc_attach en i dest) id (do {
       manifest \<leftarrow> readManifest en i dest;
       _ \<leftarrow> surface_manifest en i manifest;
       try_then (when_eff (rcEnsureCreds (id r)) (call en (CEnsureCreds m))) RcHook
       (try_then (when_eff (rcSyncConfig (id r)) (call en (CSyncConfig m))) RcHook
       (try_then (call en (CStart i)) RcStart (do {
          modify (\<lambda>r. r \<lparr>rcCurrent := map_set i dest (rcCurrent r),
             rcCurrentConfig := map_set i (mdConfigToml m) (rcCurrentConfig r)\<rparr>);
          _ \<leftarrow> when_eff (rcOnAttach (id r)) (call en (COnAttach i manifest));
          ret None }))) }))) (\<lambda>_. rc_inv en rd)"
    unfolding id_apply
    by (rule valid_weaken [OF valid_next_stage [OF fetch valid_next_stage [OF rc_attach_stage
        valid_bind [OF valid_stage_emits [OF emits_readManifest]
        valid_bind [OF valid_stage_emits [OF emits_surface_manifest] start]]]]])
      (use st in auto)
qed


lemma rawDestPath_nonempty [simp]: "rawDestPath rd i v \<noteq> ''''"
  unfolding rawDestPath_def by (rule path_join_nonempty) simp

lemma get_string_eq [simp]: "s \<noteq> '''' \<Longrightarrow> get_string m k = s \<longleftrightarrow> map_of m k = Some s"
  by (auto simp: get_string_def split: option.split)

subsection \<open>Effect on the recorded state\<close>

definition record_attached :: "string \<Rightarrow> string \<Rightarrow> string \<Rightarrow> reconciler \<Rightarrow> reconciler" where
  "record_attached i dest cfg r =
     r \<lparr>rcCurrent := map_set i dest (rcCurrent r), rcCurrentConfig := map_set i cfg (rcCurrentConfig r)\<rparr>"

lemma valid_gets_any: "(\<And>x. valid P (k x) Q) \<Longrightarrow> valid P (gets f \<bind> k) Q"
  by (auto simp: valid_def)

lemma valid_fst_emits: "emits A c \<Longrightarrow> valid (\<lambda>w. fst w = r) c (\<lambda>_ w. fst w = r)"
  by (rule valid_emits, assumption) simp

lemma valid_fst_try:
  assumes "emits A c" "valid (\<lambda>w. fst w = r) k (\<lambda>e w. fst w = (if e = None then r' else r))"
  shows "valid (\<lambda>w. fst w = r) (try_then c f k) (\<lambda>e w. fst w = (if e = None then r' else r))"
  by (rule valid_try_then [OF _ assms(2)], rule valid_weaken [OF valid_fst_emits [OF assms(1)]])
    (auto split: option.split)

lemma emits_rc_attach [eff_rules]: "emits (\<lambda>_. True) (rc_attach en i dest)"
  unfolding rc_attach_def by (intro eff_rules) auto

lemma bring_up_effect:
  "valid (\<lambda>w. fst w = r) (bring_up en i m dest)
     (\<lambda>e w. fst w = (if e = None then record_attached i dest (mdConfigToml m) r else r))"
proof -
  let ?r = "record_attached i dest (mdConfigToml m) r"
  let ?Q = "\<lambda>e w. fst w = (if e = None then ?r else r)"
  have fin: "valid (\<lambda>w. fst w = r) (do { modify (\<lambda>r. r \<lparr>rcCurrent := map_set i dest (rcCurrent r),
             rcCurrentConfig := map_set i (mdConfigToml m) (rcCurrentConfig r)\<rparr>);
          _ \<leftarrow> when_eff b (call en (COnAttach i mf));
          ret None }) ?Q" for b mf
    by (rule validI) (auto simp: call_def record_attached_def split: if_splits)
  have call: "emits (\<lambda>_. True) (call en c)" "emits (\<lambda>_. True) (when_eff b (call en c))" for c b
    by (intro eff_rules; simp)+
  show ?thesis
    unfolding bring_up_def
    by (rule valid_gets_any,
        intro valid_fst_try [OF emits_fetch_if_missing] valid_fst_try [OF emits_rc_attach]
          valid_bind [OF valid_fst_emits [OF emits_readManifest]]
          valid_bind [OF valid_fst_emits [OF emits_surface_manifest]] valid_fst_try [OF call(1)] valid_fst_try [OF call(2)] fin)
qed

lemma applyConfigChange_run:
  assumes "run_state (applyConfigChange en i m) (r, l) = (e, (r', l'))"
  shows "r' = (if e = None \<and> get_string (rcCurrentConfig r) i \<noteq> mdConfigToml m
      then r \<lparr>rcCurrentConfig := map_set i (mdConfigToml m) (rcCurrentConfig r)\<rparr> else r)"
  using assms by (auto simp: applyConfigChange_def call_def split: option.splits if_splits)

lemma rc_inv_config: "rc_inv en rd (r \<lparr>rcCurrentConfig := x\<rparr>, l) = rc_inv en rd (r, l)"
  by (simp add: rc_inv_def)

lemma applyConfigChange_inv:
  assumes inv: "rc_inv en rd (r, l)" and cur: "map_of (rcCurrent r) i = Some p" and "mdId m = i"
    and run: "run_state (applyConfigChange en i m) (r, l) = (e, (r', l'))"
  shows "rc_inv en rd (r', l')"
proof -
  have rec: "recorded_ok en rd (rcCurrent r) l" and "rcSyncConfig r" using inv by (simp_all add: rc_inv_def)
  then obtain v where v: "p = rawDestPath rd i v" and hold: "holds_image en p i l" "creds_ok en i l"
    using cur unfolding recorded_ok_def by blast
  let ?l1 = "CSyncConfig m # l" and ?l2 = "CStop i # CSyncConfig m # l"
  have 1: "rc_inv en rd (r, ?l1)" and 2: "rc_inv en rd (r, ?l2)"
    using inv by (auto intro!: rc_inv_call)
  have "ready en rd i ?l2" if "enAnswer en l (CSyncConfig m) = None"
    using that hold assms(3) unfolding ready_def v by (auto simp: ok_def)
  then have 3: "rc_inv en rd (r, CStart i # ?l2)" if "enAnswer en l (CSyncConfig m) = None"
    using that 2 by (auto intro: rc_inv_call)
  show ?thesis
    using run 1 2 3 inv \<open>rcSyncConfig r\<close>
    by (auto simp: applyConfigChange_def call_def rc_inv_config split: option.splits if_splits)
qed


section \<open>A whole pass\<close>

text \<open>A recorded module is wanted, at the recorded version.\<close>

definition wanted :: "string \<Rightarrow> (string \<times> module_desired) list \<Rightarrow> string \<Rightarrow> string \<Rightarrow> bool" where
  "wanted rd want i p \<longleftrightarrow> (\<exists>m. map_of want i = Some m \<and> p = rawDestPath rd i (mdVersion m))"

definition only_wanted :: "string \<Rightarrow> (string \<times> module_desired) list \<Rightarrow> reconciler \<Rightarrow> bool" where
  "only_wanted rd want r \<longleftrightarrow> (\<forall>i p. map_of (rcCurrent r) i = Some p \<longrightarrow> wanted rd want i p)"

text \<open>The calls Go makes visit every entry of a map once, in some order.\<close>

definition ranges_ok :: "env \<Rightarrow> bool" where
  "ranges_ok en \<longleftrightarrow> (\<forall>xs. set (enRangeCurrent en xs) = set xs) \<and> (\<forall>xs. set (enRangeWant en xs) = set xs)"

lemma detach_stale_run:
  assumes "run_state (detach_stale en want (i, p)) (r, l) = (e, (r', l'))" "rcRootDir r = rd"
  shows "r' = (if e = None \<and> \<not> wanted rd want i p then drop_current i r else r)"
    and "rc_inv en rd (r, l) \<Longrightarrow> rc_inv en rd (r', l')"
proof -
  have run: "wanted rd want i p \<and> e = None \<and> (r', l') = (r, l) \<or>
      \<not> wanted rd want i p \<and> run_state (rc_detach en i) (r, l) = (e, (r', l'))"
    using assms by (auto simp: detach_stale_def wanted_def rawDest_def split: option.splits if_splits)
  then show "r' = (if e = None \<and> \<not> wanted rd want i p then drop_current i r else r)"
    using rc_detach_run [of en i r l e r' l'] by (elim disjE conjE) simp_all
  show "rc_inv en rd (r, l) \<Longrightarrow> rc_inv en rd (r', l')"
    using run rc_detach_run [of en i r l e r' l' rd] by (elim disjE) (simp, blast)
qed

lemma drop_current_simps [simp]:
  "rcRootDir (drop_current i r) = rcRootDir r" "rcCurrentConfig (drop_current i r) = rcCurrentConfig r"
  "map_of (rcCurrent (drop_current i r)) j = (if j = i then None else map_of (rcCurrent r) j)"
  by (simp_all add: drop_current_def)

lemma record_attached_simps [simp]:
  "rcRootDir (record_attached i p c r) = rcRootDir r"
  "map_of (rcCurrent (record_attached i p c r)) j = (if j = i then Some p else map_of (rcCurrent r) j)"
  "get_string (rcCurrentConfig (record_attached i p c r)) j = (if j = i then c else get_string (rcCurrentConfig r) j)"
  by (simp_all add: record_attached_def get_string_def)

text \<open>The detach loop leaves only wanted entries, whatever the order.\<close>

definition detached :: "env \<Rightarrow> string \<Rightarrow> (string \<times> module_desired) list \<Rightarrow> (string \<times> string) list \<Rightarrow>
    (string \<times> string) list \<Rightarrow> reconciler \<Rightarrow> bool" where
  "detached en rd want cur ys r \<longleftrightarrow> rcRootDir r = rd \<and>
     (\<forall>i p. map_of (rcCurrent r) i = Some p \<longrightarrow> map_of cur i = Some p \<and> ((i, p) \<in> set ys \<longrightarrow> wanted rd want i p))"

lemma detach_loop_valid:
  assumes "set xs = set cur"
  shows "valid (\<lambda>w. rcRootDir (fst w) = rd \<and> rcCurrent (fst w) = cur \<and> (b \<longrightarrow> rc_inv en rd w))
    (each (detach_stale en want) xs)
    (\<lambda>e w. (e = None \<longrightarrow> rcRootDir (fst w) = rd \<and> only_wanted rd want (fst w)) \<and> (b \<longrightarrow> rc_inv en rd w))"
proof -
  let ?I = "\<lambda>ys w. detached en rd want cur ys (fst w) \<and> (b \<longrightarrow> rc_inv en rd w)"
  have "valid (?I ys) (detach_stale en want x)
      (\<lambda>e w. case e of Some y \<Rightarrow> (b \<longrightarrow> rc_inv en rd w) | None \<Rightarrow> ?I (ys @ [x]) w)"
    if "xs = ys @ x # zs" for x ys zs
  proof (rule validI)
    fix w e w'
    assume I: "?I ys w" and run: "run_state (detach_stale en want x) w = (e, w')"
    obtain i p r l r' l' where [simp]: "x = (i, p)" "w = (r, l)" "w' = (r', l')"
      by (metis surj_pair)
    have rd: "rcRootDir r = rd" using I by (simp add: detached_def)
    note st = detach_stale_run [OF run [simplified] rd]
    have "(i, p) \<in> set cur" using assms that by auto
    have "e = None \<longrightarrow> detached en rd want cur (ys @ [x]) r'"
      unfolding st(1) using I by (auto simp: detached_def)
    with I st(2) show "case e of Some y \<Rightarrow> (b \<longrightarrow> rc_inv en rd w') | None \<Rightarrow> ?I (ys @ [x]) w'"
      by (auto split: option.split)
  qed
  from valid_each [of xs ?I _ "\<lambda>_ w. b \<longrightarrow> rc_inv en rd w", OF this] show ?thesis
    by (rule valid_weaken)
      (use assms in \<open>auto simp: detached_def only_wanted_def split: option.splits dest: map_of_SomeD\<close>)
qed


lemma attach_one_effect:
  assumes run: "run_state (attach_one en (i, m)) (r, l) = (e, (r', l'))" and rd: "rcRootDir r = rd"
  defines "dest \<equiv> rawDestPath rd i (mdVersion m)"
  shows "e = None"
    and "r' \<in> {r, r \<lparr>rcCurrentConfig := map_set i (mdConfigToml m) (rcCurrentConfig r)\<rparr>,
               record_attached i dest (mdConfigToml m) r}"
    and "rc_inv en rd (r, l) \<Longrightarrow> mdId m = i \<Longrightarrow> map_of (rcCurrent r) i \<in> {None, Some dest} \<Longrightarrow> rc_inv en rd (r', l')"
proof -
  let ?c = "if map_of (rcCurrent r) i = Some dest then applyConfigChange en i m else bring_up en i m dest"
  let ?S = "{r, r \<lparr>rcCurrentConfig := map_set i (mdConfigToml m) (rcCurrentConfig r)\<rparr>,
               record_attached i dest (mdConfigToml m) r}"
  obtain e' where "run_state ?c (r, l) = (e', (r', l'))"
    using run rd by (simp add: attach_one_def Let_def rawDest_def dest_def split: prod.splits if_splits)
  note c = this
  have "r' \<in> ?S \<and> (rc_inv en rd (r, l) \<longrightarrow> mdId m = i \<longrightarrow> map_of (rcCurrent r) i \<in> {None, Some dest} \<longrightarrow> rc_inv en rd (r', l'))"
  proof (cases "map_of (rcCurrent r) i = Some dest")
    case True
    then have cfg: "run_state (applyConfigChange en i m) (r, l) = (e', (r', l'))" using c by simp
    have "r' \<in> ?S" using applyConfigChange_run [OF cfg] by simp
    moreover have "rc_inv en rd (r, l) \<Longrightarrow> mdId m = i \<Longrightarrow> rc_inv en rd (r', l')"
      by (rule applyConfigChange_inv [OF _ True _ cfg])
    ultimately show ?thesis by blast
  next
    case False
    then have up: "run_state (bring_up en i m dest) (r, l) = (e', (r', l'))" using c by simp
    have "rc_inv en rd (r', l')" if "rc_inv en rd (r, l)" "mdId m = i" "map_of (rcCurrent r) i = None"
      using validD [OF bring_up_inv [OF that(2), of dest rd] _ up] that by (simp add: dest_def stage_def)
    moreover have "fst (r', l') = (if e' = None then record_attached i dest (mdConfigToml m) r else r)"
      by (rule validD [OF bring_up_effect _ up]) simp
    then have "r' \<in> ?S" by simp
    ultimately show ?thesis using False by blast
  qed
  then show "r' \<in> {r, r \<lparr>rcCurrentConfig := map_set i (mdConfigToml m) (rcCurrentConfig r)\<rparr>,
               record_attached i dest (mdConfigToml m) r}"
    and "rc_inv en rd (r, l) \<Longrightarrow> mdId m = i \<Longrightarrow> map_of (rcCurrent r) i \<in> {None, Some dest} \<Longrightarrow> rc_inv en rd (r', l')"
    by blast+
  show "e = None" using run by (auto simp: attach_one_def Let_def split: prod.splits)
qed

lemma only_wanted_entry:
  assumes "only_wanted rd want r" "map_of want i = Some m"
  shows "map_of (rcCurrent r) i \<in> {None, Some (rawDestPath rd i (mdVersion m))}"
proof (cases "map_of (rcCurrent r) i")
  case (Some p)
  then have "wanted rd want i p" using assms(1) by (simp add: only_wanted_def)
  then show ?thesis using assms(2) Some by (simp add: wanted_def)
qed simp

lemma only_wanted_effect:
  assumes "only_wanted rd want r" "map_of want i = Some m"
    "r' \<in> {r, r \<lparr>rcCurrentConfig := x\<rparr>, record_attached i (rawDestPath rd i (mdVersion m)) c r}"
  shows "only_wanted rd want r'" "rcRootDir r' = rcRootDir r"
proof -
  have "wanted rd want i (rawDestPath rd i (mdVersion m))" using assms(2) by (simp add: wanted_def)
  then show "only_wanted rd want r'" using assms(1,3) by (auto simp: only_wanted_def split: if_splits)
  show "rcRootDir r' = rcRootDir r" using assms(3) by auto
qed

text \<open>The attach loop keeps the recorded entries wanted and the invariant.\<close>

lemma attach_loop_valid:
  assumes "\<And>x. x \<in> set xs \<Longrightarrow> map_of want (fst x) = Some (snd x) \<and> mdId (snd x) = fst x"
  shows "valid (\<lambda>w. rcRootDir (fst w) = rd \<and> only_wanted rd want (fst w) \<and> (b \<longrightarrow> rc_inv en rd w)) (each (attach_one en) xs)
    (\<lambda>e w. e = None \<and> only_wanted rd want (fst w) \<and> (b \<longrightarrow> rc_inv en rd w))"
proof -
  let ?I = "\<lambda>w. rcRootDir (fst w) = rd \<and> only_wanted rd want (fst w) \<and> (b \<longrightarrow> rc_inv en rd w)"
  have step: "valid ?I (attach_one en x) (\<lambda>e w. case e of Some y \<Rightarrow> False | None \<Rightarrow> ?I w)"
    if x: "x \<in> set xs" for x
  proof (rule validI)
    fix w e w'
    assume I: "?I w" and run: "run_state (attach_one en x) w = (e, w')"
    obtain i m r l r' l' where [simp]: "x = (i, m)" "w = (r, l)" "w' = (r', l')" by (metis surj_pair)
    have m: "map_of want i = Some m" "mdId m = i" using assms [OF x] by auto
    have rd: "rcRootDir r = rd" using I by simp
    note eff = attach_one_effect [OF run [simplified] rd]
    have ow: "only_wanted rd want r" and inv: "b \<longrightarrow> rc_inv en rd (r, l)" using I by simp_all
    note keep = only_wanted_effect [OF ow m(1) eff(2)]
    have "b \<longrightarrow> rc_inv en rd (r', l')" using eff(3) inv m(2) only_wanted_entry [OF ow m(1)] by blast
    with keep rd eff(1) show "case e of Some y \<Rightarrow> False | None \<Rightarrow> ?I w'" by simp
  qed
  have "valid ?I (each (attach_one en) xs) (\<lambda>e w. case e of Some y \<Rightarrow> False | None \<Rightarrow> ?I w)"
    by (rule valid_each [of xs "\<lambda>_. ?I" _ "\<lambda>_ _. False"]) (rule step, simp)
  then show ?thesis by (rule valid_weaken) (auto split: option.splits)
qed

lemma ranged_want:
  assumes "ranges_ok en" "x \<in> set (enRangeWant en (want_map d))"
  shows "map_of (want_map d) (fst x) = Some (snd x) \<and> mdId (snd x) = fst x"
proof -
  have "x \<in> set (want_map d)" using assms by (simp add: ranges_ok_def)
  then have "map_of (want_map d) (fst x) = Some (snd x)"
    using wf_map_lookup [OF wf_want_map, of "fst x" "snd x"] by simp
  then show ?thesis using want_map_id by blast
qed

lemma Reconcile_valid:
  assumes "ranges_ok en"
  shows "valid (\<lambda>w. rcRootDir (fst w) = rd \<and> (b \<longrightarrow> rc_inv en rd w)) (Reconcile en d)
    (\<lambda>e w. (e = None \<longrightarrow> only_wanted rd (want_map d) (fst w)) \<and> (b \<longrightarrow> rc_inv en rd w))"
proof -
  let ?want = "want_map d"
  have "valid (\<lambda>w. w = (r, l)) (try_then (each (detach_stale en ?want) (enRangeCurrent en (rcCurrent r))) id
       (each (attach_one en) (enRangeWant en ?want)))
      (\<lambda>e w. (e = None \<longrightarrow> only_wanted rd ?want (fst w)) \<and> (b \<longrightarrow> rc_inv en rd w))"
    if pre: "rcRootDir r = rd" "b \<longrightarrow> rc_inv en rd (r, l)" for r l
  proof (rule valid_try_then)
    show "valid (\<lambda>w. w = (r, l)) (each (detach_stale en ?want) (enRangeCurrent en (rcCurrent r)))
      (\<lambda>e w. case e of Some x \<Rightarrow> (Some (id x) = None \<longrightarrow> only_wanted rd ?want (fst w)) \<and> (b \<longrightarrow> rc_inv en rd w)
         | None \<Rightarrow> rcRootDir (fst w) = rd \<and> only_wanted rd ?want (fst w) \<and> (b \<longrightarrow> rc_inv en rd w))"
      by (rule valid_weaken [OF detach_loop_valid [of _ "rcCurrent r" rd b en ?want]])
        (use assms pre in \<open>auto simp: ranges_ok_def split: option.split\<close>)
    show "valid (\<lambda>w. rcRootDir (fst w) = rd \<and> only_wanted rd ?want (fst w) \<and> (b \<longrightarrow> rc_inv en rd w))
      (each (attach_one en) (enRangeWant en ?want))
      (\<lambda>e w. (e = None \<longrightarrow> only_wanted rd ?want (fst w)) \<and> (b \<longrightarrow> rc_inv en rd w))"
      by (rule valid_weaken [OF attach_loop_valid [OF ranged_want [OF assms]]]) auto
  qed
  then show ?thesis unfolding Reconcile_def Let_def by (intro valid_gets) auto
qed


subsection \<open>Convergence\<close>

lemma get_string_map_set [simp]: "get_string (map_set k v m) j = (if j = k then v else get_string m j)"
  by (simp add: get_string_def)

text \<open>Every call made on behalf of a module succeeds.\<close>

definition reliable :: "env \<Rightarrow> string \<Rightarrow> module_desired \<Rightarrow> bool" where
  "reliable en rd m \<longleftrightarrow> (\<forall>l. \<forall>c \<in> set
     [CFetch (mdRawUrl m) (mdRawSha256 m) (rawDestPath rd (mdId m) (mdVersion m)),
      CAttach (rawDestPath rd (mdId m) (mdVersion m)), CEnsureCreds m, CSyncConfig m,
      CStart (mdId m), CStop (mdId m)]. enAnswer en l c = None)"

definition succeeds :: "('w, 'e option) state \<Rightarrow> bool" where
  "succeeds c \<longleftrightarrow> (\<forall>w. fst (run_state c w) = None)"

lemma succeeds_simps:
  "succeeds (ret None)"
  "succeeds c \<Longrightarrow> succeeds k \<Longrightarrow> succeeds (try_then c f k)"
  "(\<And>x. succeeds (g x)) \<Longrightarrow> succeeds (State_Monad.bind d g)"
  "succeeds c \<Longrightarrow> succeeds (when_eff b c)"
  "(\<And>l. enAnswer en l x = None) \<Longrightarrow> succeeds (call en x)"
  by (auto simp: succeeds_def call_def split: prod.split option.split)
    (metis fst_conv option.distinct(1))

lemma bring_up_succeeds:
  assumes "reliable en rd m" "mdId m = i" "dest = rawDestPath rd i (mdVersion m)"
  shows "succeeds (bring_up en i m dest)"
proof -
  have ok: "enAnswer en l (CFetch (mdRawUrl m) (mdRawSha256 m) dest) = None" "enAnswer en l (CAttach dest) = None"
    "enAnswer en l (CEnsureCreds m) = None" "enAnswer en l (CSyncConfig m) = None" "enAnswer en l (CStart i) = None" for l
    using assms by (simp_all add: reliable_def)
  have "succeeds (rc_attach en i dest)"
    unfolding succeeds_def by (simp add: rc_attach_def call_def ok split: prod.split)
  then show ?thesis
    unfolding bring_up_def fetch_if_missing_def by (intro succeeds_simps ok)
qed

text \<open>The module is recorded at its version and with its configuration.\<close>

definition running :: "string \<Rightarrow> module_desired \<Rightarrow> reconciler \<Rightarrow> bool" where
  "running rd m r \<longleftrightarrow> map_of (rcCurrent r) (mdId m) = Some (rawDestPath rd (mdId m) (mdVersion m)) \<and>
     get_string (rcCurrentConfig r) (mdId m) = mdConfigToml m"

lemma attach_one_running:
  assumes run: "run_state (attach_one en (i, m)) (r, l) = (e, (r', l'))" and rd: "rcRootDir r = rd"
    and rel: "reliable en rd m" and i: "mdId m = i"
  shows "running rd m r'"
proof -
  let ?dest = "rawDestPath rd i (mdVersion m)"
  let ?c = "if map_of (rcCurrent r) i = Some ?dest then applyConfigChange en i m else bring_up en i m ?dest"
  obtain e' where c: "run_state ?c (r, l) = (e', (r', l'))"
    using run rd by (simp add: attach_one_def Let_def rawDest_def split: prod.splits if_splits)
  show ?thesis
  proof (cases "map_of (rcCurrent r) i = Some ?dest")
    case True
    then have cfg: "run_state (applyConfigChange en i m) (r, l) = (e', (r', l'))" using c by simp
    have "enAnswer en ls (CSyncConfig m) = None" "enAnswer en ls (CStop i) = None" "enAnswer en ls (CStart i) = None" for ls
      using rel i by (simp_all add: reliable_def)
    then have "e' = None" using cfg by (simp add: applyConfigChange_def call_def split: if_splits)
    then show ?thesis using applyConfigChange_run [OF cfg] True i by (simp add: running_def split: if_splits)
  next
    case False
    then have up: "run_state (bring_up en i m ?dest) (r, l) = (e', (r', l'))" using c by simp
    have "e' = None" using bring_up_succeeds [OF rel i refl] up unfolding succeeds_def by (metis fst_conv)
    moreover have "fst (r', l') = (if e' = None then record_attached i ?dest (mdConfigToml m) r else r)"
      by (rule validD [OF bring_up_effect _ up]) simp
    ultimately show ?thesis using i by (simp add: running_def)
  qed
qed

lemma attach_one_other:
  assumes run: "run_state (attach_one en (j, n)) (r, l) = (e, (r', l'))" and "j \<noteq> mdId m" and "running rd m r"
  shows "running rd m r'"
  using attach_one_effect(2) [OF run refl] assms(2,3) by (auto simp: running_def)

lemma attach_loop_running:
  assumes rel: "reliable en rd m" and wf: "\<And>x. x \<in> set xs \<Longrightarrow> fst x = mdId m \<Longrightarrow> x = (mdId m, m)"
    and mem: "(mdId m, m) \<in> set xs"
  shows "valid (\<lambda>w. rcRootDir (fst w) = rd) (each (attach_one en) xs) (\<lambda>e w. e = None \<and> running rd m (fst w))"
proof -
  let ?I = "\<lambda>ys w. rcRootDir (fst w) = rd \<and> ((mdId m, m) \<in> set ys \<longrightarrow> running rd m (fst w))"
  have step: "valid (?I ys) (attach_one en x) (\<lambda>e w. case e of Some y \<Rightarrow> False | None \<Rightarrow> ?I (ys @ [x]) w)"
    if xs: "xs = ys @ x # zs" for x ys zs
  proof (rule validI)
    fix w e w'
    assume I: "?I ys w" and run: "run_state (attach_one en x) w = (e, w')"
    obtain j n r l r' l' where [simp]: "x = (j, n)" "w = (r, l)" "w' = (r', l')" by (metis surj_pair)
    have rd: "rcRootDir r = rd" using I by simp
    note run' = run [simplified]
    have "rcRootDir r' = rd" using attach_one_effect(2) [OF run' rd] rd by auto
    moreover have "running rd m r'" if "(mdId m, m) \<in> set (ys @ [x])"
    proof (cases "j = mdId m")
      case True
      then have "n = m" using wf [of x] xs by simp
      with True show ?thesis using attach_one_running [OF _ rd rel] run' by simp
    next
      case False
      then show ?thesis using attach_one_other [OF run' False] I that by auto
    qed
    ultimately show "case e of Some y \<Rightarrow> False | None \<Rightarrow> ?I (ys @ [x]) w'"
      using attach_one_effect(1) [OF run' rd] by simp
  qed
  have "valid (?I []) (each (attach_one en) xs) (\<lambda>e w. case e of Some y \<Rightarrow> False | None \<Rightarrow> ?I xs w)"
    by (rule valid_each [of xs ?I _ "\<lambda>_ _. False"]) (rule step)
  then show ?thesis by (rule valid_weaken) (use mem in \<open>auto split: option.splits\<close>)
qed

lemma Reconcile_running:
  assumes ranges: "ranges_ok en" and want: "map_of (want_map d) (mdId m) = Some m" and rel: "reliable en rd m"
    and run: "run_state (Reconcile en d) (r, l) = (None, (r', l'))" and rd: "rcRootDir r = rd"
  shows "running rd m r'"
proof -
  let ?want = "want_map d"
  have mem: "(mdId m, m) \<in> set (enRangeWant en ?want)"
    using ranges want wf_map_lookup [OF wf_want_map, of "mdId m" m d] by (simp add: ranges_ok_def)
  have uniq: "x = (mdId m, m)" if "x \<in> set (enRangeWant en ?want)" "fst x = mdId m" for x
  proof -
    have "map_of ?want (mdId m) = Some (snd x)" using ranged_want [OF ranges that(1)] unfolding that(2) by blast
    then show ?thesis using want that(2) by (simp add: prod_eq_iff)
  qed
  obtain e1 r1 l1 where 1: "run_state (each (detach_stale en ?want) (enRangeCurrent en (rcCurrent r))) (r, l) = (e1, (r1, l1))"
    by (rule prod_cases3)
  have R: "run_state (Reconcile en d) (r, l) =
      (case e1 of Some x \<Rightarrow> (Some x, (r1, l1)) | None \<Rightarrow> run_state (each (attach_one en) (enRangeWant en ?want)) (r1, l1))"
    unfolding Reconcile_def Let_def run_state_bind run_gets prod.case run_try_then 1 by (simp split: option.split)
  then have "e1 = None" using run by (cases e1) auto
  with R run have 2: "run_state (each (attach_one en) (enRangeWant en ?want)) (r1, l1) = (None, (r', l'))" by simp
  have set: "set (enRangeCurrent en (rcCurrent r)) = set (rcCurrent r)" using ranges by (simp add: ranges_ok_def)
  have "rcRootDir r1 = rd"
    using validD [OF detach_loop_valid [OF set, of rd False en ?want] _ 1] rd \<open>e1 = None\<close> by simp
  then have "None = None \<and> running rd m (fst (r', l'))"
    using validD [OF attach_loop_running [OF rel uniq mem] _ 2] by simp
  then show ?thesis by simp
qed


section \<open>Properties\<close>

text \<open>The agent's passes over a sequence of desired sets.\<close>

definition passes :: "env \<Rightarrow> desired_set list \<Rightarrow> reconciler \<times> host_call list \<Rightarrow> reconciler \<times> host_call list" where
  "passes en ds w = foldl (\<lambda>w d. snd (run_state (Reconcile en d) w)) w ds"

lemma Reconcile_inv:
  assumes "ranges_ok en" "rc_inv en rd w"
  shows "rc_inv en rd (snd (run_state (Reconcile en d) w))"
proof -
  obtain e w' where run: "run_state (Reconcile en d) w = (e, w')" by (rule prod.exhaust)
  have "rcRootDir (fst w) = rd" using assms(2) by (simp add: rc_inv_def)
  then show ?thesis using validD [OF Reconcile_valid [OF assms(1), of rd True] _ run] assms(2) run by simp
qed

lemma passes_inv: "ranges_ok en \<Longrightarrow> rc_inv en rd w \<Longrightarrow> rc_inv en rd (passes en ds w)"
  unfolding passes_def by (induction ds arbitrary: w) (simp_all add: Reconcile_inv)

lemma rc_inv_fresh:
  "rcCurrent r = [] \<Longrightarrow> rcEnsureCreds r \<Longrightarrow> rcSyncConfig r \<Longrightarrow> rc_inv en (rcRootDir r) (r, [])"
  by (simp add: rc_inv_def recorded_ok_def)

definition demo_env :: "(host_call list \<Rightarrow> host_call \<Rightarrow> io_error option) \<Rightarrow> env" where
  "demo_env answer = \<lparr>enAnswer = answer, enContents = (\<lambda>_ _. ''''), enDecode = (\<lambda>_. Inl ''empty''),
     enFormatRate = (\<lambda>_. ''1''), enRangeCurrent = id, enRangeWant = rev\<rparr>"

definition demo_reconciler :: reconciler where
  "demo_reconciler = \<lparr>rcRootDir = ''/data/waypoint'', rcProxyRegistry = False, rcDropinDir = '''',
     rcStateBackingRoot = '''', rcModuleMountRoot = '''', rcReloadUnits = False, rcOnAttach = False, rcOnDetach = False,
     rcEnsureCreds = True, rcSyncConfig = True, rcCurrent = [], rcCurrentConfig = []\<rparr>"

lemma demo_ranges: "ranges_ok (demo_env answer)"
  by (simp add: ranges_ok_def demo_env_def)

text \<open>
  C8. Whatever sequence of desired sets arrives and whichever calls fail, a module unit is only
  started while its image is attached from one of its own paths, after it was given credentials and
  after its last configuration write succeeded; and every module recorded as attached is attached.
\<close>

theorem modules_start_only_when_ready:
  assumes "ranges_ok en" "rcCurrent r = []" "rcEnsureCreds r" "rcSyncConfig r"
  shows "starts_ok en (rcRootDir r) (snd (passes en ds (r, []))) \<and>
    recorded_ok en (rcRootDir r) (rcCurrent (fst (passes en ds (r, [])))) (snd (passes en ds (r, [])))"
  using passes_inv [OF assms(1) rc_inv_fresh [OF assms(2-4)], of ds] by (simp add: rc_inv_def)

theorem modules_start_only_when_ready_witness:
  "starts_ok (demo_env (\<lambda>_ _. None)) ''/data/waypoint'' (snd (passes (demo_env (\<lambda>_ _. None))
     [\<lparr>dsT = None, dsModules = [demo_module ''arm'' ''1'']\<rparr>] (demo_reconciler, [])))"
  using modules_start_only_when_ready [OF demo_ranges, of demo_reconciler "\<lambda>_ _. None"]
  by (simp add: demo_reconciler_def)


lemma succeeds_each: "(\<And>x. x \<in> set xs \<Longrightarrow> succeeds (f x)) \<Longrightarrow> succeeds (each f xs)"
  by (induction xs) (auto intro: succeeds_simps)

lemma attach_loop_succeeds: "succeeds (each (attach_one en) xs)"
  by (rule succeeds_each) (simp add: succeeds_def attach_one_def Let_def split: prod.split)

lemma succeeds_gets: "(\<And>x. succeeds (k x)) \<Longrightarrow> succeeds (gets f \<bind> k)"
  by (rule succeeds_simps)

lemma rc_detach_succeeds:
  "\<forall>l. enAnswer en l (CStop i) = None \<and> enAnswer en l (CDetach i) = None \<Longrightarrow> succeeds (rc_detach en i)"
  unfolding rc_detach_def by (intro succeeds_simps) auto

lemma Reconcile_succeeds:
  assumes "ranges_ok en"
    and "\<forall>i p. (i, p) \<in> set (rcCurrent r) \<and> \<not> wanted (rcRootDir r) (want_map d) i p \<longrightarrow>
      (\<forall>l. enAnswer en l (CStop i) = None \<and> enAnswer en l (CDetach i) = None)"
  shows "fst (run_state (Reconcile en d) (r, l)) = None"
proof -
  let ?I = "\<lambda>w. rcRootDir (fst w) = rcRootDir r"
  let ?xs = "enRangeCurrent en (rcCurrent r)"
  have "valid ?I (detach_stale en (want_map d) x) (\<lambda>e w. case e of Some y \<Rightarrow> False | None \<Rightarrow> ?I w)"
    if x: "x \<in> set ?xs" for x
  proof (rule validI)
    fix w e w'
    assume I: "?I w" and run: "run_state (detach_stale en (want_map d) x) w = (e, w')"
    obtain i p r1 l1 r' l' where [simp]: "x = (i, p)" "w = (r1, l1)" "w' = (r', l')" by (metis surj_pair)
    have mem: "(i, p) \<in> set (rcCurrent r)" using x assms(1) by (simp add: ranges_ok_def)
    have rd: "rcRootDir r1 = rcRootDir r" using I by simp
    have "e = None"
    proof (cases "wanted (rcRootDir r) (want_map d) i p")
      case True
      then show ?thesis using run rd by (auto simp: detach_stale_def wanted_def rawDest_def)
    next
      case False
      then have "succeeds (rc_detach en i)" using assms(2) mem by (intro rc_detach_succeeds) blast
      then have "succeeds (detach_stale en (want_map d) x)"
        unfolding detach_stale_def by (intro succeeds_gets) (auto intro: succeeds_simps split: option.split)
      then show ?thesis using run unfolding succeeds_def by (metis fst_conv)
    qed
    with detach_stale_run(1) [OF run [simplified] rd] rd show "case e of Some y \<Rightarrow> False | None \<Rightarrow> ?I w'" by simp
  qed
  then have "valid ?I (each (detach_stale en (want_map d)) ?xs) (\<lambda>e w. case e of Some y \<Rightarrow> False | None \<Rightarrow> ?I w)"
    by (intro valid_each [of ?xs "\<lambda>_. ?I" _ "\<lambda>_ _. False"]) simp
  then have loop: "e = None" if "run_state (each (detach_stale en (want_map d)) ?xs) (r, l) = (e, w)" for e w
    using validD [OF _ _ that] by (fastforce split: option.splits)
  obtain e w where 1: "run_state (each (detach_stale en (want_map d)) ?xs) (r, l) = (e, w)" by (rule prod.exhaust)
  with loop have "e = None" by blast
  with 1 show ?thesis
    using attach_loop_succeeds [of en "enRangeWant en (want_map d)"]
    by (cases w) (simp add: Reconcile_def Let_def succeeds_def)
qed


lemma run_each_idle:
  "(\<And>x. x \<in> set xs \<Longrightarrow> run_state (f x) w = (None, w)) \<Longrightarrow> run_state (each f xs) w = (None, w)"
  by (induction xs) simp_all

text \<open>
  C12. Once a pass has succeeded and every desired module runs, a further pass over the same set makes
  no call at all and changes nothing.
\<close>

theorem reconcile_idempotent:
  assumes "ranges_ok en" "rc_inv en rd (r, l)"
    and "\<forall>i m. map_of (want_map d) i = Some m \<longrightarrow> reliable en rd m"
    and "run_state (Reconcile en d) (r, l) = (None, (r', l'))"
  shows "run_state (Reconcile en d) (r', l') = (None, (r', l'))"
proof -
  have inv: "rc_inv en rd (r', l')" using Reconcile_inv [OF assms(1,2), of d] assms(4) by simp
  have rd: "rcRootDir r = rd" "rcRootDir r' = rd" and wf: "wf_map (rcCurrent r')"
    using assms(2) inv by (simp_all add: rc_inv_def)
  have ow: "only_wanted rd (want_map d) r'"
    using validD [OF Reconcile_valid [OF assms(1), of rd False] _ assms(4)] rd by simp
  have "run_state (detach_stale en (want_map d) x) (r', l') = (None, (r', l'))" if "x \<in> set (rcCurrent r')" for x
  proof -
    have "map_of (rcCurrent r') (fst x) = Some (snd x)"
      using wf_map_lookup [OF wf, of "fst x" "snd x"] that by simp
    then have "wanted rd (want_map d) (fst x) (snd x)" using ow by (simp add: only_wanted_def)
    then show ?thesis using rd by (auto simp: detach_stale_def wanted_def rawDest_def)
  qed
  then have 1: "run_state (each (detach_stale en (want_map d)) (enRangeCurrent en (rcCurrent r'))) (r', l') = (None, (r', l'))"
    by (intro run_each_idle) (use assms(1) in \<open>simp add: ranges_ok_def\<close>)
  have "run_state (attach_one en x) (r', l') = (None, (r', l'))" if "x \<in> set (enRangeWant en (want_map d))" for x
  proof -
    from ranged_want [OF assms(1) that]
    have x: "map_of (want_map d) (fst x) = Some (snd x)" "mdId (snd x) = fst x" by blast+
    have rel: "reliable en rd (snd x)" using assms(3) x(1) by blast
    have "running rd (snd x) r'"
      by (rule Reconcile_running [OF assms(1) _ rel assms(4) rd(1)]) (simp add: x)
    then show ?thesis using rd x(2) by (simp add: running_def attach_one_def Let_def rawDest_def applyConfigChange_def)
  qed
  then have "run_state (each (attach_one en) (enRangeWant en (want_map d))) (r', l') = (None, (r', l'))"
    by (rule run_each_idle)
  with 1 show ?thesis by (simp add: Reconcile_def Let_def)
qed

theorem reconcile_idempotent_witness:
  "run_state (Reconcile (demo_env (\<lambda>_ _. None)) \<lparr>dsT = None, dsModules = [demo_module ''arm'' ''1'']\<rparr>)
     (snd (run_state (Reconcile (demo_env (\<lambda>_ _. None)) \<lparr>dsT = None, dsModules = [demo_module ''arm'' ''1'']\<rparr>)
       (demo_reconciler, []))) =
   (None, snd (run_state (Reconcile (demo_env (\<lambda>_ _. None)) \<lparr>dsT = None, dsModules = [demo_module ''arm'' ''1'']\<rparr>)
       (demo_reconciler, [])))"
proof -
  let ?en = "demo_env (\<lambda>_ _. None)" and ?d = "\<lparr>dsT = None, dsModules = [demo_module ''arm'' ''1'']\<rparr>"
  obtain e r' l' where run: "run_state (Reconcile ?en ?d) (demo_reconciler, []) = (e, (r', l'))" by (rule prod_cases3)
  have "fst (run_state (Reconcile ?en ?d) (demo_reconciler, [])) = None"
    by (rule Reconcile_succeeds [OF demo_ranges]) (simp add: demo_reconciler_def)
  then have "e = None" using run by simp
  have inv: "rc_inv ?en (rcRootDir demo_reconciler) (demo_reconciler, [])"
    by (rule rc_inv_fresh) (simp_all add: demo_reconciler_def)
  have "run_state (Reconcile ?en ?d) (r', l') = (None, (r', l'))"
    by (rule reconcile_idempotent [OF demo_ranges inv _ run [unfolded \<open>e = None\<close>]])
      (simp add: reliable_def demo_env_def)
  then show ?thesis using run by simp
qed

text \<open>
  An image that was attached but whose unit then failed to start is not recorded, so removing the
  module from the desired set never detaches it: the next pass succeeds without any call and the
  image stays attached.
\<close>

theorem failed_start_leaks_attachment:
  "\<exists>en r l. ranges_ok en \<and> rcCurrent r = [] \<and>
     (r, l) = passes en [\<lparr>dsT = None, dsModules = [demo_module ''arm'' ''1'']\<rparr>] (demo_reconciler, []) \<and>
     run_state (Reconcile en empty_set) (r, l) = (None, (r, l)) \<and>
     holds_image en (rawDestPath ''/data/waypoint'' ''arm'' ''1'') ''arm'' l"
proof -
  let ?en = "demo_env (\<lambda>_ c. if c = CStart ''arm'' then Some (IOError ''failed'') else None)"
  let ?m = "demo_module ''arm'' ''1''"
  let ?dest = "rawDestPath ''/data/waypoint'' ''arm'' ''1''"
  let ?l = "[CStart ''arm'', CSyncConfig ?m, CEnsureCreds ?m, CAttach ?dest, CStat ?dest]"
  have "passes ?en [\<lparr>dsT = None, dsModules = [?m]\<rparr>] (demo_reconciler, []) = (demo_reconciler, ?l)"
    by (simp add: passes_def Reconcile_def Let_def demo_env_def demo_reconciler_def want_map_def demo_module_def attach_one_def
        bring_up_def fetch_if_missing_def rc_attach_def readManifest_def surface_manifest_def moduleMount_def rawDest_def call_def)
  moreover have "run_state (Reconcile ?en empty_set) (demo_reconciler, ?l) = (None, (demo_reconciler, ?l))"
    by (simp add: Reconcile_def Let_def demo_env_def demo_reconciler_def want_map_def empty_set_def)
  moreover have "holds_image ?en ?dest ''arm'' ?l" by (simp add: ok_def demo_env_def)
  moreover have "rcCurrent demo_reconciler = []" by (simp add: demo_reconciler_def)
  ultimately show ?thesis
    by (intro exI [of _ ?en] exI [of _ demo_reconciler] exI [of _ ?l]) (simp add: demo_ranges)
qed

section \<open>Storage paths\<close>

lemma rawDestPath_plain:
  assumes "rd \<noteq> ''''" "plain_name i" "plain_name v"
  shows "rawDestPath rd i v = show_path (is_rooted rd) (comps rd @ [''modules'', i, v, i @ ''.raw''])"
proof -
  have "plain_name (i @ ''.raw'')" using assms(2) by (auto simp: plain_name_def)
  then show ?thesis
    using path_join_plain [OF assms(1), of "[''modules'', i, v, i @ ''.raw'']"] assms(2,3)
    by (simp add: rawDestPath_def rawImageName_def plain_name_def)
qed

text \<open>
  Two modules, or two versions of one module, never share an image path, as long as ids and
  versions are plain path components.
\<close>

theorem raw_paths_distinct:
  assumes "rd \<noteq> ''''" "plain_name i" "plain_name v" "plain_name i'" "plain_name v'"
    and "rawDestPath rd i v = rawDestPath rd i' v'"
  shows "i = i' \<and> v = v'"
proof -
  have "comps rd @ [''modules'', i, v, i @ ''.raw''] = comps rd @ [''modules'', i', v', i' @ ''.raw'']"
    by (rule show_path_inj [of "is_rooted rd"])
      (use assms comps_no_slash [of _ rd] in \<open>auto simp: rawDestPath_plain plain_name_def\<close>)
  then show ?thesis by simp
qed

theorem raw_paths_distinct_witness:
  "rawDestPath ''/data'' ''arm'' ''1'' \<noteq> rawDestPath ''/data'' ''arm'' ''2''"
  using raw_paths_distinct [of "''/data''" "''arm''" "''1''" "''arm''" "''2''"] by (auto simp: plain_name_def)


section \<open>Hook calls follow the records\<close>

text \<open>The modules a hook listener believes attached, starting from a set.\<close>

fun hooked :: "string set \<Rightarrow> host_call list \<Rightarrow> string set" where
  "hooked A [] = A"
| "hooked A (c # l) = (case c of COnAttach i _ \<Rightarrow> insert i (hooked A l) | COnDetach i \<Rightarrow> hooked A l - {i} | _ \<Rightarrow> hooked A l)"

definition nohook :: "host_call \<Rightarrow> bool" where
  "nohook c \<longleftrightarrow> (case c of COnAttach _ _ \<Rightarrow> False | COnDetach _ \<Rightarrow> False | _ \<Rightarrow> True)"

lemma nohook_simps [simp]:
  "nohook (CAttach p)" "nohook (CDetach i)" "nohook (CStart i)" "nohook (CStop i)" "nohook (CEnsureCreds m)"
  "nohook (CSyncConfig m)" "nohook (CProxyClear i)"
  by (simp_all add: nohook_def)

lemma hooked_nohook [simp]: "nohook c \<Longrightarrow> hooked A (c # l) = hooked A l"
  by (cases c) (simp_all add: nohook_def)

lemma emits_quiet_nohook: "emits quiet c \<Longrightarrow> emits nohook c"
  by (erule emits_weaken) (auto simp: quiet_def nohook_def split: host_call.splits)

definition tracks :: "string set \<Rightarrow> reconciler \<times> host_call list \<Rightarrow> bool" where
  "tracks A w \<longleftrightarrow> rcOnAttach (fst w) \<and> rcOnDetach (fst w) \<and> hooked A (snd w) = dom (map_of (rcCurrent (fst w)))"

lemma valid_tracks_emits: "emits nohook c \<Longrightarrow> valid (tracks A) c (\<lambda>_. tracks A)"
  by (rule valid_emits, assumption) (simp add: tracks_def del: hooked.simps)

lemma valid_keep_try:
  assumes "valid T c (\<lambda>_. T)" "valid T k (\<lambda>_. T)"
  shows "valid T (try_then c f k) (\<lambda>_. T)"
  by (rule valid_try_then [OF _ assms(2)], rule valid_weaken [OF assms(1)]) (auto split: option.split)

lemma valid_tracks_try:
  "emits nohook c \<Longrightarrow> valid (tracks A) k (\<lambda>_. tracks A) \<Longrightarrow> valid (tracks A) (try_then c f k) (\<lambda>_. tracks A)"
  by (rule valid_keep_try [OF valid_tracks_emits])

lemma emits_nohook_call: "nohook c \<Longrightarrow> emits nohook (call en c)" "nohook c \<Longrightarrow> emits nohook (when_eff b (call en c))"
  by (auto intro: eff_rules)

lemma nohook_rc_attach: "emits nohook (rc_attach en i dest)"
  unfolding rc_attach_def by (intro eff_rules) auto

lemma rc_detach_tracks: "valid (tracks A) (rc_detach en i) (\<lambda>_. tracks A)"
  unfolding rc_detach_def
proof (rule valid_gets)
  fix r l
  assume pre: "tracks A (r, l)"
  then have on [simp]: "rcOnDetach r" by (simp add: tracks_def)
  have fin: "valid (tracks A) (do {
         _ \<leftarrow> when_eff (rcProxyRegistry r) (call en (CProxyClear i));
         modify (\<lambda>r. r \<lparr>rcCurrent := map_del i (rcCurrent r)\<rparr>);
         _ \<leftarrow> when_eff (rcOnDetach r) (call en (COnDetach i));
         ret None }) (\<lambda>_. tracks A)"
    by (rule validI) (auto simp: tracks_def call_def dom_def split: if_splits)
  show "valid (\<lambda>w. w = (r, l)) (try_then (call en (CStop i)) (RcStop i) (do {
       _ \<leftarrow> unmount_module en i;
       try_then (call en (CDetach i)) (RcDetach i) (do {
         _ \<leftarrow> when_eff (rcProxyRegistry (id r)) (call en (CProxyClear i));
         modify (\<lambda>r. r \<lparr>rcCurrent := map_del i (rcCurrent r)\<rparr>);
         _ \<leftarrow> when_eff (rcOnDetach (id r)) (call en (COnDetach i));
         ret None }) })) (\<lambda>_. tracks A)"
    unfolding id_apply
    by (rule valid_weaken [OF valid_tracks_try [OF emits_nohook_call(1) valid_bind [OF
        valid_tracks_emits [OF emits_quiet_nohook [OF quiet_unmount_module]]
        valid_tracks_try [OF emits_nohook_call(1) fin]]]])
      (use pre in auto)
qed

lemma bring_up_tracks: "valid (tracks A) (bring_up en i m dest) (\<lambda>_. tracks A)"
  unfolding bring_up_def
proof (rule valid_gets)
  fix r l
  assume pre: "tracks A (r, l)"
  then have on [simp]: "rcOnAttach r" by (simp add: tracks_def)
  have fin: "valid (tracks A) (do {
          modify (\<lambda>r. r \<lparr>rcCurrent := map_set i dest (rcCurrent r),
             rcCurrentConfig := map_set i (mdConfigToml m) (rcCurrentConfig r)\<rparr>);
          _ \<leftarrow> when_eff (rcOnAttach r) (call en (COnAttach i mf));
          ret None }) (\<lambda>_. tracks A)" for mf
    by (rule validI) (auto simp: tracks_def call_def dom_def split: if_splits)
  show "valid (\<lambda>w. w = (r, l)) (try_then (fetch_if_missing en m dest) id
     (try_then (rc_attach en i dest) id (do {
       manifest \<leftarrow> readManifest en i dest;
       _ \<leftarrow> surface_manifest en i manifest;
       try_then (when_eff (rcEnsureCreds (id r)) (call en (CEnsureCreds m))) RcHook
       (try_then (when_eff (rcSyncConfig (id r)) (call en (CSyncConfig m))) RcHook
       (try_then (call en (CStart i)) RcStart (do {
          modify (\<lambda>r. r \<lparr>rcCurrent := map_set i dest (rcCurrent r),
             rcCurrentConfig := map_set i (mdConfigToml m) (rcCurrentConfig r)\<rparr>);
          _ \<leftarrow> when_eff (rcOnAttach (id r)) (call en (COnAttach i manifest));
          ret None }))) }))) (\<lambda>_. tracks A)"
    unfolding id_apply
    by (rule valid_weaken [OF valid_tracks_try [OF emits_quiet_nohook [OF quiet_fetch_if_missing]
        valid_tracks_try [OF nohook_rc_attach
        valid_bind [OF valid_tracks_emits [OF emits_quiet_nohook [OF quiet_readManifest]]
        valid_bind [OF valid_tracks_emits [OF emits_quiet_nohook [OF quiet_surface_manifest]]
        valid_tracks_try [OF emits_nohook_call(2) valid_tracks_try [OF emits_nohook_call(2)
        valid_tracks_try [OF emits_nohook_call(1) fin]]]]]]]])
      (use pre in auto)
qed

lemma applyConfigChange_tracks: "valid (tracks A) (applyConfigChange en i m) (\<lambda>_. tracks A)"
  by (rule validI) (auto simp: applyConfigChange_def call_def tracks_def split: option.splits if_splits)

lemma valid_tracks_each:
  "(\<And>x. valid (tracks A) (f x) (\<lambda>_. tracks A)) \<Longrightarrow> valid (tracks A) (each f xs) (\<lambda>_. tracks A)"
  by (induction xs) (auto intro: valid_ret valid_keep_try)

lemma Reconcile_tracks: "valid (tracks A) (Reconcile en d) (\<lambda>_. tracks A)"
proof -
  have "valid (tracks A) (attach_one en x) (\<lambda>_. tracks A)" for x
    unfolding attach_one_def Let_def
    by (rule valid_gets_any, rule valid_bind [where R = "\<lambda>_. tracks A"])
      (auto intro: bring_up_tracks applyConfigChange_tracks valid_ret)
  moreover have "valid (tracks A) (detach_stale en want x) (\<lambda>_. tracks A)" for x want
    unfolding detach_stale_def
    by (rule valid_gets_any) (auto intro: rc_detach_tracks valid_when split: option.split)
  ultimately show ?thesis
    unfolding Reconcile_def Let_def
    by (intro valid_gets_any valid_keep_try valid_tracks_each)
qed

end
