(* ===== verification/Discovery.thy ===== *)
theory Discovery
  imports LocalAuth Reconciler
begin

text \<open>
  The rover's \<^verbatim>\<open>modules.toml\<close> and what the agent derives from it: \<^verbatim>\<open>config.go\<close>, \<^verbatim>\<open>discovery.go\<close> and
  \<^verbatim>\<open>creds.go\<close> of \<^verbatim>\<open>agent/internal/modules\<close>. The TOML codec and the file system are arguments. The
  lemmas show which documents are accepted, that discovery yields exactly the enabled modules that
  are installed, and what the credential files contain.
\<close>

section \<open>modules.toml\<close>

text \<open>A decoded TOML value, Go's \<^verbatim>\<open>any\<close>.\<close>

datatype toml_value = TString string | TInt int | TFloat f64 | TBool bool
  | TArray "toml_value list" | TTable "(string \<times> toml_value) list"

type_synonym toml_table = "(string \<times> toml_value) list"

record rover_module_config =
  rmID :: string
  rmEnable :: bool
  rmConfig :: "toml_table option"

record raw_modules_config =
  rawModules :: "(string \<times> bool) list"
  rawModulesConfig :: "(string \<times> toml_table) list"

datatype config_error =
    CfgRead string | CfgDecode string | CfgMissingID nat | CfgDuplicate string
  | CfgReadDir string | CfgReadManifest string string | CfgManifest string manifest_error

text \<open>The loop over \<^verbatim>\<open>[[modules]]\<close>; \<open>i\<close> is the index, \<open>seen\<close> the ids so far.\<close>

fun ParseModulesConfig_loop ::
  "(string \<times> toml_table) list \<Rightarrow> nat \<Rightarrow> string list \<Rightarrow> (string \<times> bool) list \<Rightarrow> config_error + rover_module_config list" where
  "ParseModulesConfig_loop tables i seen [] = Inr []"
| "ParseModulesConfig_loop tables i seen ((mid, enable) # ms) =
     (if mid = '''' then Inl (CfgMissingID i)
      else if mid \<in> set seen then Inl (CfgDuplicate mid)
      else res_bind (ParseModulesConfig_loop tables (Suc i) (mid # seen) ms)
        (\<lambda>cs. Inr (\<lparr>rmID = mid, rmEnable = enable, rmConfig = map_of tables mid\<rparr> # cs)))"

definition ParseModulesConfigString ::
  "(string \<Rightarrow> string + raw_modules_config) \<Rightarrow> string \<Rightarrow> config_error + rover_module_config list" where
  "ParseModulesConfigString decode s =
     (case decode s of
        Inl e \<Rightarrow> Inl (CfgDecode e)
      | Inr raw \<Rightarrow> ParseModulesConfig_loop (rawModulesConfig raw) 0 [] (rawModules raw))"

definition decodeModulesConfig ::
  "(string \<Rightarrow> string + raw_modules_config) \<Rightarrow> string \<Rightarrow> config_error + (string \<times> toml_table) list" where
  "decodeModulesConfig decode s = (case decode s of Inl e \<Rightarrow> Inl (CfgDecode e) | Inr raw \<Rightarrow> Inr (rawModulesConfig raw))"

text \<open>\<open>readf\<close> reads a file.\<close>

definition LoadModulesConfig ::
  "(string \<Rightarrow> io_error + string) \<Rightarrow> (string \<Rightarrow> string + raw_modules_config) \<Rightarrow> string
    \<Rightarrow> config_error + rover_module_config list" where
  "LoadModulesConfig readf decode path =
     (case readf path of
        Inl IONotExist \<Rightarrow> Inr []
      | Inl (IOError e) \<Rightarrow> Inl (CfgRead e)
      | Inr data \<Rightarrow> ParseModulesConfigString decode data)"


section \<open>Discovery\<close>

record module_spec =
  spManifest :: manifest
  spConfig :: "toml_table option"

text \<open>The entries of a directory listing: name and whether it is a directory.\<close>

fun readManifests_loop ::
  "(string \<Rightarrow> io_error + string) \<Rightarrow> (string \<Rightarrow> string + raw_manifest) \<Rightarrow> string \<Rightarrow> (string \<times> manifest) list
    \<Rightarrow> (string \<times> bool) list \<Rightarrow> config_error + (string \<times> manifest) list" where
  "readManifests_loop readf decode dir out [] = Inr out"
| "readManifests_loop readf decode dir out ((name, isDir) # es) =
     (if \<not> isDir then readManifests_loop readf decode dir out es
      else
        let path = path_join [dir, name, ''module.toml''] in
        case readf path of
          Inl IONotExist \<Rightarrow> readManifests_loop readf decode dir out es
        | Inl (IOError e) \<Rightarrow> Inl (CfgReadManifest path e)
        | Inr data \<Rightarrow>
            (case ParseManifest decode data of
               Inl e \<Rightarrow> Inl (CfgManifest path e)
             | Inr m \<Rightarrow> readManifests_loop readf decode dir (map_set (mName m) m out) es))"

definition readManifests ::
  "(string \<Rightarrow> io_error + (string \<times> bool) list) \<Rightarrow> (string \<Rightarrow> io_error + string) \<Rightarrow> (string \<Rightarrow> string + raw_manifest)
    \<Rightarrow> string \<Rightarrow> config_error + (string \<times> manifest) list" where
  "readManifests readDir readf decode dir =
     (case readDir dir of
        Inl IONotExist \<Rightarrow> Inr []
      | Inl (IOError e) \<Rightarrow> Inl (CfgReadDir e)
      | Inr es \<Rightarrow> readManifests_loop readf decode dir [] es)"

fun discover_specs :: "(string \<times> manifest) list \<Rightarrow> rover_module_config list \<Rightarrow> module_spec list" where
  "discover_specs manifests [] = []"
| "discover_specs manifests (r # rs) =
     (if \<not> rmEnable r then discover_specs manifests rs
      else case map_of manifests (rmID r) of
        None \<Rightarrow> discover_specs manifests rs
      | Some m \<Rightarrow> \<lparr>spManifest = m, spConfig = rmConfig r\<rparr> # discover_specs manifests rs)"

definition Discover ::
  "(string \<Rightarrow> io_error + (string \<times> bool) list) \<Rightarrow> (string \<Rightarrow> io_error + string) \<Rightarrow> (string \<Rightarrow> string + raw_manifest)
    \<Rightarrow> (string \<Rightarrow> string + raw_modules_config) \<Rightarrow> string \<Rightarrow> string \<Rightarrow> config_error + module_spec list" where
  "Discover readDir readf decodeManifest decodeConfig installDir configPath =
     res_bind (readManifests readDir readf decodeManifest installDir) (\<lambda>manifests.
     res_bind (LoadModulesConfig readf decodeConfig configPath) (\<lambda>rover.
     Inr (discover_specs manifests rover)))"


section \<open>Runtime files\<close>

definition writeTOML ::
  "env \<Rightarrow> ('v \<Rightarrow> string + string) \<Rightarrow> string \<Rightarrow> 'v \<Rightarrow> ('s, host_call, io_error option) eff" where
  "writeTOML en encode path v = (case encode v of
     Inl e \<Rightarrow> ret (Some (IOError e))
   | Inr body \<Rightarrow> perform (enAnswer en) (CWriteFile path body))"

definition creds_body :: "credentials \<Rightarrow> string" where
  "creds_body creds = ''WAYPOINT_NATS_USER='' @ cUsername creds @ nl @ ''WAYPOINT_NATS_PASSWORD='' @ cPassword creds @ nl"

definition WriteRuntimeFiles ::
  "env \<Rightarrow> (toml_table option \<Rightarrow> string + string) \<Rightarrow> string \<Rightarrow> string \<Rightarrow> toml_table option \<Rightarrow> credentials
    \<Rightarrow> ('s, host_call, io_error option) eff" where
  "WriteRuntimeFiles en encode runtimeDir name cfg creds = do {
     let dir = path_join [runtimeDir, name];
     try_then (perform (enAnswer en) (CMkdirAll dir)) id
     (try_then (writeTOML en encode (path_join [dir, ''config.toml'']) cfg) id
     (perform (enAnswer en) (CWriteFile (path_join [dir, ''creds.env'']) (creds_body creds)))) }"


section \<open>Lemmas\<close>

lemma ParseModulesConfig_loop_Inr:
  "ParseModulesConfig_loop tables i seen ms = Inr cs \<longleftrightarrow>
     '''' \<notin> fst ` set ms \<and> distinct (map fst ms) \<and> set (map fst ms) \<inter> set seen = {} \<and>
     cs = map (\<lambda>(mid, en). \<lparr>rmID = mid, rmEnable = en, rmConfig = map_of tables mid\<rparr>) ms"
  by (induction tables i seen ms arbitrary: cs rule: ParseModulesConfig_loop.induct) (auto simp: disjoint_iff)

lemma discover_specs_eq:
  "discover_specs manifests rs =
     map (\<lambda>r. \<lparr>spManifest = the (map_of manifests (rmID r)), spConfig = rmConfig r\<rparr>)
       (filter (\<lambda>r. rmEnable r \<and> map_of manifests (rmID r) \<noteq> None) rs)"
  by (induction rs) (auto split: option.split)

definition keyed_by_name :: "(string \<times> manifest) list \<Rightarrow> bool" where
  "keyed_by_name ms \<longleftrightarrow> (\<forall>i m. map_of ms i = Some m \<longrightarrow> mName m = i)"

lemma keyed_by_name_set: "keyed_by_name ms \<Longrightarrow> keyed_by_name (map_set (mName m) m ms)"
  by (simp add: keyed_by_name_def)

lemma readManifests_loop_keyed:
  "readManifests_loop readf decode dir out es = Inr ms \<Longrightarrow> keyed_by_name out \<Longrightarrow> keyed_by_name ms"
proof (induction es arbitrary: out)
  case (Cons e es)
  obtain name isDir where e: "e = (name, isDir)" by (cases e)
  let ?path = "path_join [dir, name, ''module.toml'']"
  consider (skip) "readManifests_loop readf decode dir out es = Inr ms"
    | (add) m where "readManifests_loop readf decode dir (map_set (mName m) m out) es = Inr ms"
    using Cons.prems(1) unfolding e readManifests_loop.simps Let_def
    by (auto split: if_splits sum.splits io_error.splits)
  then show ?case
    by cases (use Cons.IH Cons.prems(2) keyed_by_name_set in blast)+
qed simp

lemma LoadModulesConfig_distinct:
  assumes "LoadModulesConfig readf decode path = Inr cs"
  shows "distinct (map rmID cs) \<and> '''' \<notin> set (map rmID cs)"
proof -
  have eq: "map rmID (map (\<lambda>(mid, en). \<lparr>rmID = mid, rmEnable = en, rmConfig = map_of tables mid\<rparr>) ms) = map fst ms"
    for tables :: "(string \<times> toml_table) list" and ms :: "(string \<times> bool) list"
    by (induction ms) auto
  have "distinct (map rmID cs) \<and> '''' \<notin> set (map rmID cs)"
    if "ParseModulesConfig_loop tables 0 [] ms = Inr cs" for tables ms
    using that unfolding ParseModulesConfig_loop_Inr by (elim conjE) (simp only: eq list.set_map simp_thms)
  then show ?thesis
    using assms by (auto simp: LoadModulesConfig_def ParseModulesConfigString_def split: sum.splits io_error.splits)
qed

text \<open>
  Discovery yields one specification for every enabled entry of \<^verbatim>\<open>modules.toml\<close> whose module is
  installed, in file order, under that entry's id; no module appears twice.
\<close>

theorem discover_exact:
  assumes "Discover readDir readf decM decC installDir configPath = Inr specs"
  shows "\<exists>ms rover. readManifests readDir readf decM installDir = Inr ms \<and>
      LoadModulesConfig readf decC configPath = Inr rover \<and>
      map (mName \<circ> spManifest) specs = map rmID (filter (\<lambda>r. rmEnable r \<and> map_of ms (rmID r) \<noteq> None) rover) \<and>
      distinct (map (mName \<circ> spManifest) specs)"
proof -
  obtain ms rover where 1: "readManifests readDir readf decM installDir = Inr ms"
      "LoadModulesConfig readf decC configPath = Inr rover" "specs = discover_specs ms rover"
    using assms by (auto simp: Discover_def)
  have "keyed_by_name ms"
    using 1(1) readManifests_loop_keyed [of readf decM installDir "[]" _ ms]
    by (auto simp: readManifests_def keyed_by_name_def split: sum.splits io_error.splits)
  then have "map (mName \<circ> spManifest) specs = map rmID (filter (\<lambda>r. rmEnable r \<and> map_of ms (rmID r) \<noteq> None) rover)"
    unfolding 1(3) discover_specs_eq by (auto simp: keyed_by_name_def)
  moreover have "distinct (map rmID (filter P rover))" for P
    using LoadModulesConfig_distinct [OF 1(2)] by (simp add: distinct_map_filter)
  ultimately show ?thesis using 1 by (intro exI [of _ ms] exI [of _ rover]) simp
qed

theorem discover_exact_witness:
  "\<exists>specs. Discover (\<lambda>_. Inr [(''survey'', True)]) (\<lambda>_. Inr '''') (\<lambda>_. Inr (demo_raw ''survey''))
      (\<lambda>_. Inr \<lparr>rawModules = [(''ghost'', True), (''survey'', True)], rawModulesConfig = []\<rparr>) ''/i'' ''/c'' = Inr specs \<and>
    map (mName \<circ> spManifest) specs = [''survey'']"
proof -
  let ?D = "Discover (\<lambda>_. Inr [(''survey'', True)]) (\<lambda>_. Inr '''') (\<lambda>_. Inr (demo_raw ''survey''))
      (\<lambda>_. Inr \<lparr>rawModules = [(''ghost'', True), (''survey'', True)], rawModulesConfig = []\<rparr>) ''/i'' ''/c''"
  have name: "mName (demo_manifest ''survey'') = ''survey''" by (simp add: demo_manifest_def manifest_of_raw_def demo_raw_def)
  have ms: "readManifests (\<lambda>_. Inr [(''survey'', True)]) (\<lambda>_. Inr '''') (\<lambda>_. Inr (demo_raw ''survey'')) ''/i'' =
      Inr [(''survey'', demo_manifest ''survey'')]"
    by (simp add: readManifests_def Let_def demo_parses name)
  obtain specs where D: "?D = Inr specs"
    by (simp add: Discover_def ms LoadModulesConfig_def ParseModulesConfigString_def)
  have "map (mName \<circ> spManifest) specs = [''survey'']"
    using discover_exact [OF D] by (auto simp: ms LoadModulesConfig_def ParseModulesConfigString_def)
  from conjI [OF D this] show ?thesis by (rule exI [of _ specs])
qed

end
