(* ===== verification/Snapshot.thy ===== *)
theory Snapshot
  imports Discovery "HOL-Library.List_Lexorder" "HOL-Library.Char_ord"
begin

text \<open>
  Module health and the module snapshot the dashboard shows: \<^verbatim>\<open>health.go\<close> and \<^verbatim>\<open>publisher.go\<close> of
  \<^verbatim>\<open>agent/internal/modules\<close>. Clock readings and the outcome of a health request are arguments; the
  change channel of capacity one is a flag. The lemmas show that a module counts as healthy exactly
  while fewer than three requests in a row have failed since a reply, and that a snapshot lists every
  module once.
\<close>

section \<open>Health watcher\<close>

record health_watcher =
  hwHealthy :: bool
  hwMisses :: nat
  hwLastSeen :: time

definition healthMissThreshold :: nat where
  "healthMissThreshold = 3"

definition NewHealthWatcher :: health_watcher where
  "NewHealthWatcher = \<lparr>hwHealthy = False, hwMisses = 0, hwLastSeen = 0\<rparr>"

text \<open>One poll: the new state, and the value \<^verbatim>\<open>OnChange\<close> is called with, if it is.\<close>

definition hw_tick :: "bool \<Rightarrow> time \<Rightarrow> health_watcher \<Rightarrow> health_watcher \<times> bool option" where
  "hw_tick replied now h =
     (let h' = (if \<not> replied then
                  let h1 = h \<lparr>hwMisses := Suc (hwMisses h)\<rparr> in
                  (if hwMisses h1 \<ge> healthMissThreshold \<and> hwHealthy h1 then h1 \<lparr>hwHealthy := False\<rparr> else h1)
                else h \<lparr>hwMisses := 0, hwLastSeen := now, hwHealthy := True\<rparr>)
      in (h', if hwHealthy h' \<noteq> hwHealthy h then Some (hwHealthy h') else None))"

text \<open>A run of polls, with the reports it makes.\<close>

fun hw_run :: "(bool \<times> time) list \<Rightarrow> health_watcher \<Rightarrow> health_watcher \<times> bool list" where
  "hw_run [] h = (h, [])"
| "hw_run ((r, now) # ps) h =
     (let (h1, e) = hw_tick r now h; (h2, es) = hw_run ps h1
      in (h2, (case e of None \<Rightarrow> es | Some b \<Rightarrow> b # es)))"


section \<open>Snapshot publisher\<close>

datatype module_origin = ORIGIN_UNSPECIFIED | ORIGIN_PROXY | ORIGIN_LOCAL

datatype ui_proto_kind = KIND_UNSPECIFIED | KIND_STATIC | KIND_PROXY

record module_ui =
  muKind :: ui_proto_kind
  muTabId :: string
  muLanOnly :: bool
  muTeleop :: "teleop_window option"

record module_info =
  miId :: string
  miLabel :: string
  miVersion :: string
  miTabId :: string
  miHealthy :: bool
  miUi :: "module_ui option"
  miOrigin :: module_origin
  miComponent :: "mod_component option"
  miComponents :: "mod_component list"
  miConfigFields :: "config_field list"
  miLastSeen :: "time option"

record snapshot_publisher =
  spSpecs :: "module_spec list"
  spHealthy :: "(string \<times> bool) list"
  spLastSeen :: "(string \<times> time) list"
  spRuntime :: "(string \<times> manifest \<times> module_origin) list"
  spChange :: bool

definition NewSnapshotPublisher :: "module_spec list \<Rightarrow> snapshot_publisher" where
  "NewSnapshotPublisher specs = \<lparr>spSpecs = specs, spHealthy = [], spLastSeen = [], spRuntime = [], spChange = False\<rparr>"

definition signalChange :: "snapshot_publisher \<Rightarrow> snapshot_publisher" where
  "signalChange p = p \<lparr>spChange := True\<rparr>"

definition get_bool :: "(string \<times> bool) list \<Rightarrow> string \<Rightarrow> bool" where
  "get_bool m k = (case map_of m k of Some b \<Rightarrow> b | None \<Rightarrow> False)"

definition SetHealth :: "time \<Rightarrow> string \<Rightarrow> bool \<Rightarrow> snapshot_publisher \<Rightarrow> snapshot_publisher" where
  "SetHealth now i healthy p =
     (let p1 = p \<lparr>spHealthy := map_set i healthy (spHealthy p)\<rparr>;
          p2 = (if healthy then p1 \<lparr>spLastSeen := map_set i now (spLastSeen p1)\<rparr> else p1)
      in if get_bool (spHealthy p) i \<noteq> healthy then signalChange p2 else p2)"

definition SetRuntimeModule :: "string \<Rightarrow> manifest \<Rightarrow> module_origin \<Rightarrow> snapshot_publisher \<Rightarrow> snapshot_publisher" where
  "SetRuntimeModule i m origin p = signalChange (p \<lparr>spRuntime := map_set i (m, origin) (spRuntime p)\<rparr>)"

definition RemoveRuntimeModule :: "string \<Rightarrow> snapshot_publisher \<Rightarrow> snapshot_publisher" where
  "RemoveRuntimeModule i p = signalChange (p \<lparr>spRuntime := map_del i (spRuntime p),
     spHealthy := map_del i (spHealthy p), spLastSeen := map_del i (spLastSeen p)\<rparr>)"

definition uiToProto :: "ui_binding \<Rightarrow> module_ui option" where
  "uiToProto ui =
     (if uKind ui = UIKindNone \<and> uTeleop ui = None then None
      else Some \<lparr>muKind = (case uKind ui of UIKindStatic \<Rightarrow> KIND_STATIC | UIKindProxy \<Rightarrow> KIND_PROXY | UIKindNone \<Rightarrow> KIND_UNSPECIFIED),
        muTabId = uTabID ui, muLanOnly = uLANOnly ui, muTeleop = uTeleop ui\<rparr>)"

definition manifestToInfo :: "manifest \<Rightarrow> bool \<Rightarrow> module_origin \<Rightarrow> module_info" where
  "manifestToInfo m healthy origin =
     \<lparr>miId = mName m, miLabel = mLabel m, miVersion = mVersion m, miTabId = uTabID (mUI m), miHealthy = healthy,
      miUi = uiToProto (mUI m), miOrigin = origin,
      miComponent = (case mComponents m of [] \<Rightarrow> None | c # _ \<Rightarrow> Some c), miComponents = mComponents m,
      miConfigFields = mConfigFields m, miLastSeen = None\<rparr>"

definition with_last_seen :: "snapshot_publisher \<Rightarrow> string \<Rightarrow> module_info \<Rightarrow> module_info" where
  "with_last_seen p i info = (case map_of (spLastSeen p) i of None \<Rightarrow> info | Some ls \<Rightarrow> info \<lparr>miLastSeen := Some ls\<rparr>)"

definition baked_info :: "snapshot_publisher \<Rightarrow> module_spec \<Rightarrow> module_info" where
  "baked_info p s = (let i = mName (spManifest s) in
     with_last_seen p i (manifestToInfo (spManifest s) (get_bool (spHealthy p) i) ORIGIN_UNSPECIFIED))"

definition runtime_info :: "snapshot_publisher \<Rightarrow> string \<times> manifest \<times> module_origin \<Rightarrow> module_info" where
  "runtime_info p e = (case e of (i, m, origin) \<Rightarrow>
     with_last_seen p i ((manifestToInfo m (get_bool (spHealthy p) i) origin) \<lparr>miId := i\<rparr>))"

definition buildSnapshot :: "snapshot_publisher \<Rightarrow> module_info list" where
  "buildSnapshot p =
     map (baked_info p) (filter (\<lambda>s. map_of (spRuntime p) (mName (spManifest s)) = None) (spSpecs p)) @
     map (\<lambda>i. runtime_info p (i, the (map_of (spRuntime p) i))) (sort (map fst (spRuntime p)))"


section \<open>Health\<close>

text \<open>Reference: how many polls failed since the last reply.\<close>

definition trailing_misses :: "(bool \<times> time) list \<Rightarrow> nat" where
  "trailing_misses ps = length (takeWhile (\<lambda>p. \<not> fst p) (rev ps))"

lemma hw_run_append:
  "hw_run (ps @ qs) h = (let (h1, e1) = hw_run ps h; (h2, e2) = hw_run qs h1 in (h2, e1 @ e2))"
  by (induction ps h rule: hw_run.induct) (auto simp: Let_def split: prod.splits option.splits)

lemma hw_run_spec:
  "hwHealthy (fst (hw_run ps NewHealthWatcher)) = ((\<exists>p \<in> set ps. fst p) \<and> trailing_misses ps < healthMissThreshold) \<and>
   hwMisses (fst (hw_run ps NewHealthWatcher)) = trailing_misses ps"
proof (induction ps rule: rev_induct)
  case Nil
  then show ?case by (simp add: NewHealthWatcher_def trailing_misses_def)
next
  case (snoc p ps)
  obtain h es where h: "hw_run ps NewHealthWatcher = (h, es)" by fastforce
  obtain r t where p: "p = (r, t)" by (cases p)
  have "trailing_misses (ps @ [p]) = (if r then 0 else Suc (trailing_misses ps))"
    by (simp add: trailing_misses_def p)
  then show ?case
    using snoc.IH unfolding h hw_run_append p
    by (auto simp: hw_tick_def Let_def healthMissThreshold_def split: if_splits)
qed

text \<open>The reports are the values after each change, starting from unhealthy.\<close>

fun alternates :: "bool \<Rightarrow> bool list \<Rightarrow> bool" where
  "alternates b [] = True"
| "alternates b (c # cs) = (c \<noteq> b \<and> alternates c cs)"

lemma hw_run_reports:
  "alternates (hwHealthy h) (snd (hw_run ps h)) \<and>
   hwHealthy (fst (hw_run ps h)) = (if snd (hw_run ps h) = [] then hwHealthy h else last (snd (hw_run ps h)))"
proof (induction ps h rule: hw_run.induct)
  case (2 r now ps h)
  obtain h1 e where t: "hw_tick r now h = (h1, e)" by fastforce
  have e: "e = (if hwHealthy h1 \<noteq> hwHealthy h then Some (hwHealthy h1) else None)"
    using t by (auto simp: hw_tick_def Let_def)
  show ?case using 2 [OF refl, of h1 e] t e by (auto simp: split: prod.splits)
qed simp

text \<open>
  C38. A module is reported healthy exactly when it has answered and fewer than three requests in a
  row failed since; a report is made at every change and only then.
\<close>

theorem health_tracks_recent_replies:
  "hwHealthy (fst (hw_run ps NewHealthWatcher)) = ((\<exists>p \<in> set ps. fst p) \<and> trailing_misses ps < 3) \<and>
   alternates False (snd (hw_run ps NewHealthWatcher)) \<and>
   hwHealthy (fst (hw_run ps NewHealthWatcher)) =
     (snd (hw_run ps NewHealthWatcher) \<noteq> [] \<and> last (snd (hw_run ps NewHealthWatcher)))"
proof -
  have new: "hwHealthy NewHealthWatcher = False" by (simp add: NewHealthWatcher_def)
  note spec = hw_run_spec [of ps, unfolded healthMissThreshold_def]
    and reports = hw_run_reports [of NewHealthWatcher ps, unfolded new]
  show ?thesis by (intro conjI) (use spec reports in \<open>blast, blast, simp split: if_splits\<close>)
qed


section \<open>Snapshots\<close>

lemma miId_with_last_seen [simp]: "miId (with_last_seen p i info) = miId info"
  by (simp add: with_last_seen_def split: option.split)

lemma miId_runtime_info [simp]: "miId (runtime_info p e) = fst e"
  by (simp add: runtime_info_def split: prod.split)

lemma miId_baked_info [simp]: "miId (baked_info p s) = mName (spManifest s)"
  by (simp add: baked_info_def manifestToInfo_def Let_def)

lemma snapshot_ids:
  "map miId (buildSnapshot p) =
     map (mName \<circ> spManifest) (filter (\<lambda>s. map_of (spRuntime p) (mName (spManifest s)) = None) (spSpecs p)) @
     sort (map fst (spRuntime p))"
  by (simp add: buildSnapshot_def comp_def)

datatype pub_event = EvHealth time string bool | EvSet string manifest module_origin | EvRemove string

fun pub_step :: "snapshot_publisher \<Rightarrow> pub_event \<Rightarrow> snapshot_publisher" where
  "pub_step p (EvHealth now i h) = SetHealth now i h p"
| "pub_step p (EvSet i m c) = SetRuntimeModule i m c p"
| "pub_step p (EvRemove i) = RemoveRuntimeModule i p"

lemma pub_step_inv:
  "wf_map (spRuntime p) \<Longrightarrow> wf_map (spRuntime (pub_step p ev)) \<and> spSpecs (pub_step p ev) = spSpecs p"
  by (cases ev) (auto simp: SetHealth_def SetRuntimeModule_def RemoveRuntimeModule_def signalChange_def Let_def)

lemma pub_run_inv:
  "wf_map (spRuntime p) \<Longrightarrow> wf_map (spRuntime (foldl pub_step p evs)) \<and> spSpecs (foldl pub_step p evs) = spSpecs p"
  by (induction evs arbitrary: p) (auto simp: pub_step_inv)

text \<open>
  Whatever attach, detach and health events happened, a snapshot lists every baked or attached
  module exactly once: a baked module that is also attached appears as the attached one only, and the
  attached ones come last, sorted by id.
\<close>

theorem snapshot_lists_each_once:
  assumes "distinct (map (mName \<circ> spManifest) specs)"
    and "p = foldl pub_step (NewSnapshotPublisher specs) evs"
  shows "distinct (map miId (buildSnapshot p)) \<and>
    set (map miId (buildSnapshot p)) = set (map (mName \<circ> spManifest) specs) \<union> set (map fst (spRuntime p)) \<and>
    (\<exists>baked. map miId (buildSnapshot p) = baked @ sort (map fst (spRuntime p)))"
proof -
  have inv: "wf_map (spRuntime p)" "spSpecs p = specs"
    using pub_run_inv [of "NewSnapshotPublisher specs" evs] by (simp_all add: assms(2) NewSnapshotPublisher_def)
  have "distinct (map (mName \<circ> spManifest) (filter P specs))" for P
    using assms(1) by (simp add: distinct_map_filter)
  moreover have "i \<in> set (map fst (spRuntime p)) \<longleftrightarrow> map_of (spRuntime p) i \<noteq> None" for i
    by (simp add: map_of_eq_None_iff)
  ultimately show ?thesis
    using inv by (auto simp: snapshot_ids wf_map_def map_of_eq_None_iff)
qed

theorem snapshot_lists_each_once_witness:
  "map miId (buildSnapshot (foldl pub_step (NewSnapshotPublisher [\<lparr>spManifest = demo_manifest ''survey'', spConfig = None\<rparr>])
     [EvSet ''survey'' (demo_manifest ''survey'') ORIGIN_LOCAL])) = [''survey'']"
proof -
  let ?specs = "[\<lparr>spManifest = demo_manifest ''survey'', spConfig = None\<rparr>]"
  let ?p = "foldl pub_step (NewSnapshotPublisher ?specs) [EvSet ''survey'' (demo_manifest ''survey'') ORIGIN_LOCAL]"
  have name: "mName (demo_manifest ''survey'') = ''survey''" by (simp add: demo_manifest_def manifest_of_raw_def demo_raw_def)
  have rt: "map fst (spRuntime ?p) = [''survey'']"
    by (simp add: SetRuntimeModule_def NewSnapshotPublisher_def signalChange_def)
  have "distinct (map miId (buildSnapshot ?p)) \<and> set (map miId (buildSnapshot ?p)) = {''survey''}"
    using snapshot_lists_each_once [of ?specs ?p "[EvSet ''survey'' (demo_manifest ''survey'') ORIGIN_LOCAL]"]
    unfolding rt by (simp add: name)
  then show ?thesis
    by (metis distinct.simps(2) list.set_intros(1) list.set_intros(2) neq_Nil_conv set_empty singletonD insert_not_empty)
qed

end
