(* ===== verification/Manager.thy ===== *)
theory Manager
  imports Brokers Snapshot
begin

text \<open>
  The module manager, \<^verbatim>\<open>agent/internal/modules/manager.go\<close>: it provisions credentials at boot,
  reconciles the merged desired sets and, through the hooks of the reconciler, opens and closes
  everything a module is given on the rover. The hooks are replayed over the reconciler's call log:
  the manager's state after a pass is the state before with the hook calls of the pass applied in
  order, and the answer to a hook call is computed on the state reached so far. Everything outside the
  agent is in the record \<open>host\<close>.
\<close>

section \<open>State\<close>

record host =
  hoEnv :: env
  hoRand :: "host_call list \<Rightarrow> nat \<Rightarrow> string + bytes"
  hoEncode :: "toml_table option \<Rightarrow> string + string"
  hoDecodeConfig :: "string \<Rightarrow> string + raw_modules_config"
  hoReadDir :: "string \<Rightarrow> io_error + (string \<times> bool) list"
  hoReadFile :: "string \<Rightarrow> io_error + string"
  hoDisk :: "disk_call \<Rightarrow> string option"
  hoMarshal :: "desired_set \<Rightarrow> string + bytes"
  hoUnmarshal :: "bytes \<Rightarrow> string + desired_set"
  hoSetUsers :: "host_call list \<Rightarrow> nats_user list \<Rightarrow> string option"
  hoSubFails :: "nat \<Rightarrow> string \<Rightarrow> string option"

record options =
  opInstallDir :: string
  opConfigPath :: string
  opRuntimeDir :: string
  opConfigDirPath :: string
  opRawStorageDir :: string
  opIsDevImage :: bool
  opRoverID :: string

record staged_module =
  stRawPath :: string
  stStageDir :: string
  stId :: string
  stVersion :: string
  stSignerSAN :: string

record manager =
  mgOpts :: options
  mgSpecs :: "module_spec list"
  mgRoverConfig :: "(string \<times> toml_table) list"
  mgAuth :: "builder option"
  mgServer :: bool
  mgServerUsers :: "nats_user list"
  mgPub :: snapshot_publisher
  mgConn :: conn
  mgUplink :: uplink_mirror
  mgServo :: servo_broker
  mgTeleop :: teleop_broker
  mgDrive :: drive_broker
  mgPollers :: "(string \<times> nat) list"
  mgPolling :: "nat list"
  mgNextPoller :: nat
  mgComponents :: "(string \<times> string list) list"
  mgProxyDesired :: "desired_set option"
  mgLocalDesired :: "desired_set option"
  mgStaging :: "(string \<times> staged_module) list"
  mgTrust :: "trust_error + trust_file"
  mgDisk :: "bytes disk"

datatype mg_error =
    MgAuth auth_error | MgFiles io_error | MgReload string | MgDiscover config_error | MgModule string mg_error
  | MgReconcile rc_error | MgStore store_error

definition proxyCachePath :: "options \<Rightarrow> string" where
  "proxyCachePath o' = path_join [opConfigDirPath o', ''modules.desired.pb'']"

definition localStorePath :: "options \<Rightarrow> string" where
  "localStorePath o' = path_join [opConfigDirPath o', ''modules.local.pb'']"

definition containsString :: "string list \<Rightarrow> string \<Rightarrow> bool" where
  "containsString ss want = list_ex (\<lambda>s. s = want) ss"

definition isLocalID :: "manager \<Rightarrow> string \<Rightarrow> bool" where
  "isLocalID m i = containsModule (mgLocalDesired m) i"


section \<open>Module configuration and credentials\<close>

definition desiredModuleConfig ::
  "host \<Rightarrow> module_desired \<Rightarrow> (string \<times> toml_table) list \<Rightarrow> toml_table option" where
  "desiredModuleConfig ho d roverConfig =
     (if mdConfigToml d \<noteq> '''' then
        (case decodeModulesConfig (hoDecodeConfig ho) (mdConfigToml d) of
           Inl _ \<Rightarrow> map_of roverConfig (mdId d)
         | Inr cfgs \<Rightarrow>
             (case map_of cfgs (mdId d) of Some cfg \<Rightarrow> Some cfg | None \<Rightarrow> map_of roverConfig (mdId d)))
      else map_of roverConfig (mdId d))"

definition module_subtree :: "string \<Rightarrow> module_permissions" where
  "module_subtree i = \<lparr>Publish = [''waypoint.*.module.'' @ i @ ''.>''], Subscribe = [''waypoint.*.module.'' @ i @ ''.>'']\<rparr>"

text \<open>The result of a file operation performed when the calls \<open>l\<close> have been made.\<close>

definition outcome :: "(unit, host_call, 'a) eff \<Rightarrow> host_call list \<Rightarrow> 'a" where
  "outcome c l = fst (run_state c ((), l))"

definition ensureModuleCreds :: "host \<Rightarrow> host_call list \<Rightarrow> module_desired \<Rightarrow> manager \<Rightarrow> mg_error option \<times> manager" where
  "ensureModuleCreds ho l d m =
     (case mgAuth m of
        None \<Rightarrow> (None, m)
      | Some b \<Rightarrow>
          if HasUser b (mdId d) then (None, m)
          else (case AddModuleUser (hoRand ho l) b (mdId d) (opRoverID (mgOpts m)) (module_subtree (mdId d)) of
            (Inl e, b') \<Rightarrow> (Some (MgAuth e), m \<lparr>mgAuth := Some b'\<rparr>)
          | (Inr creds, b') \<Rightarrow>
              let m1 = m \<lparr>mgAuth := Some b'\<rparr> in
              (case outcome (WriteRuntimeFiles (hoEnv ho) (hoEncode ho) (opRuntimeDir (mgOpts m)) (mdId d)
                      (desiredModuleConfig ho d (mgRoverConfig m)) creds) l of
                 Some e \<Rightarrow> (Some (MgFiles e), m1)
               | None \<Rightarrow>
                   if mgServer m1 then
                     (case hoSetUsers ho l (fst (Build b')) of
                        Some e \<Rightarrow> (Some (MgReload e), m1)
                      | None \<Rightarrow> (None, m1 \<lparr>mgServerUsers := fst (Build b')\<rparr>))
                   else (None, m1))))"

definition writeDesiredConfig :: "host \<Rightarrow> host_call list \<Rightarrow> module_desired \<Rightarrow> manager \<Rightarrow> io_error option" where
  "writeDesiredConfig ho l d m =
     (let dir = path_join [opRuntimeDir (mgOpts m), mdId d];
          cfg = (case desiredModuleConfig ho d (mgRoverConfig m) of None \<Rightarrow> Some [] | Some c \<Rightarrow> Some c)
      in outcome (try_then (perform (enAnswer (hoEnv ho)) (CMkdirAll dir)) id
           (writeTOML (hoEnv ho) (hoEncode ho) (path_join [dir, ''config.toml'']) cfg)) l)"


section \<open>Attach and detach hooks\<close>

definition start_uplink :: "host \<Rightarrow> string \<Rightarrow> manager \<Rightarrow> manager" where
  "start_uplink ho i m = (case uplink_start (hoSubFails ho) i (mgUplink m, mgConn m) of
     (_, b, c) \<Rightarrow> m \<lparr>mgUplink := b, mgConn := c\<rparr>)"

definition start_servo :: "host \<Rightarrow> string \<Rightarrow> manager \<Rightarrow> manager" where
  "start_servo ho i m = (case servo_start (hoSubFails ho) i (mgServo m, mgConn m) of
     (_, b, c) \<Rightarrow> m \<lparr>mgServo := b, mgConn := c\<rparr>)"

definition start_teleop :: "host \<Rightarrow> string \<Rightarrow> manager \<Rightarrow> manager" where
  "start_teleop ho i m = (case teleop_start (hoSubFails ho) i (mgTeleop m, mgConn m) of
     (_, b, c) \<Rightarrow> m \<lparr>mgTeleop := b, mgConn := c\<rparr>)"

definition start_drive :: "host \<Rightarrow> string \<Rightarrow> manager \<Rightarrow> manager" where
  "start_drive ho i m =
     (case (if opIsDevImage (mgOpts m) then drive_startMirrors (hoSubFails ho) i [] (mgDrive m, mgConn m)
            else drive_start (hoSubFails ho) i (mgDrive m, mgConn m)) of
        (_, b, c) \<Rightarrow> m \<lparr>mgDrive := b, mgConn := c\<rparr>)"

text \<open>Replacing the poller of a module cancels the old one.\<close>

definition cancel_poller :: "string \<Rightarrow> manager \<Rightarrow> manager" where
  "cancel_poller i m = (case map_of (mgPollers m) i of
     None \<Rightarrow> m
   | Some n \<Rightarrow> m \<lparr>mgPolling := filter (\<lambda>k. k \<noteq> n) (mgPolling m), mgPollers := map_del i (mgPollers m)\<rparr>)"

definition start_poller :: "string \<Rightarrow> manager \<Rightarrow> manager" where
  "start_poller i m =
     (let m1 = cancel_poller i m; n = mgNextPoller m1
      in m1 \<lparr>mgPollers := map_set i n (mgPollers m1), mgPolling := n # mgPolling m1, mgNextPoller := Suc n\<rparr>)"

definition onModuleAttached :: "host \<Rightarrow> string \<Rightarrow> manifest option \<Rightarrow> manager \<Rightarrow> manager" where
  "onModuleAttached ho i manifest m =
     (case manifest of
        None \<Rightarrow> m
      | Some mf \<Rightarrow>
          let m1 = (if mComponents mf \<noteq> [] then m \<lparr>mgComponents := map_set i (map cClass (mComponents mf)) (mgComponents m)\<rparr> else m);
              m2 = (if containsString (mProvides mf) ''uplink'' then start_uplink ho i m1 else m1);
              m3 = (if containsString (mRequires mf) ''servo-control'' \<and> \<not> opIsDevImage (mgOpts m2) then start_servo ho i m2 else m2);
              m4 = (if containsString (mRequires mf) ''teleop-input'' then start_teleop ho i m3 else m3);
              m5 = (if containsString (mRequires mf) ''drive-control'' then start_drive ho i m4 else m4);
              origin = (if isLocalID m5 i then ORIGIN_LOCAL else ORIGIN_PROXY)
          in if uKind (mUI mf) = UIKindNone \<and> uTeleop (mUI mf) = None then m5
             else start_poller i (m5 \<lparr>mgPub := SetRuntimeModule i mf origin (mgPub m5)\<rparr>))"

definition onModuleDetached :: "string \<Rightarrow> manager \<Rightarrow> manager" where
  "onModuleDetached i m =
     (let m1 = cancel_poller i m;
          m2 = m1 \<lparr>mgComponents := map_del i (mgComponents m1)\<rparr>;
          (u, c1) = uplink_stop i (mgUplink m2, mgConn m2);
          (s, c2) = servo_stop i (mgServo m2, c1);
          (t, c3) = teleop_stop i (mgTeleop m2, c2);
          (d, c4) = drive_stop i (mgDrive m2, c3)
      in m2 \<lparr>mgUplink := u, mgServo := s, mgTeleop := t, mgDrive := d, mgConn := c4,
             mgPub := RemoveRuntimeModule i (mgPub m2)\<rparr>)"

definition ActiveComponents :: "manager \<Rightarrow> (string \<times> string list) list" where
  "ActiveComponents m = mgComponents m"

definition pollHealth_check :: "time \<Rightarrow> (io_error + bool) \<Rightarrow> string \<Rightarrow> manager \<Rightarrow> manager" where
  "pollHealth_check now active i m = m \<lparr>mgPub := SetHealth now i (active = Inr True) (mgPub m)\<rparr>"


section \<open>Reconciling\<close>

definition hook_step :: "host \<Rightarrow> host_call list \<Rightarrow> host_call \<Rightarrow> manager \<Rightarrow> manager" where
  "hook_step ho l c m =
     (case c of
        COnAttach i mf \<Rightarrow> onModuleAttached ho i mf m
      | COnDetach i \<Rightarrow> onModuleDetached i m
      | CEnsureCreds d \<Rightarrow> snd (ensureModuleCreds ho l d m)
      | _ \<Rightarrow> m)"

fun replay :: "host \<Rightarrow> manager \<Rightarrow> host_call list \<Rightarrow> manager" where
  "replay ho m [] = m"
| "replay ho m (c # l) = hook_step ho l c (replay ho m l)"

text \<open>The reconciler's outside, with the manager behind the hooks.\<close>

definition manager_env :: "host \<Rightarrow> manager \<Rightarrow> env" where
  "manager_env ho m = hoEnv ho \<lparr>enAnswer := (\<lambda>l c.
     (case c of
        CEnsureCreds d \<Rightarrow> map_option (\<lambda>_. IOError ''creds'') (fst (ensureModuleCreds ho l d (replay ho m l)))
      | CSyncConfig d \<Rightarrow> writeDesiredConfig ho l d (replay ho m l)
      | _ \<Rightarrow> enAnswer (hoEnv ho) l c))\<rparr>"

definition reconcileMerged ::
  "host \<Rightarrow> time \<Rightarrow> manager \<times> reconciler \<Rightarrow> mg_error option \<times> manager \<times> reconciler" where
  "reconcileMerged ho now mr =
     (case mr of (m, r) \<Rightarrow>
        let merged = mergeDesired now (mgProxyDesired m) (mgLocalDesired m) in
        case run_state (Reconcile (manager_env ho m) merged) (r, []) of
          (e, (r', l')) \<Rightarrow> (map_option MgReconcile e, replay ho m l', r'))"

text \<open>A cache write that fails is only logged.\<close>

definition write_set :: "host \<Rightarrow> string \<Rightarrow> desired_set \<Rightarrow> manager \<Rightarrow> store_error option \<times> manager" where
  "write_set ho path ds m =
     (case WriteDesiredCache (hoDisk ho) (hoMarshal ho) (path_dir path) path ds (mgDisk m) of
        (e, disk) \<Rightarrow> (e, m \<lparr>mgDisk := disk\<rparr>))"

definition handleDesired :: "host \<Rightarrow> time \<Rightarrow> bytes \<Rightarrow> manager \<times> reconciler \<Rightarrow> manager \<times> reconciler" where
  "handleDesired ho now data mr =
     (case hoUnmarshal ho data of
        Inl _ \<Rightarrow> mr
      | Inr ds \<Rightarrow>
          let m1 = snd (write_set ho (proxyCachePath (mgOpts (fst mr))) ds (fst mr))
          in snd (reconcileMerged ho now (m1 \<lparr>mgProxyDesired := Some ds\<rparr>, snd mr)))"


section \<open>Boot\<close>

text \<open>The loop over a cached desired set; \<open>stat\<close> tells whether an image is on disk.\<close>

fun provision_loop ::
  "host \<Rightarrow> (string \<Rightarrow> bool) \<Rightarrow> options \<Rightarrow> (string \<times> toml_table) list \<Rightarrow> builder \<Rightarrow> module_desired list \<Rightarrow> builder \<times> string list" where
  "provision_loop ho stat op roverConfig b [] = (b, [])"
| "provision_loop ho stat op roverConfig b (d # ds) =
     (if \<not> stat (path_join [opRawStorageDir op, ''modules'', mdId d, mdVersion d, rawImageName (mdId d)])
      then provision_loop ho stat op roverConfig b ds
      else case AddModuleUser (hoRand ho []) b (mdId d) (opRoverID op) (module_subtree (mdId d)) of
        (Inl _, b') \<Rightarrow> provision_loop ho stat op roverConfig b' ds
      | (Inr _, b') \<Rightarrow>
          (case provision_loop ho stat op roverConfig b' ds of (b'', ids) \<Rightarrow> (b'', mdId d # ids)))"

definition provisionCachedDesiredCreds ::
  "host \<Rightarrow> (string \<Rightarrow> bool) \<Rightarrow> options \<Rightarrow> (string \<times> toml_table) list \<Rightarrow> bytes disk \<Rightarrow> string \<Rightarrow> builder \<Rightarrow> builder \<times> string list" where
  "provisionCachedDesiredCreds ho stat op roverConfig disk cachePath b =
     (case ReadDesiredCache (hoDisk ho) (hoUnmarshal ho) cachePath disk of
        Inl _ \<Rightarrow> (b, [])
      | Inr ds \<Rightarrow> provision_loop ho stat op roverConfig b (dsModules ds))"

fun add_baked ::
  "host \<Rightarrow> options \<Rightarrow> string list \<Rightarrow> builder \<Rightarrow> module_spec list \<Rightarrow> mg_error + builder" where
  "add_baked ho op provisioned b [] = Inr b"
| "add_baked ho op provisioned b (s # ss) =
     (let name = mName (spManifest s) in
      if name \<in> set provisioned then add_baked ho op provisioned b ss
      else case AddModuleUser (hoRand ho []) b name (opRoverID op) (ManifestAuthPermissions (spManifest s)) of
        (Inl e, _) \<Rightarrow> Inl (MgModule name (MgAuth e))
      | (Inr creds, b') \<Rightarrow>
          (case outcome (WriteRuntimeFiles (hoEnv ho) (hoEncode ho) (opRuntimeDir op) name (spConfig s) creds) [] of
             Some e \<Rightarrow> Inl (MgModule name (MgFiles e))
           | None \<Rightarrow> add_baked ho op provisioned b' ss))"

text \<open>\<^verbatim>\<open>New\<close>: the specs, the config tables and the users; the rest of the manager starts empty.\<close>

definition manager_New ::
  "host \<Rightarrow> (string \<Rightarrow> bool) \<Rightarrow> options \<Rightarrow> bytes disk \<Rightarrow> builder
    \<Rightarrow> mg_error + (module_spec list \<times> (string \<times> toml_table) list \<times> builder)" where
  "manager_New ho stat op disk b =
     (case Discover (hoReadDir ho) (hoReadFile ho) (enDecode (hoEnv ho)) (hoDecodeConfig ho) (opInstallDir op) (opConfigPath op) of
        Inl e \<Rightarrow> Inl (MgDiscover e)
      | Inr specs \<Rightarrow>
          let roverConfig = (case hoReadFile ho (opConfigPath op) of
                Inl _ \<Rightarrow> []
              | Inr data \<Rightarrow> (case decodeModulesConfig (hoDecodeConfig ho) data of Inl _ \<Rightarrow> [] | Inr t \<Rightarrow> t));
              (b1, ids1) = provisionCachedDesiredCreds ho stat op roverConfig disk (proxyCachePath op) b;
              (b2, ids2) = provisionCachedDesiredCreds ho stat op roverConfig disk (localStorePath op) b1
          in case add_baked ho op (ids1 @ ids2) b2 specs of
               Inl e \<Rightarrow> Inl e
             | Inr b3 \<Rightarrow> Inr (specs, roverConfig, b3))"

text \<open>The dev-image override file, decoded: id, version, raw path and config of each entry.\<close>

definition loadDevOverrideIntoLocal ::
  "(io_error + string) \<Rightarrow> (string \<Rightarrow> string + (string \<times> string \<times> string \<times> string) list) \<Rightarrow> manager \<Rightarrow> string option \<times> manager" where
  "loadDevOverrideIntoLocal file decode m =
     (if \<not> opIsDevImage (mgOpts m) then (None, m)
      else case file of
        Inl IONotExist \<Rightarrow> (None, m)
      | Inl (IOError e) \<Rightarrow> (Some e, m)
      | Inr data \<Rightarrow>
          (case decode data of
             Inl e \<Rightarrow> (Some e, m)
           | Inr mods \<Rightarrow>
               let base = (case mgLocalDesired m of None \<Rightarrow> Some empty_set | Some s \<Rightarrow> Some s)
               in (None, m \<lparr>mgLocalDesired := foldl (\<lambda>s (i, version, rawPath, config).
                     Some (upsertModule s \<lparr>mdId = i, mdVersion = version, mdRawUrl = ''file://'' @ rawPath,
                       mdRawSha256 = '''', mdConfigToml = config\<rparr>)) base mods\<rparr>)))"

definition DefaultModuleMountRoot :: string where
  "DefaultModuleMountRoot = ''/run/waypoint/module-root''"

text \<open>The reconciler as \<^verbatim>\<open>Run\<close> builds it.\<close>

definition run_reconciler :: "options \<Rightarrow> bool \<Rightarrow> string \<Rightarrow> string \<Rightarrow> reconciler" where
  "run_reconciler op proxyRegistry dropinDir stateRoot =
     \<lparr>rcRootDir = opRawStorageDir op, rcProxyRegistry = proxyRegistry, rcDropinDir = dropinDir,
      rcStateBackingRoot = stateRoot, rcModuleMountRoot = DefaultModuleMountRoot, rcReloadUnits = True,
      rcOnAttach = True, rcOnDetach = True, rcEnsureCreds = True, rcSyncConfig = True,
      rcCurrent = [], rcCurrentConfig = []\<rparr>"

text \<open>The part of \<^verbatim>\<open>Run\<close> before the first pass: publisher and brokers are made, dev images get the
  wildcard brokers, and the cached sets are loaded.\<close>

definition run_start :: "host \<Rightarrow> u32 set \<Rightarrow> manager \<Rightarrow> manager" where
  "run_start ho deny m =
     (let rover = opRoverID (mgOpts m);
          m1 = m \<lparr>mgPub := NewSnapshotPublisher (mgSpecs m), mgUplink := newUplinkMirror True rover,
                  mgServo := newServoBroker True rover deny, mgTeleop := newTeleopInputBroker True rover,
                  mgDrive := newDriveBroker True rover\<rparr>;
          m2 = (if opIsDevImage (mgOpts m1) then
                  (case servo_startDev (hoSubFails ho) (mgServo m1, mgConn m1) of (_, s, c1) \<Rightarrow>
                   case drive_startDev (hoSubFails ho) (mgDrive m1, c1) of (_, d, c2) \<Rightarrow>
                     m1 \<lparr>mgServo := s, mgDrive := d, mgConn := c2\<rparr>)
                else m1);
          m3 = (case ReadDesiredCache (hoDisk ho) (hoUnmarshal ho) (proxyCachePath (mgOpts m2)) (mgDisk m2) of
                  Inl _ \<Rightarrow> m2 | Inr s \<Rightarrow> m2 \<lparr>mgProxyDesired := Some s\<rparr>)
      in case ReadDesiredCache (hoDisk ho) (hoUnmarshal ho) (localStorePath (mgOpts m3)) (mgDisk m3) of
           Inl _ \<Rightarrow> m3 | Inr s \<Rightarrow> m3 \<lparr>mgLocalDesired := Some s\<rparr>)"


section \<open>What a module is given on the rover\<close>

definition keys :: "('k \<times> 'v) list \<Rightarrow> 'k set" where
  "keys m = fst ` set m"

lemma keys_simps [simp]: "keys [] = {}" "keys (map_set k v m) = insert k (keys m)" "keys (map_del k m) = keys m - {k}"
  by (simp_all add: keys_def)

text \<open>The open subscriptions are exactly those held by the four brokers.\<close>

definition balanced :: "manager \<Rightarrow> bool" where
  "balanced m \<longleftrightarrow> wf_map (umSubs (mgUplink m)) \<and> wf_map (sbSubs (mgServo m)) \<and> wf_map (tbSubs (mgTeleop m)) \<and>
     wf_map (dbSubs (mgDrive m)) \<and> conn_inv (mgConn m) \<and>
     open_ids (mgConn m) = held1 (umSubs (mgUplink m)) + held (sbSubs (mgServo m)) + teleop_owned (mgTeleop m) + drive_owned (mgDrive m)"

text \<open>Every running health poller is registered for one module.\<close>

definition pollers_ok :: "manager \<Rightarrow> bool" where
  "pollers_ok m \<longleftrightarrow> wf_map (mgPollers m) \<and> mset (mgPolling m) = mset (map snd (mgPollers m)) \<and>
     distinct (mgPolling m) \<and> (\<forall>n \<in> set (mgPolling m). n < mgNextPoller m)"

text \<open>The modules that hold anything.\<close>

definition surfaces :: "manager \<Rightarrow> string set" where
  "surfaces m = keys (mgComponents m) \<union> keys (umSubs (mgUplink m)) \<union> keys (sbSubs (mgServo m)) \<union>
     keys (tbSubs (mgTeleop m)) \<union> keys (dbSubs (mgDrive m)) \<union> keys (spRuntime (mgPub m)) \<union>
     keys (mgPollers m)"

definition mg_ok :: "string set \<Rightarrow> manager \<Rightarrow> bool" where
  "mg_ok A m \<longleftrightarrow> balanced m \<and> pollers_ok m \<and> surfaces m \<subseteq> A"

lemma mg_ok_mono: "mg_ok A m \<Longrightarrow> A \<subseteq> B \<Longrightarrow> mg_ok B m"
  by (auto simp: mg_ok_def)

subsection \<open>Starting the brokers\<close>

lemma uplink_start_keys: "uplink_start fails i (b, c) = (e, b', c') \<Longrightarrow> keys (umSubs b') \<in> {keys (umSubs b), insert i (keys (umSubs b))}"
  by (auto simp: uplink_start_def Let_def split: if_splits prod.splits sum.splits)

lemma servo_start_keys: "servo_start fails i (b, c) = (e, b', c') \<Longrightarrow> keys (sbSubs b') \<in> {keys (sbSubs b), insert i (keys (sbSubs b))}"
  by (auto simp: servo_start_def split: if_splits prod.splits sum.splits)

lemma teleop_ensure_subs: "teleop_ensureModeSub fails (b, c) = (e, b', c') \<Longrightarrow> tbSubs b' = tbSubs b"
  by (auto simp: teleop_ensureModeSub_def Let_def split: if_splits prod.splits sum.splits)

lemma teleop_start_keys:
  assumes "teleop_start fails i (b, c) = (e, b', c')"
  shows "keys (tbSubs b') \<in> {keys (tbSubs b), insert i (keys (tbSubs b))}"
proof -
  obtain e1 b1 c1 where 1: "teleop_ensureModeSub fails (b, c) = (e1, b1, c1)" by (rule prod_cases3)
  show ?thesis
    using assms teleop_ensure_subs [OF 1]
    by (auto simp: teleop_start_def 1 Let_def split: if_splits prod.splits sum.splits option.splits)
qed

lemma drive_ensure_subs: "drive_ensureModeSub fails (b, c) = (e, b', c') \<Longrightarrow> dbSubs b' = dbSubs b"
  by (auto simp: drive_ensureModeSub_def Let_def split: if_splits prod.splits sum.splits)

lemma drive_startMirrors_keys:
  assumes "drive_startMirrors fails i extra (b, c) = (e, b', c')"
  shows "keys (dbSubs b') \<in> {keys (dbSubs b), insert i (keys (dbSubs b))}"
proof -
  obtain e1 b1 c1 where 1: "drive_ensureModeSub fails (b, c) = (e1, b1, c1)" by (rule prod_cases3)
  show ?thesis
    using assms drive_ensure_subs [OF 1]
    by (auto simp: drive_startMirrors_def 1 Let_def split: if_splits prod.splits sum.splits option.splits)
qed

lemma drive_start_keys:
  assumes "drive_start fails i (b, c) = (e, b', c')"
  shows "keys (dbSubs b') \<in> {keys (dbSubs b), insert i (keys (dbSubs b))}"
proof -
  obtain e1 b1 c1 where 1: "drive_ensureModeSub fails (b, c) = (e1, b1, c1)" by (rule prod_cases3)
  obtain s c2 where 2: "nc_subscribe fails (module_subject (dbRover b1) i ''drive.cmd'')
      (DriveCmd (platform_subject (dbRover b1) ''cmd.drive'')) c1 = (s, c2)" by (rule prod.exhaust)
  obtain e3 b3 c3 where 3: "drive_startMirrors fails i [projr s] (b1, c2) = (e3, b3, c3)" by (rule prod_cases3)
  show ?thesis
    using assms drive_ensure_subs [OF 1] drive_startMirrors_keys [OF 3] 3
    by (auto simp: drive_start_def 1 2 Let_def split: if_splits sum.splits option.splits)
qed

lemma start_uplink_ok: "mg_ok A m \<Longrightarrow> mg_ok (insert i A) (start_uplink ho i m)"
proof -
  assume ok: "mg_ok A m"
  obtain e b c where 1: "uplink_start (hoSubFails ho) i (mgUplink m, mgConn m) = (e, b, c)" by (rule prod_cases3)
  let ?F = "held (sbSubs (mgServo m)) + teleop_owned (mgTeleop m) + drive_owned (mgDrive m)"
  have "open_ids (mgConn m) = ?F + held1 (umSubs (mgUplink m))" using ok by (simp add: mg_ok_def balanced_def ac_simps)
  with ok have "wf_map (umSubs b) \<and> conn_inv c \<and> open_ids c = ?F + held1 (umSubs b)"
    by (intro uplink_start_keeps [OF _ _ _ 1]) (simp_all add: mg_ok_def balanced_def)
  then show "mg_ok (insert i A) (start_uplink ho i m)"
    using ok uplink_start_keys [OF 1]
    by (auto simp: start_uplink_def 1 mg_ok_def balanced_def pollers_ok_def surfaces_def ac_simps)
qed

lemma start_servo_ok: "mg_ok A m \<Longrightarrow> mg_ok (insert i A) (start_servo ho i m)"
proof -
  assume ok: "mg_ok A m"
  obtain e b c where 1: "servo_start (hoSubFails ho) i (mgServo m, mgConn m) = (e, b, c)" by (rule prod_cases3)
  let ?F = "held1 (umSubs (mgUplink m)) + teleop_owned (mgTeleop m) + drive_owned (mgDrive m)"
  have "open_ids (mgConn m) = ?F + held (sbSubs (mgServo m))" using ok by (simp add: mg_ok_def balanced_def ac_simps)
  with ok have "wf_map (sbSubs b) \<and> conn_inv c \<and> open_ids c = ?F + held (sbSubs b)"
    by (intro servo_start_keeps [OF _ _ _ 1]) (simp_all add: mg_ok_def balanced_def)
  then show "mg_ok (insert i A) (start_servo ho i m)"
    using ok servo_start_keys [OF 1]
    by (auto simp: start_servo_def 1 mg_ok_def balanced_def pollers_ok_def surfaces_def ac_simps)
qed

lemma start_teleop_ok: "mg_ok A m \<Longrightarrow> mg_ok (insert i A) (start_teleop ho i m)"
proof -
  assume ok: "mg_ok A m"
  obtain e b c where 1: "teleop_start (hoSubFails ho) i (mgTeleop m, mgConn m) = (e, b, c)" by (rule prod_cases3)
  let ?F = "held1 (umSubs (mgUplink m)) + held (sbSubs (mgServo m)) + drive_owned (mgDrive m)"
  have "open_ids (mgConn m) = ?F + teleop_owned (mgTeleop m)" using ok by (simp add: mg_ok_def balanced_def ac_simps)
  with ok have "wf_map (tbSubs b) \<and> conn_inv c \<and> open_ids c = ?F + teleop_owned b"
    by (intro teleop_start_keeps [OF _ _ _ 1]) (simp_all add: mg_ok_def balanced_def)
  then show "mg_ok (insert i A) (start_teleop ho i m)"
    using ok teleop_start_keys [OF 1]
    by (auto simp: start_teleop_def 1 mg_ok_def balanced_def pollers_ok_def surfaces_def ac_simps)
qed

lemma start_drive_ok: "mg_ok A m \<Longrightarrow> mg_ok (insert i A) (start_drive ho i m)"
proof -
  assume ok: "mg_ok A m"
  let ?F = "held1 (umSubs (mgUplink m)) + held (sbSubs (mgServo m)) + teleop_owned (mgTeleop m)"
  let ?r = "if opIsDevImage (mgOpts m) then drive_startMirrors (hoSubFails ho) i [] (mgDrive m, mgConn m)
            else drive_start (hoSubFails ho) i (mgDrive m, mgConn m)"
  obtain e b c where r: "?r = (e, b, c)" by (rule prod_cases3)
  have pre: "wf_map (dbSubs (mgDrive m))" "conn_inv (mgConn m)" "open_ids (mgConn m) = ?F + drive_owned (mgDrive m)"
    using ok by (simp_all add: mg_ok_def balanced_def)
  have "(wf_map (dbSubs b) \<and> conn_inv c \<and> open_ids c = ?F + drive_owned b) \<and>
      keys (dbSubs b) \<in> {keys (dbSubs (mgDrive m)), insert i (keys (dbSubs (mgDrive m)))}"
  proof (cases "opIsDevImage (mgOpts m)")
    case True
    then have 1: "drive_startMirrors (hoSubFails ho) i [] (mgDrive m, mgConn m) = (e, b, c)" using r by simp
    show ?thesis using drive_startMirrors_keeps [OF pre(1,2) _ 1, of ?F] drive_startMirrors_keys [OF 1] pre(3) by simp
  next
    case False
    then have 1: "drive_start (hoSubFails ho) i (mgDrive m, mgConn m) = (e, b, c)" using r by simp
    show ?thesis using drive_start_keeps [OF pre 1] drive_start_keys [OF 1] by simp
  qed
  then show "mg_ok (insert i A) (start_drive ho i m)"
    using ok unfolding start_drive_def r
    by (auto simp: mg_ok_def balanced_def pollers_ok_def surfaces_def)
qed


subsection \<open>Pollers and hooks\<close>

lemma mset_map_snd_del:
  fixes m :: "(string \<times> nat) list"
  assumes "wf_map m" "map_of m k = Some v"
  shows "mset (map snd m) = add_mset v (mset (map snd (map_del k m)))"
  using held1_map_del [OF assms] by (simp add: held1_def)

lemma cancel_poller_ok: "mg_ok A m \<Longrightarrow> mg_ok A (cancel_poller i m) \<and> i \<notin> keys (mgPollers (cancel_poller i m))"
proof -
  assume ok: "mg_ok A m"
  show ?thesis
  proof (cases "map_of (mgPollers m) i")
    case None
    then have "i \<notin> keys (mgPollers m)" by (simp add: keys_def map_of_eq_None_iff)
    with None show ?thesis using ok by (simp add: cancel_poller_def)
  next
    case (Some n)
    have p: "wf_map (mgPollers m)" "mset (mgPolling m) = mset (map snd (mgPollers m))" "distinct (mgPolling m)"
      using ok by (simp_all add: mg_ok_def pollers_ok_def)
    have "mset (filter (\<lambda>k. k \<noteq> n) (mgPolling m)) = mset (mgPolling m) - {#n#}"
      using mset_filter_fst [of "map (\<lambda>k. (k, ())) (mgPolling m)" n] p(3)
      by (simp add: filter_map comp_def)
    then have "mset (filter (\<lambda>k. k \<noteq> n) (mgPolling m)) = mset (map snd (map_del i (mgPollers m)))"
      unfolding p(2) mset_map_snd_del [OF p(1) Some] by simp
    with Some ok show ?thesis
      by (auto simp: cancel_poller_def mg_ok_def balanced_def pollers_ok_def surfaces_def)
  qed
qed

lemma start_poller_ok: "mg_ok A m \<Longrightarrow> mg_ok (insert i A) (start_poller i m)"
proof -
  assume "mg_ok A m"
  then have ok: "mg_ok A (cancel_poller i m)" and new: "i \<notin> keys (mgPollers (cancel_poller i m))"
    using cancel_poller_ok by blast+
  define m1 where "m1 = cancel_poller i m"
  have p: "wf_map (mgPollers m1)" "mset (mgPolling m1) = mset (map snd (mgPollers m1))" "distinct (mgPolling m1)"
    "\<forall>n \<in> set (mgPolling m1). n < mgNextPoller m1" and "i \<notin> keys (mgPollers m1)"
    using ok new by (simp_all add: mg_ok_def pollers_ok_def m1_def)
  then have "mset (mgNextPoller m1 # mgPolling m1) = mset (map snd (map_set i (mgNextPoller m1) (mgPollers m1)))"
    by (simp add: map_set_new keys_def)
  with p ok show ?thesis
    by (auto simp: start_poller_def Let_def mg_ok_def balanced_def pollers_ok_def surfaces_def less_SucI
        simp flip: m1_def)
qed

lemma onModuleAttached_ok:
  assumes "mg_ok A m"
  shows "mg_ok (insert i A) (onModuleAttached ho i mf m)"
proof (cases mf)
  case None
  then show ?thesis using assms by (simp add: onModuleAttached_def mg_ok_mono subset_insertI)
next
  case (Some f)
  let ?B = "insert i A"
  have ins: "insert i ?B = ?B" by simp
  have keep: "mg_ok ?B m" using assms by (rule mg_ok_mono) auto
  have comp: "mg_ok ?B (m \<lparr>mgComponents := map_set i cs (mgComponents m)\<rparr>)" for cs
    using keep by (auto simp: mg_ok_def balanced_def pollers_ok_def surfaces_def)
  have pub: "mg_ok ?B (m' \<lparr>mgPub := SetRuntimeModule i f c (mgPub m')\<rparr>)" if "mg_ok ?B m'" for m' c
    using that by (auto simp: mg_ok_def balanced_def pollers_ok_def surfaces_def SetRuntimeModule_def signalChange_def)
  note starts = start_uplink_ok [of ?B _ i, unfolded ins] start_servo_ok [of ?B _ i, unfolded ins]
    start_teleop_ok [of ?B _ i, unfolded ins] start_drive_ok [of ?B _ i, unfolded ins] start_poller_ok [of ?B _ i, unfolded ins]
  define m1 where "m1 = (if mComponents f \<noteq> [] then m \<lparr>mgComponents := map_set i (map cClass (mComponents f)) (mgComponents m)\<rparr> else m)"
  define m2 where "m2 = (if containsString (mProvides f) ''uplink'' then start_uplink ho i m1 else m1)"
  define m3 where "m3 = (if containsString (mRequires f) ''servo-control'' \<and> \<not> opIsDevImage (mgOpts m2) then start_servo ho i m2 else m2)"
  define m4 where "m4 = (if containsString (mRequires f) ''teleop-input'' then start_teleop ho i m3 else m3)"
  define m5 where "m5 = (if containsString (mRequires f) ''drive-control'' then start_drive ho i m4 else m4)"
  have "mg_ok ?B m1" using keep comp by (simp add: m1_def)
  then have "mg_ok ?B m2" using starts by (simp add: m2_def)
  then have "mg_ok ?B m3" using starts by (simp add: m3_def)
  then have "mg_ok ?B m4" using starts by (simp add: m4_def)
  then have m5: "mg_ok ?B m5" using starts by (simp add: m5_def)
  have eq: "onModuleAttached ho i mf m =
      (if uKind (mUI f) = UIKindNone \<and> uTeleop (mUI f) = None then m5
       else start_poller i (m5 \<lparr>mgPub := SetRuntimeModule i f (if isLocalID m5 i then ORIGIN_LOCAL else ORIGIN_PROXY) (mgPub m5)\<rparr>))"
    by (simp only: onModuleAttached_def Some option.case Let_def m1_def m2_def m3_def m4_def m5_def)
  show ?thesis unfolding eq using starts(5) [OF pub [OF m5]] m5 by simp
qed

lemma onModuleDetached_ok:
  assumes "mg_ok A m"
  shows "mg_ok (A - {i}) (onModuleDetached i m)"
proof -
  define m2 where "m2 = (cancel_poller i m) \<lparr>mgComponents := map_del i (mgComponents (cancel_poller i m))\<rparr>"
  obtain u c1 where 1: "uplink_stop i (mgUplink m2, mgConn m2) = (u, c1)" by (rule prod.exhaust)
  obtain s c2 where 2: "servo_stop i (mgServo m2, c1) = (s, c2)" by (rule prod.exhaust)
  obtain t c3 where 3: "teleop_stop i (mgTeleop m2, c2) = (t, c3)" by (rule prod.exhaust)
  obtain d c4 where 4: "drive_stop i (mgDrive m2, c3) = (d, c4)" by (rule prod.exhaust)
  have ok: "mg_ok A (cancel_poller i m)" and p: "i \<notin> keys (mgPollers (cancel_poller i m))"
    using cancel_poller_ok [OF assms] by blast+
  let ?U = "held1 (umSubs (mgUplink m2))" and ?S = "held (sbSubs (mgServo m2))"
    and ?T = "teleop_owned (mgTeleop m2)" and ?D = "drive_owned (mgDrive m2)"
  have b: "wf_map (umSubs (mgUplink m2))" "wf_map (sbSubs (mgServo m2))" "wf_map (tbSubs (mgTeleop m2))"
    "wf_map (dbSubs (mgDrive m2))" "conn_inv (mgConn m2)" "open_ids (mgConn m2) = (?S + ?T + ?D) + ?U"
    using ok by (simp_all add: mg_ok_def balanced_def m2_def ac_simps)
  have k1: "wf_map (umSubs u) \<and> conn_inv c1 \<and> open_ids c1 = (?S + ?T + ?D) + held1 (umSubs u)"
    by (rule uplink_stop_keeps [OF b(1,5,6) 1])
  have k2: "wf_map (sbSubs s) \<and> conn_inv c2 \<and> open_ids c2 = (?T + ?D + held1 (umSubs u)) + held (sbSubs s)"
    by (rule servo_stop_keeps [OF b(2) _ _ 2]) (use k1 in \<open>simp_all add: ac_simps\<close>)
  have k3: "wf_map (tbSubs t) \<and> conn_inv c3 \<and> open_ids c3 = (?D + held1 (umSubs u) + held (sbSubs s)) + teleop_owned t"
    by (rule teleop_stop_keeps [OF b(3) _ _ 3]) (use k2 in \<open>simp_all add: ac_simps\<close>)
  have k4: "wf_map (dbSubs d) \<and> conn_inv c4 \<and> open_ids c4 = (held1 (umSubs u) + held (sbSubs s) + teleop_owned t) + drive_owned d"
    by (rule drive_stop_keeps [OF b(4) _ _ 4]) (use k3 in \<open>simp_all add: ac_simps\<close>)
  have no: "map_of x i = None \<Longrightarrow> keys x - {i} = keys x" for x :: "(string \<times> nat) list"
    by (auto simp: keys_def map_of_eq_None_iff)
  have keys: "keys (umSubs u) = keys (umSubs (mgUplink m2)) - {i}" "keys (sbSubs s) = keys (sbSubs (mgServo m2)) - {i}"
    "keys (tbSubs t) = keys (tbSubs (mgTeleop m2)) - {i}" "keys (dbSubs d) = keys (dbSubs (mgDrive m2)) - {i}"
    using 1 2 3 4 no
    by (auto simp: uplink_stop_def servo_stop_def teleop_stop_def drive_stop_def split: option.splits)
  have "onModuleDetached i m = m2 \<lparr>mgUplink := u, mgServo := s, mgTeleop := t, mgDrive := d, mgConn := c4,
             mgPub := RemoveRuntimeModule i (mgPub m2)\<rparr>"
    by (simp only: onModuleDetached_def Let_def m2_def [symmetric] 1 2 3 4 prod.case)
  then show ?thesis
    using k1 k2 k3 k4 ok p
    by (auto simp: mg_ok_def balanced_def pollers_ok_def surfaces_def keys RemoveRuntimeModule_def signalChange_def m2_def ac_simps)
qed

lemma ensureModuleCreds_frame:
  "snd (ensureModuleCreds ho l d m) = m \<lparr>mgAuth := mgAuth (snd (ensureModuleCreds ho l d m)),
     mgServerUsers := mgServerUsers (snd (ensureModuleCreds ho l d m))\<rparr>"
  by (auto simp: ensureModuleCreds_def Let_def split: option.split prod.split sum.split)

lemma ensureModuleCreds_ok: "mg_ok A m \<Longrightarrow> mg_ok A (snd (ensureModuleCreds ho l d m))"
  by (subst ensureModuleCreds_frame) (simp add: mg_ok_def balanced_def pollers_ok_def surfaces_def)

lemma replay_ok: "mg_ok A m \<Longrightarrow> mg_ok (hooked A l) (replay ho m l)"
proof (induction l)
  case (Cons c l)
  then show ?case
    by (cases c) (simp_all add: hook_step_def onModuleAttached_ok onModuleDetached_ok ensureModuleCreds_ok)
qed simp


section \<open>A reconcile pass seen from the manager\<close>

text \<open>Everything held is held for a module the reconciler records as attached; the wildcard brokers of
  a dev image are held under a key of their own.\<close>

definition rover_ok :: "manager \<times> reconciler \<Rightarrow> bool" where
  "rover_ok mr \<longleftrightarrow> rcOnAttach (snd mr) \<and> rcOnDetach (snd mr) \<and>
     mg_ok (insert ''*dev'' (dom (map_of (rcCurrent (snd mr))))) (fst mr)"

lemma hooked_insert: "hooked (insert x A) l \<subseteq> insert x (hooked A l)"
  by (induction l) (auto split: host_call.split)

lemma reconcileMerged_ok:
  assumes "rover_ok (m, r)" "reconcileMerged ho now (m, r) = (e, m', r')"
  shows "rover_ok (m', r')"
proof -
  let ?A = "dom (map_of (rcCurrent r))"
  let ?d = "mergeDesired now (mgProxyDesired m) (mgLocalDesired m)"
  obtain e1 r1 l1 where run: "run_state (Reconcile (manager_env ho m) ?d) (r, []) = (e1, (r1, l1))" by (rule prod_cases3)
  then have eq: "m' = replay ho m l1" "r' = r1" using assms(2) by (simp_all add: reconcileMerged_def Let_def)
  have "tracks ?A (r, [])" using assms(1) by (simp add: tracks_def rover_ok_def)
  then have t: "tracks ?A (r1, l1)" by (rule validD [OF Reconcile_tracks _ run])
  have "mg_ok (hooked (insert ''*dev'' ?A) l1) m'" using assms(1) unfolding eq rover_ok_def by (auto intro: replay_ok)
  then have "mg_ok (insert ''*dev'' (hooked ?A l1)) m'" by (rule mg_ok_mono) (rule hooked_insert)
  with t show ?thesis by (simp add: rover_ok_def tracks_def eq)
qed

lemma rover_ok_frame:
  assumes "rover_ok (m, r)"
  shows "rover_ok (m \<lparr>mgProxyDesired := x\<rparr>, r)" "rover_ok (m \<lparr>mgLocalDesired := x\<rparr>, r)" "rover_ok (m \<lparr>mgDisk := y\<rparr>, r)"
    "rover_ok (m \<lparr>mgStaging := z\<rparr>, r)" "rover_ok (m \<lparr>mgTrust := v\<rparr>, r)"
  using assms by (simp_all add: rover_ok_def mg_ok_def balanced_def pollers_ok_def surfaces_def)

lemma write_set_ok: "rover_ok (m, r) \<Longrightarrow> rover_ok (snd (write_set ho path ds m), r)"
  by (simp add: write_set_def rover_ok_frame split: prod.split)

lemma handleDesired_ok:
  assumes "rover_ok mr"
  shows "rover_ok (handleDesired ho now data mr)"
proof (cases "hoUnmarshal ho data")
  case (Inr ds)
  obtain m r where mr: "mr = (m, r)" by (cases mr)
  let ?m1 = "snd (write_set ho (proxyCachePath (mgOpts m)) ds m)"
  obtain e m' r' where rec: "reconcileMerged ho now (?m1 \<lparr>mgProxyDesired := Some ds\<rparr>, r) = (e, m', r')" by (rule prod_cases3)
  have "rover_ok (m', r')"
    by (rule reconcileMerged_ok [OF _ rec]) (use assms mr in \<open>auto intro!: rover_ok_frame(1) write_set_ok\<close>)
  then show ?thesis using Inr rec mr by (simp add: handleDesired_def Let_def)
qed (use assms in \<open>simp add: handleDesired_def\<close>)

section \<open>Credentials\<close>

lemma AddModuleUser_HasUser:
  "AddModuleUser rand b i rov p = (Inr creds, b') \<Longrightarrow> HasUser b' i"
  by (auto simp: AddModuleUser_def HasUser_def Let_def split: if_splits sum.splits)

text \<open>
  Once the user of a module has been added, a failure to write its files or to reload the server
  is never repaired: every later attempt reports success without doing anything, and the server
  keeps the users it had.
\<close>

theorem creds_failure_never_retried:
  assumes "ensureModuleCreds ho l d m = (Some e, m')" "\<nexists>a. e = MgAuth a"
  shows "(\<forall>ho' l'. ensureModuleCreds ho' l' d m' = (None, m')) \<and> mgServerUsers m' = mgServerUsers m"
proof -
  obtain b where b: "mgAuth m = Some b" "\<not> HasUser b (mdId d)"
    using assms(1) by (cases "mgAuth m") (auto simp: ensureModuleCreds_def split: if_splits)
  obtain res b' where add: "AddModuleUser (hoRand ho l) b (mdId d) (opRoverID (mgOpts m)) (module_subtree (mdId d)) = (res, b')"
    by (rule prod.exhaust)
  obtain creds where creds: "res = Inr creds"
    using assms b add by (cases res) (auto simp: ensureModuleCreds_def)
  have m': "m' = m \<lparr>mgAuth := Some b'\<rparr>"
    using assms(1) b add creds by (auto simp: ensureModuleCreds_def Let_def split: option.splits if_splits)
  then show ?thesis using AddModuleUser_HasUser [OF add [unfolded creds]] by (simp add: ensureModuleCreds_def)
qed


text \<open>A host and a manager for concrete runs.\<close>

definition demo_host :: "(host_call list \<Rightarrow> host_call \<Rightarrow> io_error option) \<Rightarrow> host" where
  "demo_host answer = \<lparr>hoEnv = demo_env answer, hoRand = (\<lambda>_ n. Inr (replicate n 7)), hoEncode = (\<lambda>_. Inr ''''),
     hoDecodeConfig = (\<lambda>_. Inl ''empty''), hoReadDir = (\<lambda>_. Inl IONotExist), hoReadFile = (\<lambda>_. Inl IONotExist),
     hoDisk = (\<lambda>_. None), hoMarshal = (\<lambda>_. Inr []), hoUnmarshal = (\<lambda>_. Inr empty_set),
     hoSetUsers = (\<lambda>_ _. None), hoSubFails = (\<lambda>_ _. None)\<rparr>"

definition demo_options :: options where
  "demo_options = \<lparr>opInstallDir = ''/usr/share/waypoint/modules'', opConfigPath = ''/data/waypoint/modules.toml'',
     opRuntimeDir = ''/run/waypoint/modules'', opConfigDirPath = ''/data/waypoint'', opRawStorageDir = ''/data/waypoint'',
     opIsDevImage = False, opRoverID = ''r1''\<rparr>"

definition demo_mgr :: manager where
  "demo_mgr = \<lparr>mgOpts = demo_options, mgSpecs = [], mgRoverConfig = [], mgAuth = Some NewBuilder, mgServer = True,
     mgServerUsers = [], mgPub = NewSnapshotPublisher [], mgConn = conn0, mgUplink = newUplinkMirror True ''r1'',
     mgServo = newServoBroker True ''r1'' {}, mgTeleop = newTeleopInputBroker True ''r1'', mgDrive = newDriveBroker True ''r1'',
     mgPollers = [], mgPolling = [], mgNextPoller = 0, mgComponents = [], mgProxyDesired = None, mgLocalDesired = None,
     mgStaging = [], mgTrust = Inr [], mgDisk = (\<lambda>_. None)\<rparr>"

lemma demo_new_user: "\<not> HasUser NewBuilder ''arm''"
  by (simp add: HasUser_def NewBuilder_def DefaultUsername_def)

theorem creds_failure_never_retried_witness:
  "\<exists>m'. ensureModuleCreds (demo_host (\<lambda>_ _. Some (IOError ''full''))) [] (demo_module ''arm'' ''1'') demo_mgr =
      (Some (MgFiles (IOError ''full'')), m') \<and>
     ensureModuleCreds (demo_host (\<lambda>_ _. None)) [] (demo_module ''arm'' ''1'') m' = (None, m') \<and> mgServerUsers m' = []"
proof -
  let ?ho = "demo_host (\<lambda>_ _. Some (IOError ''full''))" and ?d = "demo_module ''arm'' ''1''"
  obtain creds b' where add: "AddModuleUser (hoRand ?ho []) NewBuilder ''arm'' ''r1'' (module_subtree ''arm'') = (Inr creds, b')"
    using demo_new_user by (simp add: AddModuleUser_def Let_def demo_host_def randomToken_def HasUser_def)
  have files: "outcome (WriteRuntimeFiles (hoEnv ?ho) enc dir name cfg cr) [] = Some (IOError ''full'')" for enc dir name cfg cr
    by (simp add: outcome_def WriteRuntimeFiles_def Let_def demo_host_def demo_env_def)
  have sel: "mdId ?d = ''arm''" "mgAuth demo_mgr = Some NewBuilder" "opRoverID (mgOpts demo_mgr) = ''r1''" "mgServerUsers demo_mgr = []"
    by (simp_all add: demo_module_def demo_mgr_def demo_options_def)
  have fail: "ensureModuleCreds ?ho [] ?d demo_mgr = (Some (MgFiles (IOError ''full'')), demo_mgr \<lparr>mgAuth := Some b'\<rparr>)"
    by (simp add: ensureModuleCreds_def sel add files demo_new_user Let_def)
  from creds_failure_never_retried [OF fail] fail sel(4) show ?thesis
    by (intro exI [of _ "demo_mgr \<lparr>mgAuth := Some b'\<rparr>"]) simp
qed



text \<open>The boot users keep the builder's invariant.\<close>

lemma provision_loop_inv:
  "builder_inv b \<Longrightarrow> builder_inv (fst (provision_loop ho stat op rc b ds))"
proof (induction ds arbitrary: b)
  case (Cons d ds)
  obtain res b' where add: "AddModuleUser (hoRand ho []) b (mdId d) (opRoverID op) (module_subtree (mdId d)) = (res, b')"
    by (rule prod.exhaust)
  have "builder_inv b'" using AddModuleUser_inv [OF Cons.prems, of "hoRand ho []" "mdId d" "opRoverID op" "module_subtree (mdId d)"] add by simp
  then have rest: "builder_inv (fst (provision_loop ho stat op rc b' ds))" by (rule Cons.IH)
  show ?case
  proof (cases "stat (path_join [opRawStorageDir op, ''modules'', mdId d, mdVersion d, rawImageName (mdId d)])")
    case True
    then show ?thesis using add rest by (cases res) (simp_all add: case_prod_beta)
  next
    case False
    then show ?thesis using Cons.IH [OF Cons.prems] by simp
  qed
qed simp

end
