(* ===== verification/Install.thy ===== *)
theory Install
  imports Manager
begin

text \<open>
  Installing modules over HTTP, \<^verbatim>\<open>agent/internal/modules/install.go\<close>: an upload is verified and staged,
  a confirmation pins its signer and adds it to the local set, an uninstall takes it out again. The
  signature verifier, the file system and the random source are the outside; the log records the
  file operations.
\<close>

section \<open>Calls\<close>

datatype install_call =
    IMkdirAll string | IWriteFile string | IRemoveAll string | IRemove string | IMount string string | IUnmount string
  | IReadFile string | IRename string string | IOpen string | ICreate string | ICopy | ISync | IClose
  | IWriteConfig string "toml_table option" | IWriteTrust

datatype install_error =
    IeVerifier string | IeSignature string | IeStageID string | IeStageDir string | IeStageWrite string | IeManifest install_error
  | IeMount string | IeGlob string | IeCount nat | IeRead string | IeParse manifest_error
  | IeUnknownStage string | IeTrust trust_error | IeDestDir string | IeMove string | IePin trust_error | IeConfig string
  | IeStore store_error | IeReconcile mg_error | IeNotLocal string

record ihost =
  ihHost :: host
  ihVerifier :: "string + (bytes \<Rightarrow> bytes \<Rightarrow> string + string)"
  ihStageRand :: "nat \<Rightarrow> string + bytes"
  ihFails :: "install_call list \<Rightarrow> install_call \<Rightarrow> string option"
  ihGlob :: "string \<Rightarrow> string + string list"
  ihContents :: "string \<Rightarrow> string"
  ihEncodeTrust :: "trust_file \<Rightarrow> string option"
  ihNow :: time

record stage_preview =
  pvStageID :: string
  pvID :: string
  pvVersion :: string
  pvLabel :: string
  pvSignerSAN :: string
  pvUIKind :: string
  pvTabID :: string
  pvPermissions :: "string list"
  pvDevices :: "string list"
  pvPinned :: bool

record module_status =
  msID :: string
  msVersion :: string
  msOrigin :: string

type_synonym 'a inst = "(manager \<times> reconciler, install_call, 'a) eff"

definition icall :: "ihost \<Rightarrow> install_call \<Rightarrow> string option inst" where
  "icall ih c = perform (ihFails ih) c"

text \<open>\<^verbatim>\<open>if err := c(); err != nil { return wrap(err) }\<close> in a function with a result.\<close>

definition or_fail :: "'x option inst \<Rightarrow> ('x \<Rightarrow> install_error) \<Rightarrow> (install_error + 'a) inst \<Rightarrow> (install_error + 'a) inst" where
  "or_fail c wrap k = do { e \<leftarrow> c; case e of Some x \<Rightarrow> ret (Inl (wrap x)) | None \<Rightarrow> k }"

definition get_mgr :: "manager inst" where
  "get_mgr = gets fst"

definition upd_mgr :: "(manager \<Rightarrow> manager) \<Rightarrow> unit inst" where
  "upd_mgr f = modify (\<lambda>(m, r). (f m, r))"


section \<open>Staging\<close>

definition uiKindString :: "ui_kind \<Rightarrow> string" where
  "uiKindString k = (case k of UIKindStatic \<Rightarrow> ''static'' | UIKindProxy \<Rightarrow> ''proxy'' | UIKindNone \<Rightarrow> ''none'')"

definition flattenPerms :: "permissions \<Rightarrow> string list" where
  "flattenPerms p = pPublish p @ pSubscribe p @ pHardware p"

definition newStageID :: "ihost \<Rightarrow> string + string" where
  "newStageID ih = randomToken (ihStageRand ih) 8"

definition read_staged :: "ihost \<Rightarrow> string \<Rightarrow> string \<Rightarrow> (install_error + manifest) inst" where
  "read_staged ih rawPath mountPath =
     or_fail (icall ih (IMount rawPath mountPath)) IeMount
     (case ihGlob ih (path_join [mountPath, ''usr/share/waypoint/modules/*/module.toml'']) of
        Inl e \<Rightarrow> ret (Inl (IeGlob e))
      | Inr matches \<Rightarrow>
          (case matches of
             [path] \<Rightarrow>
               or_fail (icall ih (IReadFile path)) IeRead
               (ret (case ParseManifest (enDecode (hoEnv (ihHost ih))) (ihContents ih path) of
                  Inl e \<Rightarrow> Inl (IeParse e) | Inr mf \<Rightarrow> Inr mf))
           | _ \<Rightarrow> ret (Inl (IeCount (length matches)))))"

text \<open>The deferred unmount runs on every path after the mount directory exists.\<close>

definition readUploadedManifest :: "ihost \<Rightarrow> string \<Rightarrow> string \<Rightarrow> (install_error + manifest) inst" where
  "readUploadedManifest ih stageID rawPath = do {
     m \<leftarrow> get_mgr;
     let mountPath = path_join [opRuntimeDir (mgOpts m), ''.stage-mnt'', stageID];
     or_fail (icall ih (IMkdirAll mountPath)) IeStageDir (do {
       res \<leftarrow> read_staged ih rawPath mountPath;
       _ \<leftarrow> icall ih (IUnmount mountPath);
       _ \<leftarrow> icall ih (IRemove mountPath);
       ret res }) }"

definition StageModule :: "ihost \<Rightarrow> bytes \<Rightarrow> bytes \<Rightarrow> (install_error + stage_preview) inst" where
  "StageModule ih raw bundle =
     (case ihVerifier ih of
        Inl e \<Rightarrow> ret (Inl (IeVerifier e))
      | Inr verify \<Rightarrow>
     (case verify raw bundle of
        Inl e \<Rightarrow> ret (Inl (IeSignature e))
      | Inr san \<Rightarrow>
     (case newStageID ih of
        Inl e \<Rightarrow> ret (Inl (IeStageID e))
      | Inr stageID \<Rightarrow> do {
          m \<leftarrow> get_mgr;
          let stageDir = path_join [opRawStorageDir (mgOpts m), ''modules'', ''.staging'', stageID];
          let rawPath = path_join [stageDir, ''image.raw''];
          or_fail (icall ih (IMkdirAll stageDir)) IeStageDir (do {
            e \<leftarrow> icall ih (IWriteFile rawPath);
            case e of
              Some x \<Rightarrow> do { _ \<leftarrow> icall ih (IRemoveAll stageDir); ret (Inl (IeStageWrite x)) }
            | None \<Rightarrow> do {
                res \<leftarrow> readUploadedManifest ih stageID rawPath;
                case res of
                  Inl err \<Rightarrow> do { _ \<leftarrow> icall ih (IRemoveAll stageDir); ret (Inl (IeManifest err)) }
                | Inr mf \<Rightarrow> do {
                    upd_mgr (\<lambda>m. m \<lparr>mgStaging := map_set stageID \<lparr>stRawPath = rawPath, stStageDir = stageDir,
                      stId = mName mf, stVersion = mVersion mf, stSignerSAN = san\<rparr> (mgStaging m)\<rparr>);
                    ret (Inr \<lparr>pvStageID = stageID, pvID = mName mf, pvVersion = mVersion mf, pvLabel = mLabel mf,
                      pvSignerSAN = san, pvUIKind = uiKindString (uKind (mUI mf)), pvTabID = uTabID (mUI mf),
                      pvPermissions = flattenPerms (mPermissions mf), pvDevices = hwDevices (mHardware mf),
                      pvPinned = hasPin (mgTrust m) (mName mf)\<rparr>) } } }) })))"


section \<open>Confirming and uninstalling\<close>

definition copyFile :: "ihost \<Rightarrow> string \<Rightarrow> string \<Rightarrow> string option inst" where
  "copyFile ih src dst =
     try_then (icall ih (IOpen src)) id
     (try_then (icall ih (ICreate dst)) id (do {
        e \<leftarrow> icall ih ICopy;
        case e of
          Some x \<Rightarrow> do { _ \<leftarrow> icall ih IClose; ret (Some x) }
        | None \<Rightarrow> do {
            e \<leftarrow> icall ih ISync;
            case e of
              Some x \<Rightarrow> do { _ \<leftarrow> icall ih IClose; ret (Some x) }
            | None \<Rightarrow> icall ih IClose } }))"

text \<open>Rename, with a copy across devices as the fallback.\<close>

definition move_raw :: "ihost \<Rightarrow> string \<Rightarrow> string \<Rightarrow> string option inst" where
  "move_raw ih src dst = do {
     e \<leftarrow> icall ih (IRename src dst);
     case e of
       None \<Rightarrow> ret None
     | Some _ \<Rightarrow> try_then (copyFile ih src dst) id (do { _ \<leftarrow> icall ih (IRemove src); ret None }) }"

definition writeLocalConfig :: "ihost \<Rightarrow> string \<Rightarrow> string \<Rightarrow> string option inst" where
  "writeLocalConfig ih i configTOML =
     (case decodeModulesConfig (hoDecodeConfig (ihHost ih)) configTOML of
        Inl _ \<Rightarrow> ret (Some ''parse config'')
      | Inr cfgs \<Rightarrow> do {
          m \<leftarrow> get_mgr;
          let cfg = (case map_of cfgs i of None \<Rightarrow> Some [] | Some c \<Rightarrow> Some c);
          let dir = path_join [opRuntimeDir (mgOpts m), i];
          try_then (icall ih (IMkdirAll dir)) id
            (icall ih (IWriteConfig (path_join [dir, ''config.toml'']) cfg)) })"

definition pin_signer :: "ihost \<Rightarrow> string \<Rightarrow> string \<Rightarrow> trust_error option inst" where
  "pin_signer ih i san = do {
     m \<leftarrow> get_mgr;
     case PinSAN (ihEncodeTrust ih) (mgTrust m) i san of
       Inl e \<Rightarrow> ret (Some e)
     | Inr pins \<Rightarrow> do { upd_mgr (\<lambda>m. m \<lparr>mgTrust := Inr pins\<rparr>); ret None } }"

definition save_local :: "ihost \<Rightarrow> store_error option inst" where
  "save_local ih = State (\<lambda>((m, r), l).
     (case write_set (ihHost ih) (localStorePath (mgOpts m))
          (case mgLocalDesired m of None \<Rightarrow> empty_set | Some s \<Rightarrow> s) m of
        (e, m') \<Rightarrow> (e, ((m', r), l))))"

definition reconcile_now :: "ihost \<Rightarrow> mg_error option inst" where
  "reconcile_now ih = State (\<lambda>(mr, l). (case reconcileMerged (ihHost ih) (ihNow ih) mr of (e, mr') \<Rightarrow> (e, (mr', l))))"

definition ConfirmModule :: "ihost \<Rightarrow> string \<Rightarrow> string \<Rightarrow> install_error option inst" where
  "ConfirmModule ih stageID configTOML = do {
     m \<leftarrow> get_mgr;
     case map_of (mgStaging m) stageID of
       None \<Rightarrow> ret (Some (IeUnknownStage stageID))
     | Some st \<Rightarrow>
     (case CheckPinnedSAN (mgTrust m) (stId st) (stSignerSAN st) of
        Some e \<Rightarrow> ret (Some (IeTrust e))
      | None \<Rightarrow> do {
          let dest = rawDestPath (opRawStorageDir (mgOpts m)) (stId st) (stVersion st);
          try_then (icall ih (IMkdirAll (path_dir dest))) IeDestDir
          (try_then (move_raw ih (stRawPath st) dest) IeMove (do {
             upd_mgr (\<lambda>m. m \<lparr>mgStaging := map_del stageID (mgStaging m)\<rparr>);
             _ \<leftarrow> icall ih (IRemoveAll (stStageDir st));
             try_then (pin_signer ih (stId st) (stSignerSAN st)) IePin
             (try_then (if configTOML \<noteq> '''' then writeLocalConfig ih (stId st) configTOML else ret None) IeConfig (do {
                upd_mgr (\<lambda>m. m \<lparr>mgLocalDesired := Some (upsertModule (mgLocalDesired m)
                  \<lparr>mdId = stId st, mdVersion = stVersion st, mdRawUrl = ''file://'' @ dest, mdRawSha256 = '''',
                   mdConfigToml = configTOML\<rparr>)\<rparr>);
                try_then (save_local ih) IeStore (try_then (reconcile_now ih) IeReconcile (ret None)) })) })) }) }"

definition first_version :: "desired_set option \<Rightarrow> string \<Rightarrow> string" where
  "first_version s i = (case find (\<lambda>d. mdId d = i) (modules_of s) of None \<Rightarrow> '''' | Some d \<Rightarrow> mdVersion d)"

definition UninstallModule :: "ihost \<Rightarrow> string \<Rightarrow> install_error option inst" where
  "UninstallModule ih i = do {
     m \<leftarrow> get_mgr;
     if \<not> containsModule (mgLocalDesired m) i then ret (Some (IeNotLocal i))
     else do {
       let version = first_version (mgLocalDesired m) i;
       upd_mgr (\<lambda>m. m \<lparr>mgLocalDesired := Some (removeModule (mgLocalDesired m) i)\<rparr>);
       try_then (save_local ih) IeStore
       (try_then (reconcile_now ih) IeReconcile
          (if version \<noteq> '''' then do {
             _ \<leftarrow> icall ih (IRemoveAll (path_dir (rawDestPath (opRawStorageDir (mgOpts m)) i version)));
             ret None }
           else ret None)) } }"

definition ListModules :: "manager \<Rightarrow> module_status list" where
  "ListModules m =
     map (\<lambda>d. \<lparr>msID = mdId d, msVersion = mdVersion d, msOrigin = ''local''\<rparr>) (modules_of (mgLocalDesired m)) @
     map (\<lambda>d. \<lparr>msID = mdId d, msVersion = mdVersion d, msOrigin = ''proxy''\<rparr>)
       (filter (\<lambda>d. mdId d \<notin> mdId ` set (modules_of (mgLocalDesired m))) (modules_of (mgProxyDesired m)))"


section \<open>Frames\<close>

text \<open>The part of the manager that installs work on.\<close>

definition install_part :: "manager \<Rightarrow> options \<times> desired_set option \<times> desired_set option \<times> (string \<times> staged_module) list \<times>
    (trust_error + trust_file) \<times> bytes disk" where
  "install_part m = (mgOpts m, mgProxyDesired m, mgLocalDesired m, mgStaging m, mgTrust m, mgDisk m)"

lemma install_part_starts [simp]:
  "install_part (start_uplink ho i m) = install_part m" "install_part (start_servo ho i m) = install_part m"
  "install_part (start_teleop ho i m) = install_part m" "install_part (start_drive ho i m) = install_part m"
  "install_part (cancel_poller i m) = install_part m"
  by (simp_all add: install_part_def start_uplink_def start_servo_def start_teleop_def start_drive_def cancel_poller_def
      split: prod.split option.split)

lemma install_part_start_poller [simp]: "install_part (start_poller i m) = install_part m"
  using install_part_starts(5) [of i m] by (simp add: install_part_def start_poller_def Let_def)

lemma install_part_upd [simp]:
  "install_part (m \<lparr>mgPub := p\<rparr>) = install_part m" "install_part (m \<lparr>mgComponents := cs\<rparr>) = install_part m"
  by (simp_all add: install_part_def)

lemma install_part_attached [simp]: "install_part (onModuleAttached ho i mf m) = install_part m"
  by (simp add: onModuleAttached_def Let_def split: option.split)

lemma install_part_detached [simp]: "install_part (onModuleDetached i m) = install_part m"
  using install_part_starts(5) [of i m] by (simp add: onModuleDetached_def Let_def install_part_def split: prod.split)

lemma install_part_creds [simp]: "install_part (snd (ensureModuleCreds ho l d m)) = install_part m"
  by (subst ensureModuleCreds_frame) (simp add: install_part_def)

lemma install_part_replay [simp]: "install_part (replay ho m l) = install_part m"
  by (induction l) (simp_all add: hook_step_def split: host_call.split)

lemma reconcileMerged_frame: "reconcileMerged ho now (m, r) = (e, m', r') \<Longrightarrow> install_part m' = install_part m"
  by (auto simp: reconcileMerged_def Let_def split: prod.splits)

section \<open>The install invariant\<close>

text \<open>\<open>V\<close> are the signer names the verifier can return.\<close>

definition pins_ok :: "string set \<Rightarrow> trust_error + trust_file \<Rightarrow> desired_set option \<Rightarrow> bool" where
  "pins_ok V tr loc \<longleftrightarrow>
     (\<exists>pins. tr = Inr pins \<and> (\<forall>i p. map_of pins i = Some p \<longrightarrow> p \<in> SigningIdentity ` V) \<and>
        (\<forall>d \<in> set (modules_of loc). map_of pins (mdId d) \<noteq> None))"

definition trust_ok :: "string set \<Rightarrow> manager \<Rightarrow> bool" where
  "trust_ok V m \<longleftrightarrow> pins_ok V (mgTrust m) (mgLocalDesired m) \<and>
     (\<forall>sid st. map_of (mgStaging m) sid = Some st \<longrightarrow> stSignerSAN st \<in> V)"

definition inst_inv :: "string set \<Rightarrow> manager \<times> reconciler \<Rightarrow> bool" where
  "inst_inv V mr \<longleftrightarrow> trust_ok V (fst mr) \<and> rover_ok mr"

definition pins_extend :: "trust_error + trust_file \<Rightarrow> trust_error + trust_file \<Rightarrow> bool" where
  "pins_extend tr tr' \<longleftrightarrow> (\<forall>pins i p. tr = Inr pins \<and> map_of pins i = Some p \<longrightarrow> (\<exists>pins'. tr' = Inr pins' \<and> map_of pins' i = Some p))"

lemma pins_extend_refl [simp]: "pins_extend tr tr"
  by (auto simp: pins_extend_def)

text \<open>Assertions about the state alone.\<close>

definition keeps :: "(manager \<times> reconciler \<Rightarrow> bool) \<Rightarrow> 'a inst \<Rightarrow> (manager \<times> reconciler \<Rightarrow> bool) \<Rightarrow> bool" where
  "keeps P c Q \<longleftrightarrow> valid (\<lambda>w. P (fst w)) c (\<lambda>_ w. Q (fst w))"

lemma keeps_icall: "keeps P (icall ih c) P"
  by (auto simp: keeps_def valid_def icall_def)

lemma keeps_ret: "(\<And>mr. P mr \<Longrightarrow> Q mr) \<Longrightarrow> keeps P (ret x) Q"
  by (auto simp: keeps_def valid_def)

lemma keeps_bind: "keeps P c R \<Longrightarrow> (\<And>x. keeps R (f x) Q) \<Longrightarrow> keeps P (c \<bind> f) Q"
  unfolding keeps_def by (rule valid_bind)

lemma keeps_weaken: "keeps P' c Q' \<Longrightarrow> (\<And>x. P x \<Longrightarrow> P' x) \<Longrightarrow> (\<And>x. Q' x \<Longrightarrow> Q x) \<Longrightarrow> keeps P c Q"
  unfolding keeps_def by (erule valid_weaken) auto

lemma keeps_get: "(\<And>m r. P (m, r) \<Longrightarrow> keeps (\<lambda>x. P x \<and> x = (m, r)) (f m) Q) \<Longrightarrow> keeps P (get_mgr \<bind> f) Q"
  by (auto simp: keeps_def valid_def get_mgr_def)

lemma keeps_upd: "(\<And>m r. P (m, r) \<Longrightarrow> Q (f m, r)) \<Longrightarrow> keeps P (upd_mgr f) Q"
  by (auto simp: keeps_def valid_def upd_mgr_def)

lemma keeps_try:
  assumes "keeps P c P" "keeps P k Q" "\<And>x. P x \<Longrightarrow> Q x"
  shows "keeps P (try_then c f k) Q"
  unfolding keeps_def
proof (rule valid_try_then [OF _ assms(2) [unfolded keeps_def]])
  show "valid (\<lambda>w. P (fst w)) c (\<lambda>e w. case e of Some x \<Rightarrow> Q (fst w) | None \<Rightarrow> P (fst w))"
    by (rule valid_weaken [OF assms(1) [unfolded keeps_def]]) (use assms(3) in \<open>auto split: option.split\<close>)
qed

lemma keeps_or_fail: "keeps P c P \<Longrightarrow> keeps P k Q \<Longrightarrow> (\<And>x. P x \<Longrightarrow> Q x) \<Longrightarrow> keeps P (or_fail c f k) Q"
  unfolding or_fail_def by (rule keeps_bind, assumption) (auto intro: keeps_ret split: option.split)

lemma keeps_copyFile: "keeps P (copyFile ih src dst) P"
  unfolding copyFile_def
  by (intro keeps_try keeps_icall keeps_bind [where R = P]) (auto intro!: keeps_icall keeps_ret keeps_bind [where R = P] split: option.split)

lemma keeps_move_raw: "keeps P (move_raw ih src dst) P"
  unfolding move_raw_def
  by (rule keeps_bind [OF keeps_icall]) (auto intro!: keeps_try keeps_copyFile keeps_icall keeps_ret keeps_bind [where R = P] split: option.split)

lemma keeps_writeLocalConfig: "keeps P (writeLocalConfig ih i cfg) P"
  unfolding writeLocalConfig_def Let_def
  by (auto intro!: keeps_get keeps_try keeps_icall keeps_ret intro: keeps_weaken [OF keeps_icall] split: sum.split)

lemma keeps_read_staged: "keeps P (read_staged ih raw mp) P"
  unfolding read_staged_def
  by (rule keeps_or_fail [OF keeps_icall]) (auto intro!: keeps_or_fail keeps_icall keeps_ret split: sum.split list.split)


text \<open>The verifier returns names in \<open>V\<close>.\<close>

definition verifies :: "string set \<Rightarrow> ihost \<Rightarrow> bool" where
  "verifies V ih \<longleftrightarrow> (\<forall>v raw bundle san. ihVerifier ih = Inr v \<and> v raw bundle = Inr san \<longrightarrow> san \<in> V)"

definition trust_is :: "string set \<Rightarrow> trust_error + trust_file \<Rightarrow> manager \<times> reconciler \<Rightarrow> bool" where
  "trust_is V tr mr \<longleftrightarrow> inst_inv V mr \<and> mgTrust (fst mr) = tr"

lemma trust_is_stage:
  "trust_is V tr (m, r) \<Longrightarrow> stSignerSAN st \<in> V \<Longrightarrow> trust_is V tr (m \<lparr>mgStaging := map_set sid st (mgStaging m)\<rparr>, r)"
  by (clarsimp simp: trust_is_def inst_inv_def trust_ok_def rover_ok_frame)

lemma trust_is_unstage:
  "trust_is V tr (m, r) \<Longrightarrow> trust_is V tr (m \<lparr>mgStaging := map_del sid (mgStaging m)\<rparr>, r)"
  by (clarsimp simp: trust_is_def inst_inv_def trust_ok_def rover_ok_frame)

lemma keeps_readUploadedManifest: "keeps P (readUploadedManifest ih sid raw) P"
proof -
  have "keeps (\<lambda>x. P x \<and> x = mr) (or_fail (icall ih (IMkdirAll mp)) IeStageDir (do {
       res \<leftarrow> read_staged ih raw mp;
       _ \<leftarrow> icall ih (IUnmount mp);
       _ \<leftarrow> icall ih (IRemove mp);
       ret res })) P" for mr mp
    by (intro keeps_or_fail [OF keeps_icall] keeps_bind [OF keeps_read_staged] keeps_bind [OF keeps_icall] keeps_ret) auto
  then show ?thesis unfolding readUploadedManifest_def Let_def by (intro keeps_get)
qed

lemma StageModule_inv:
  assumes "verifies V ih"
  shows "keeps (trust_is V tr) (StageModule ih raw bundle) (trust_is V tr)"
proof -
  let ?J = "trust_is V tr"
  have stage: "keeps ?J (do {
        upd_mgr (\<lambda>m. m \<lparr>mgStaging := map_set sid \<lparr>stRawPath = rp, stStageDir = sd, stId = mName mf, stVersion = mVersion mf,
          stSignerSAN = san\<rparr> (mgStaging m)\<rparr>);
        ret (Inr pv) }) ?J" if "san \<in> V" for sid rp sd mf san and pv :: stage_preview
    by (intro keeps_bind [where R = ?J] keeps_upd keeps_ret trust_is_stage) (use that in auto)
  have drop: "keeps ?J (do { _ \<leftarrow> icall ih c; ret (x :: install_error + stage_preview) }) ?J" for c x
    by (intro keeps_bind [OF keeps_icall] keeps_ret)
  have body: "keeps (\<lambda>x. ?J x \<and> x = mr) (or_fail (icall ih (IMkdirAll sd)) IeStageDir (do {
            e \<leftarrow> icall ih (IWriteFile rp);
            case e of
              Some x \<Rightarrow> do { _ \<leftarrow> icall ih (IRemoveAll sd); ret (Inl (IeStageWrite x)) }
            | None \<Rightarrow> do {
                res \<leftarrow> readUploadedManifest ih sid rp;
                case res of
                  Inl err \<Rightarrow> do { _ \<leftarrow> icall ih (IRemoveAll sd); ret (Inl (IeManifest err)) }
                | Inr mf \<Rightarrow> do {
                    upd_mgr (\<lambda>m. m \<lparr>mgStaging := map_set sid \<lparr>stRawPath = rp, stStageDir = sd,
                      stId = mName mf, stVersion = mVersion mf, stSignerSAN = san\<rparr> (mgStaging m)\<rparr>);
                    ret (Inr (pv mf)) } } })) ?J" if "san \<in> V" for mr sd rp sid san and pv :: "manifest \<Rightarrow> stage_preview"
  proof (rule keeps_weaken [where P' = ?J and Q' = ?J])
    show "keeps ?J (or_fail (icall ih (IMkdirAll sd)) IeStageDir (do {
            e \<leftarrow> icall ih (IWriteFile rp);
            case e of
              Some x \<Rightarrow> do { _ \<leftarrow> icall ih (IRemoveAll sd); ret (Inl (IeStageWrite x)) }
            | None \<Rightarrow> do {
                res \<leftarrow> readUploadedManifest ih sid rp;
                case res of
                  Inl err \<Rightarrow> do { _ \<leftarrow> icall ih (IRemoveAll sd); ret (Inl (IeManifest err)) }
                | Inr mf \<Rightarrow> do {
                    upd_mgr (\<lambda>m. m \<lparr>mgStaging := map_set sid \<lparr>stRawPath = rp, stStageDir = sd,
                      stId = mName mf, stVersion = mVersion mf, stSignerSAN = san\<rparr> (mgStaging m)\<rparr>);
                    ret (Inr (pv mf)) } } })) ?J"
      by (rule keeps_or_fail [OF keeps_icall], rule keeps_bind [OF keeps_icall])
        (auto intro!: drop stage [OF that] keeps_bind [OF keeps_readUploadedManifest] split: option.split sum.split)
  qed auto
  have "san \<in> V" if "ihVerifier ih = Inr v" "v raw bundle = Inr san" for v san
    using assms that by (auto simp: verifies_def)
  then show ?thesis
    unfolding StageModule_def Let_def
    by (auto intro!: keeps_ret keeps_get body split: sum.split)
qed


lemma install_part_eq:
  "install_part m' = install_part m \<Longrightarrow> mgTrust m' = mgTrust m \<and> mgLocalDesired m' = mgLocalDesired m \<and> mgStaging m' = mgStaging m"
  by (simp add: install_part_def)

lemma keeps_reconcile_now: "keeps (trust_is V tr) (reconcile_now ih) (trust_is V tr)"
  unfolding keeps_def
proof (rule validI)
  fix w x w'
  assume pre: "trust_is V tr (fst w)" and run: "run_state (reconcile_now ih) w = (x, w')"
  obtain m r l where w: "w = ((m, r), l)" by (metis surj_pair)
  obtain e m' r' where rec: "reconcileMerged (ihHost ih) (ihNow ih) (m, r) = (e, m', r')" by (rule prod_cases3)
  then have w': "w' = ((m', r'), l)" using run by (simp add: reconcile_now_def w)
  have "rover_ok (m, r)" using pre by (simp add: trust_is_def inst_inv_def w)
  then have "rover_ok (m', r')" using rec by (rule reconcileMerged_ok)
  then show "trust_is V tr (fst w')"
    using pre install_part_eq [OF reconcileMerged_frame [OF rec]] by (clarsimp simp: w w' trust_is_def inst_inv_def trust_ok_def)
qed

lemma keeps_save_local: "keeps (trust_is V tr) (save_local ih) (trust_is V tr)"
  by (auto simp: keeps_def valid_def save_local_def write_set_def trust_is_def inst_inv_def trust_ok_def
      split: prod.splits option.splits intro: rover_ok_frame(3))

lemma in_upsert: "d \<in> set (modules_of (Some (upsertModule s x))) \<Longrightarrow> d = x \<or> d \<in> set (modules_of s)"
proof -
  have rep: "replace_first ms x = Some ms' \<Longrightarrow> d \<in> set ms' \<Longrightarrow> d = x \<or> d \<in> set ms" for ms ms'
    by (induction ms arbitrary: ms') (auto split: if_splits option.splits)
  show "d \<in> set (modules_of (Some (upsertModule s x))) \<Longrightarrow> d = x \<or> d \<in> set (modules_of s)"
    using rep by (auto simp: upsertModule_def modules_of_def empty_set_def Let_def split: option.splits)
qed

lemma modules_of_remove: "d \<in> set (modules_of (Some (removeModule s i))) \<Longrightarrow> d \<in> set (modules_of s)"
  by (auto simp: removeModule_def modules_of_def empty_set_def split: option.splits)

text \<open>After pinning, the module of the confirmation is pinned.\<close>

lemma pin_signer_pins:
  assumes "san \<in> V" and check: "CheckPinnedSAN tr i san = None"
  shows "valid (\<lambda>w. trust_is V tr (fst w)) (pin_signer ih i san)
    (\<lambda>e w. if e = None then (\<exists>pins. trust_is V (Inr pins) (fst w) \<and> map_of pins i \<noteq> None \<and> pins_extend tr (Inr pins))
       else trust_is V tr (fst w))"
proof (rule validI)
  fix w e w'
  assume pre: "trust_is V tr (fst w)" and run: "run_state (pin_signer ih i san) w = (e, w')"
  obtain m r l where w: "w = ((m, r), l)" by (metis surj_pair)
  obtain pins where tr: "tr = Inr pins" "mgTrust m = Inr pins" and
    pins: "\<And>j p. map_of pins j = Some p \<Longrightarrow> p \<in> SigningIdentity ` V"
      "\<And>d. d \<in> set (modules_of (mgLocalDesired m)) \<Longrightarrow> map_of pins (mdId d) \<noteq> None"
    using pre by (auto simp: trust_is_def inst_inv_def trust_ok_def pins_ok_def w)
  let ?pins = "map_set i (SigningIdentity san) pins"
  show "if e = None then (\<exists>pins. trust_is V (Inr pins) (fst w') \<and> map_of pins i \<noteq> None \<and> pins_extend tr (Inr pins))
       else trust_is V tr (fst w')"
  proof (cases "ihEncodeTrust ih ?pins")
    case (Some x)
    then have "e \<noteq> None" "w' = w" using run tr by (auto simp: pin_signer_def get_mgr_def PinSAN_def Let_def w)
    then show ?thesis using pre by auto
  next
    case None
    then have e: "e = None" "w' = ((m \<lparr>mgTrust := Inr ?pins\<rparr>, r), l)"
      using run tr by (simp_all add: pin_signer_def get_mgr_def upd_mgr_def PinSAN_def Let_def w)
    have same: "p = SigningIdentity san" if "map_of pins i = Some p" for p
      using check pins(1) [OF that] that tr by (auto simp: CheckPinnedSAN_def split: if_splits)
    have "pins_ok V (Inr ?pins) (mgLocalDesired m)"
      using pins assms(1) by (simp add: pins_ok_def)
    then have "trust_is V (Inr ?pins) (fst w')"
      using pre by (simp add: e trust_is_def inst_inv_def trust_ok_def rover_ok_frame w)
    moreover have "pins_extend tr (Inr ?pins)"
      using same by (auto simp: pins_extend_def tr)
    moreover have "map_of ?pins i \<noteq> None" by simp
    ultimately show ?thesis unfolding e(1) by (metis (full_types))
  qed
qed


text \<open>The trust pins only grow, and the invariant holds.\<close>

definition grown :: "string set \<Rightarrow> trust_error + trust_file \<Rightarrow> manager \<times> reconciler \<Rightarrow> bool" where
  "grown V tr mr \<longleftrightarrow> inst_inv V mr \<and> pins_extend tr (mgTrust (fst mr))"

lemma grown_trust_is: "trust_is V tr' mr \<Longrightarrow> pins_extend tr tr' \<Longrightarrow> grown V tr mr"
  by (auto simp: grown_def trust_is_def)

lemma trust_is_upsert:
  assumes "trust_is V (Inr pins) (m, r)" "map_of pins (mdId d) \<noteq> None"
  shows "trust_is V (Inr pins) (m \<lparr>mgLocalDesired := Some (upsertModule (mgLocalDesired m) d)\<rparr>, r)"
proof -
  have "pins_ok V (Inr pins) (Some (upsertModule (mgLocalDesired m) d))"
    using assms in_upsert [of _ "mgLocalDesired m" d]
    unfolding trust_is_def inst_inv_def trust_ok_def pins_ok_def by fastforce
  then show ?thesis using assms(1) by (clarsimp simp: trust_is_def inst_inv_def trust_ok_def rover_ok_frame)
qed

lemma trust_is_remove:
  assumes "trust_is V tr (m, r)"
  shows "trust_is V tr (m \<lparr>mgLocalDesired := Some (removeModule (mgLocalDesired m) i)\<rparr>, r)"
proof -
  have "pins_ok V tr (Some (removeModule (mgLocalDesired m) i))"
    using assms modules_of_remove [of _ "mgLocalDesired m" i]
    unfolding trust_is_def inst_inv_def trust_ok_def pins_ok_def by fastforce
  then show ?thesis using assms by (clarsimp simp: trust_is_def inst_inv_def trust_ok_def rover_ok_frame)
qed

definition finish_confirm :: "ihost \<Rightarrow> staged_module \<Rightarrow> string \<Rightarrow> string \<Rightarrow> install_error option inst" where
  "finish_confirm ih st dest configTOML =
     try_then (if configTOML \<noteq> '''' then writeLocalConfig ih (stId st) configTOML else ret None) IeConfig (do {
                upd_mgr (\<lambda>m. m \<lparr>mgLocalDesired := Some (upsertModule (mgLocalDesired m)
                  \<lparr>mdId = stId st, mdVersion = stVersion st, mdRawUrl = ''file://'' @ dest, mdRawSha256 = '''',
                   mdConfigToml = configTOML\<rparr>)\<rparr>);
                try_then (save_local ih) IeStore (try_then (reconcile_now ih) IeReconcile (ret None)) })"

lemma finish_confirm_keeps:
  assumes "map_of pins (stId st) \<noteq> None"
  shows "keeps (trust_is V (Inr pins)) (finish_confirm ih st dest cfg) (trust_is V (Inr pins))"
proof -
  have 1: "keeps (trust_is V (Inr pins)) (if cfg \<noteq> '''' then writeLocalConfig ih (stId st) cfg else ret None) (trust_is V (Inr pins))"
    by (simp add: keeps_writeLocalConfig keeps_ret)
  show ?thesis
    unfolding finish_confirm_def
    by (rule keeps_try [OF 1], rule keeps_bind [where R = "trust_is V (Inr pins)"], rule keeps_upd)
      (use assms in \<open>auto intro!: trust_is_upsert keeps_try keeps_save_local keeps_reconcile_now keeps_ret\<close>)
qed

lemma pin_and_finish:
  assumes "stSignerSAN st \<in> V" "CheckPinnedSAN tr (stId st) (stSignerSAN st) = None"
  shows "keeps (trust_is V tr) (try_then (pin_signer ih (stId st) (stSignerSAN st)) IePin (finish_confirm ih st dest cfg)) (grown V tr)"
  unfolding keeps_def
proof (rule valid_try_then)
  show "valid (\<lambda>w. trust_is V tr (fst w)) (pin_signer ih (stId st) (stSignerSAN st))
    (\<lambda>e w. case e of Some x \<Rightarrow> grown V tr (fst w)
      | None \<Rightarrow> \<exists>pins. trust_is V (Inr pins) (fst w) \<and> map_of pins (stId st) \<noteq> None \<and> pins_extend tr (Inr pins))"
    by (rule valid_weaken [OF pin_signer_pins [OF assms]]) (auto split: option.split if_splits intro: grown_trust_is)
  show "valid (\<lambda>w. \<exists>pins. trust_is V (Inr pins) (fst w) \<and> map_of pins (stId st) \<noteq> None \<and> pins_extend tr (Inr pins))
     (finish_confirm ih st dest cfg) (\<lambda>_ w. grown V tr (fst w))"
  proof (rule validI)
    fix w x w'
    assume "\<exists>pins. trust_is V (Inr pins) (fst w) \<and> map_of pins (stId st) \<noteq> None \<and> pins_extend tr (Inr pins)"
      and run: "run_state (finish_confirm ih st dest cfg) w = (x, w')"
    then obtain pins where p: "trust_is V (Inr pins) (fst w)" "map_of pins (stId st) \<noteq> None" "pins_extend tr (Inr pins)" by blast
    have "trust_is V (Inr pins) (fst w')"
      by (rule validD [OF finish_confirm_keeps [OF p(2), unfolded keeps_def] p(1) run])
    then show "grown V tr (fst w')" using p(3) by (rule grown_trust_is)
  qed
qed

lemma ConfirmModule_inv: "keeps (trust_is V tr) (ConfirmModule ih sid cfg) (grown V tr)"
  unfolding ConfirmModule_def Let_def finish_confirm_def [symmetric]
proof (rule keeps_get)
  fix m r
  assume J: "trust_is V tr (m, r)"
  have [simp]: "mgTrust m = tr" using J by (simp add: trust_is_def)
  have grown: "trust_is V tr x \<Longrightarrow> grown V tr x" for x
    using grown_trust_is [OF _ pins_extend_refl] .
  have go: "keeps (trust_is V tr) (try_then (icall ih c) IeDestDir
          (try_then (move_raw ih src dest) IeMove (do {
             upd_mgr (\<lambda>m. m \<lparr>mgStaging := map_del sid (mgStaging m)\<rparr>);
             _ \<leftarrow> icall ih c';
             try_then (pin_signer ih (stId st) (stSignerSAN st)) IePin (finish_confirm ih st dest cfg) }))) (grown V tr)"
    if "stSignerSAN st \<in> V" "CheckPinnedSAN tr (stId st) (stSignerSAN st) = None" for st c c' src dest
    by (intro keeps_try [OF keeps_icall] keeps_try [OF keeps_move_raw] keeps_bind [where R = "trust_is V tr"] keeps_upd
        pin_and_finish [OF that] trust_is_unstage keeps_icall grown)
  show "keeps (\<lambda>x. trust_is V tr x \<and> x = (m, r)) (case map_of (mgStaging m) sid of
       None \<Rightarrow> ret (Some (IeUnknownStage sid))
     | Some st \<Rightarrow>
     (case CheckPinnedSAN (mgTrust m) (stId st) (stSignerSAN st) of
        Some e \<Rightarrow> ret (Some (IeTrust e))
      | None \<Rightarrow>
          try_then (icall ih (IMkdirAll (path_dir (rawDestPath (opRawStorageDir (mgOpts m)) (stId st) (stVersion st))))) IeDestDir
          (try_then (move_raw ih (stRawPath st) (rawDestPath (opRawStorageDir (mgOpts m)) (stId st) (stVersion st))) IeMove (do {
             upd_mgr (\<lambda>m. m \<lparr>mgStaging := map_del sid (mgStaging m)\<rparr>);
             _ \<leftarrow> icall ih (IRemoveAll (stStageDir st));
             try_then (pin_signer ih (stId st) (stSignerSAN st)) IePin
               (finish_confirm ih st (rawDestPath (opRawStorageDir (mgOpts m)) (stId st) (stVersion st)) cfg) })))) (grown V tr)"
  proof (cases "map_of (mgStaging m) sid")
    case None
    then show ?thesis by (auto intro!: keeps_ret grown)
  next
    case (Some st)
    have "stSignerSAN st \<in> V" using J Some by (auto simp: trust_is_def inst_inv_def trust_ok_def)
    note go = go [OF this]
    show ?thesis
      by (cases "CheckPinnedSAN tr (stId st) (stSignerSAN st)")
        (auto simp: Some intro!: keeps_ret grown intro: keeps_weaken [OF go])
  qed
qed

lemma UninstallModule_inv: "keeps (trust_is V tr) (UninstallModule ih i) (trust_is V tr)"
proof -
  let ?J = "trust_is V tr"
  have "keeps ?J (do {
       upd_mgr (\<lambda>m. m \<lparr>mgLocalDesired := Some (removeModule (mgLocalDesired m) i)\<rparr>);
       try_then (save_local ih) IeStore
       (try_then (reconcile_now ih) IeReconcile
          (if b then do { _ \<leftarrow> icall ih c; ret None } else ret None)) }) ?J" for b c
    by (intro keeps_bind [where R = ?J] keeps_upd trust_is_remove keeps_try [OF keeps_save_local] keeps_try [OF keeps_reconcile_now])
      (auto intro!: keeps_bind [OF keeps_icall] keeps_ret)
  note go = keeps_weaken [OF this]
  show ?thesis
    unfolding UninstallModule_def Let_def
  proof (rule keeps_get)
    fix m r
    show "keeps (\<lambda>x. ?J x \<and> x = (m, r)) (if \<not> containsModule (mgLocalDesired m) i then ret (Some (IeNotLocal i))
       else do {
       upd_mgr (\<lambda>m. m \<lparr>mgLocalDesired := Some (removeModule (mgLocalDesired m) i)\<rparr>);
       try_then (save_local ih) IeStore
       (try_then (reconcile_now ih) IeReconcile
          (if first_version (mgLocalDesired m) i \<noteq> '''' then do {
             _ \<leftarrow> icall ih (IRemoveAll (path_dir (rawDestPath (opRawStorageDir (mgOpts m)) i (first_version (mgLocalDesired m) i))));
             ret None }
           else ret None)) }) ?J"
    proof (cases "containsModule (mgLocalDesired m) i")
      case True
      then have neg: "(\<not> containsModule (mgLocalDesired m) i) = False" by simp
      show ?thesis unfolding neg if_False by (rule go) auto
    qed (auto intro: keeps_ret)
  qed
qed


section \<open>Histories\<close>

text \<open>What can happen to a running manager: an upload, a confirmation, an uninstall, a new desired set
  from the proxy, or a health sample. Every operation may meet different failures.\<close>

inductive inst_step :: "string set \<Rightarrow> manager \<times> reconciler \<Rightarrow> manager \<times> reconciler \<Rightarrow> bool" for V where
  stage: "verifies V ih \<Longrightarrow> run_state (StageModule ih raw bundle) (mr, l) = (res, (mr', l')) \<Longrightarrow> inst_step V mr mr'"
| confirm: "run_state (ConfirmModule ih sid cfg) (mr, l) = (e, (mr', l')) \<Longrightarrow> inst_step V mr mr'"
| uninstall: "run_state (UninstallModule ih i) (mr, l) = (e, (mr', l')) \<Longrightarrow> inst_step V mr mr'"
| desired: "inst_step V mr (handleDesired ho now data mr)"
| health: "inst_step V (m, r) (pollHealth_check now active i m, r)"

inductive installs :: "string set \<Rightarrow> manager \<times> reconciler \<Rightarrow> manager \<times> reconciler \<Rightarrow> bool" for V where
  refl: "installs V mr mr"
| step: "installs V mr mr1 \<Longrightarrow> inst_step V mr1 mr2 \<Longrightarrow> installs V mr mr2"

lemma handleDesired_frame:
  "mgTrust (fst (handleDesired ho now data mr)) = mgTrust (fst mr) \<and>
   mgLocalDesired (fst (handleDesired ho now data mr)) = mgLocalDesired (fst mr) \<and>
   mgStaging (fst (handleDesired ho now data mr)) = mgStaging (fst mr)"
proof (cases "hoUnmarshal ho data")
  case (Inr ds)
  obtain m r where mr: "mr = (m, r)" by (cases mr)
  let ?m1 = "snd (write_set ho (proxyCachePath (mgOpts m)) ds m)"
  obtain e m' r' where rec: "reconcileMerged ho now (?m1 \<lparr>mgProxyDesired := Some ds\<rparr>, r) = (e, m', r')" by (rule prod_cases3)
  have "mgTrust ?m1 = mgTrust m" "mgLocalDesired ?m1 = mgLocalDesired m" "mgStaging ?m1 = mgStaging m"
    by (simp_all add: write_set_def split: prod.split)
  then show ?thesis
    using install_part_eq [OF reconcileMerged_frame [OF rec]] rec Inr by (simp add: handleDesired_def Let_def mr)
qed (simp add: handleDesired_def)

lemma pollHealth_ok: "rover_ok (m, r) \<Longrightarrow> rover_ok (pollHealth_check now active i m, r)"
  by (simp add: rover_ok_def mg_ok_def balanced_def pollers_ok_def surfaces_def pollHealth_check_def SetHealth_def
      signalChange_def Let_def)

lemma inst_step_grown:
  assumes "inst_step V mr mr'" "inst_inv V mr"
  shows "grown V (mgTrust (fst mr)) mr'"
proof -
  have J: "trust_is V (mgTrust (fst mr)) mr" using assms(2) by (simp add: trust_is_def)
  have grown: "trust_is V tr x \<Longrightarrow> grown V tr x" for tr x using grown_trust_is [OF _ pins_extend_refl] .
  from assms(1) show ?thesis
  proof cases
    case (stage ih raw bndl l res l')
    have "trust_is V (mgTrust (fst mr)) (fst (mr', l'))"
      by (rule validD [OF StageModule_inv [OF stage(1), unfolded keeps_def] _ stage(2)]) (use J in simp)
    then show ?thesis using grown by simp
  next
    case (confirm ih sid cfg l e l')
    have "grown V (mgTrust (fst mr)) (fst (mr', l'))"
      by (rule validD [OF ConfirmModule_inv [unfolded keeps_def] _ confirm]) (use J in simp)
    then show ?thesis by simp
  next
    case (uninstall ih i l e l')
    have "trust_is V (mgTrust (fst mr)) (fst (mr', l'))"
      by (rule validD [OF UninstallModule_inv [unfolded keeps_def] _ uninstall]) (use J in simp)
    then show ?thesis using grown by simp
  next
    case (desired ho now data)
    have "rover_ok mr'" unfolding desired using assms(2) by (intro handleDesired_ok) (simp add: inst_inv_def)
    then show ?thesis
      using assms(2) handleDesired_frame [of ho now data mr] by (simp add: grown_def inst_inv_def trust_ok_def desired)
  next
    case (health m r now active i)
    have "rover_ok mr'" unfolding health using assms(2) by (intro pollHealth_ok) (simp add: inst_inv_def health)
    then show ?thesis using assms(2) by (simp add: grown_def inst_inv_def trust_ok_def health pollHealth_check_def)
  qed
qed

lemma pins_extend_trans: "pins_extend a b \<Longrightarrow> pins_extend b c \<Longrightarrow> pins_extend a c"
  unfolding pins_extend_def by blast

lemma installs_grown:
  assumes "installs V mr mr'" "inst_inv V mr"
  shows "grown V (mgTrust (fst mr)) mr'"
  using assms
proof induction
  case (step mr mr1 mr2)
  then have "grown V (mgTrust (fst mr)) mr1" by simp
  then have "grown V (mgTrust (fst mr1)) mr2" "pins_extend (mgTrust (fst mr)) (mgTrust (fst mr1))"
    using inst_step_grown [OF step.hyps(2)] by (simp_all add: grown_def)
  then show ?case using pins_extend_trans by (auto simp: grown_def)
qed (simp add: grown_def)

text \<open>A manager that starts with nothing installed.\<close>

definition fresh_rover :: "manager \<times> reconciler \<Rightarrow> bool" where
  "fresh_rover mr \<longleftrightarrow> mgTrust (fst mr) = Inr [] \<and> modules_of (mgLocalDesired (fst mr)) = [] \<and> mgStaging (fst mr) = [] \<and> rover_ok mr"

lemma fresh_inv: "fresh_rover mr \<Longrightarrow> inst_inv V mr"
  by (simp add: fresh_rover_def inst_inv_def trust_ok_def pins_ok_def)





section \<open>A concrete installation\<close>

definition demo_ihost :: ihost where
  "demo_ihost = \<lparr>ihHost = demo_host (\<lambda>_ _. None) \<lparr>hoEnv := demo_env (\<lambda>_ _. None) \<lparr>enDecode := (\<lambda>_. Inr (demo_raw ''survey''))\<rparr>\<rparr>,
     ihVerifier = Inr (\<lambda>_ _. Inr ''signer@v1''), ihStageRand = (\<lambda>n. Inr (replicate n 7)), ihFails = (\<lambda>_ _. None),
     ihGlob = (\<lambda>_. Inr [''/m/module.toml'']), ihContents = (\<lambda>_. ''''), ihEncodeTrust = (\<lambda>_. None), ihNow = 5\<rparr>"

definition demo_rc :: reconciler where
  "demo_rc = run_reconciler demo_options False '''' ''''"

lemma demo_fresh: "fresh_rover (demo_mgr, demo_rc)"
  by (simp add: fresh_rover_def rover_ok_def demo_mgr_def demo_rc_def run_reconciler_def modules_of_def mg_ok_def balanced_def
      pollers_ok_def surfaces_def newUplinkMirror_def newServoBroker_def newTeleopInputBroker_def newDriveBroker_def
      NewSnapshotPublisher_def conn0_def conn_inv_def open_ids_def held_def held1_def teleop_owned_def drive_owned_def)

lemma demo_verifies: "verifies {''signer@v1''} demo_ihost"
  by (simp add: verifies_def demo_ihost_def)

definition demo_staged :: "string \<Rightarrow> staged_module" where
  "demo_staged sid = (let dir = path_join [''/data/waypoint'', ''modules'', ''.staging'', sid] in
     \<lparr>stRawPath = path_join [dir, ''image.raw''], stStageDir = dir, stId = ''survey'', stVersion = ''1.0.0'', stSignerSAN = ''signer@v1''\<rparr>)"

lemma demo_manifest_name [simp]: "mName (demo_manifest n) = n" "mVersion (demo_manifest n) = ''1.0.0''"
  by (simp_all add: demo_manifest_def manifest_of_raw_def demo_raw_def)

lemma run_icall_demo [simp]: "run_state (icall demo_ihost c) (mr, l) = (None, (mr, c # l))"
  by (simp add: icall_def demo_ihost_def)

lemma demo_sel [simp]:
  "ihVerifier demo_ihost = Inr (\<lambda>_ _. Inr ''signer@v1'')" "ihGlob demo_ihost p = Inr [''/m/module.toml'']"
  "ihContents demo_ihost p = ''''" "ihEncodeTrust demo_ihost ps = None"
  "enDecode (hoEnv (ihHost demo_ihost)) = (\<lambda>_. Inr (demo_raw ''survey''))"
  "hoDisk (ihHost demo_ihost) = (\<lambda>_. None)" "hoMarshal (ihHost demo_ihost) = (\<lambda>_. Inr [])"
  by (simp_all add: demo_ihost_def demo_host_def)

lemma demo_mgr_sel [simp]:
  "opRawStorageDir (mgOpts demo_mgr) = ''/data/waypoint''" "mgStaging demo_mgr = []" "mgTrust demo_mgr = Inr []"
  "mgLocalDesired demo_mgr = None"
  by (simp_all add: demo_mgr_def demo_options_def)

lemma demo_stage:
  "\<exists>sid pv l. run_state (StageModule demo_ihost [] []) ((demo_mgr, demo_rc), []) =
     (Inr pv, ((demo_mgr \<lparr>mgStaging := [(sid, demo_staged sid)]\<rparr>, demo_rc), l))"
proof -
  obtain sid where sid: "newStageID demo_ihost = Inr sid"
    by (simp add: newStageID_def randomToken_def demo_ihost_def)
  have read: "\<exists>l'. run_state (readUploadedManifest demo_ihost sid rp) (mr, l) = (Inr (demo_manifest ''survey''), (mr, l'))" for rp mr l
    by (cases mr) (simp add: readUploadedManifest_def read_staged_def or_fail_def get_mgr_def Let_def demo_parses)
  let ?sd = "path_join [''/data/waypoint'', ''modules'', ''.staging'', sid]"
  obtain l' where "run_state (readUploadedManifest demo_ihost sid (path_join [?sd, ''image.raw'']))
      ((demo_mgr, demo_rc), [IWriteFile (path_join [?sd, ''image.raw'']), IMkdirAll ?sd]) =
      (Inr (demo_manifest ''survey''), ((demo_mgr, demo_rc), l'))" using read by blast
  then have "\<exists>pv. run_state (StageModule demo_ihost [] []) ((demo_mgr, demo_rc), []) =
     (Inr pv, ((demo_mgr \<lparr>mgStaging := [(sid, demo_staged sid)]\<rparr>, demo_rc), l'))"
    by (simp add: StageModule_def sid get_mgr_def or_fail_def upd_mgr_def Let_def demo_staged_def)
  then obtain pv where "run_state (StageModule demo_ihost [] []) ((demo_mgr, demo_rc), []) =
     (Inr pv, ((demo_mgr \<lparr>mgStaging := [(sid, demo_staged sid)]\<rparr>, demo_rc), l'))" ..
  then show ?thesis by (intro exI [of _ sid] exI [of _ pv] exI [of _ l'])
qed

lemma confirm_local:
  "keeps (\<lambda>x. mgLocalDesired (fst x) = L) (save_local ih) (\<lambda>x. mgLocalDesired (fst x) = L)"
  "keeps (\<lambda>x. mgLocalDesired (fst x) = L) (reconcile_now ih) (\<lambda>x. mgLocalDesired (fst x) = L)"
  using install_part_eq [OF reconcileMerged_frame]
  by (auto simp: keeps_def valid_def save_local_def reconcile_now_def write_set_def split: prod.splits)

lemma demo_history:
  "\<exists>mr. installs {''signer@v1''} (demo_mgr, demo_rc) mr \<and> map mdId (modules_of (mgLocalDesired (fst mr))) = [''survey'']"
proof -
  let ?V = "{''signer@v1''}"
  obtain sid pv l where st: "run_state (StageModule demo_ihost [] []) ((demo_mgr, demo_rc), []) =
     (Inr pv, ((demo_mgr \<lparr>mgStaging := [(sid, demo_staged sid)]\<rparr>, demo_rc), l))" using demo_stage by blast
  let ?mr1 = "(demo_mgr \<lparr>mgStaging := [(sid, demo_staged sid)]\<rparr>, demo_rc)"
  have s1: "inst_step ?V (demo_mgr, demo_rc) ?mr1" by (rule inst_step.stage [OF demo_verifies st])
  obtain e mr2 l2 where c: "run_state (ConfirmModule demo_ihost sid '''') (?mr1, []) = (e, (mr2, l2))" by (rule prod_cases3)
  let ?d = "\<lparr>mdId = ''survey'', mdVersion = ''1.0.0'', mdRawUrl = ''file://'' @ rawDestPath ''/data/waypoint'' ''survey'' ''1.0.0'',
     mdRawSha256 = '''', mdConfigToml = ''''\<rparr>"
  let ?L = "Some (upsertModule None ?d)"
  let ?m = "demo_mgr \<lparr>mgStaging := [], mgTrust := Inr [(''survey'', SigningIdentity ''signer@v1'')], mgLocalDesired := ?L\<rparr>"
  let ?k = "try_then (save_local demo_ihost) IeStore (try_then (reconcile_now demo_ihost) IeReconcile (ret None))"
  have "\<exists>ls. run_state (ConfirmModule demo_ihost sid '''') (?mr1, []) = run_state ?k ((?m, demo_rc), ls)"
    by (simp add: ConfirmModule_def get_mgr_def upd_mgr_def pin_signer_def PinSAN_def CheckPinnedSAN_def move_raw_def Let_def
        demo_staged_def map_del_def) blast
  then obtain ls where k: "run_state ?k ((?m, demo_rc), ls) = (e, (mr2, l2))" using c by metis
  have "keeps (\<lambda>x. mgLocalDesired (fst x) = ?L) ?k (\<lambda>x. mgLocalDesired (fst x) = ?L)"
    by (intro keeps_try confirm_local keeps_ret)
  then have "mgLocalDesired (fst (fst (mr2, l2))) = ?L"
    unfolding keeps_def by (rule validD [OF _ _ k]) simp
  then have "map mdId (modules_of (mgLocalDesired (fst mr2))) = [''survey'']"
    by (simp add: upsertModule_def modules_of_def empty_set_def Let_def)
  moreover have "installs ?V (demo_mgr, demo_rc) mr2"
    by (rule installs.step [OF installs.step [OF installs.refl s1] inst_step.confirm [OF c]])
  ultimately show ?thesis by (intro exI [of _ mr2] conjI)
qed


lemma demo_installed:
  obtains mr d where "installs {''signer@v1''} (demo_mgr, demo_rc) mr" "modules_of (mgLocalDesired (fst mr)) = [d]" "mdId d = ''survey''"
proof -
  obtain mr where mr: "installs {''signer@v1''} (demo_mgr, demo_rc) mr" "map mdId (modules_of (mgLocalDesired (fst mr))) = [''survey'']"
    using demo_history by (elim exE conjE) (rule that)
  show thesis
  proof (cases "modules_of (mgLocalDesired (fst mr))")
    case Nil
    then show ?thesis using mr(2) by simp
  next
    case (Cons d ds)
    then have "modules_of (mgLocalDesired (fst mr)) = [d]" "mdId d = ''survey''" using mr(2) by simp_all
    then show ?thesis by (rule that [OF mr(1)])
  qed
qed




text \<open>
  The module list shows exactly the modules that are reconciled, in the same order and at the same
  versions, and marks as local exactly those of the local set.
\<close>

theorem list_agrees_with_reconcile:
  "map (\<lambda>s. (msID s, msVersion s)) (ListModules m) =
     map (\<lambda>d. (mdId d, mdVersion d)) (dsModules (mergeDesired now (mgProxyDesired m) (mgLocalDesired m))) \<and>
   (\<forall>s \<in> set (ListModules m). (msOrigin s = ''local'') = isLocalID m (msID s))"
proof
  show "map (\<lambda>s. (msID s, msVersion s)) (ListModules m) =
     map (\<lambda>d. (mdId d, mdVersion d)) (dsModules (mergeDesired now (mgProxyDesired m) (mgLocalDesired m)))"
    by (auto simp: ListModules_def mergeDesired_def Let_def comp_def intro!: filter_cong)
  show "\<forall>s \<in> set (ListModules m). (msOrigin s = ''local'') = isLocalID m (msID s)"
    by (auto simp: ListModules_def isLocalID_def containsModule_def list_ex_iff) (metis image_eqI)
qed

lemma ParseManifest_version:
  assumes "ParseManifest decode data = Inr m" "decode data = Inr raw"
  shows "mVersion m = rVersion raw"
  by (rule ParseManifest_shape [OF assms(1)]) (use assms(2) in \<open>simp add: manifest_of_raw_def\<close>)

text \<open>
  A manifest may carry the version \<^verbatim>\<open>..\<close>; uninstalling such a module removes the directory that holds
  the images of all modules.
\<close>

theorem uninstall_removes_all_images:
  "(\<exists>mf. ParseManifest (\<lambda>_. Inr (demo_raw ''survey'' \<lparr>rVersion := ''..''\<rparr>)) '''' = Inr mf \<and> mVersion mf = ''..'') \<and>
   (\<exists>mr. run_state (UninstallModule demo_ihost ''survey'')
      ((demo_mgr \<lparr>mgLocalDesired := Some \<lparr>dsT = None, dsModules = [demo_module ''survey'' ''..'']\<rparr>\<rparr>, demo_rc), []) =
      (None, (mr, [IRemoveAll ''/data/waypoint/modules''])))"
proof
  let ?raw = "demo_raw ''survey'' \<lparr>rVersion := ''..''\<rparr>"
  have "raw_ok ?raw" using demo_raw_ok by (simp add: raw_ok_def demo_raw_def)
  then obtain mf where mf: "ParseManifest (\<lambda>_. Inr ?raw) '''' = Inr mf"
    using accepts_iff_raw_ok [of "\<lambda>_. Inr ?raw" "''''" ?raw] by auto
  have "mVersion mf = ''..''" using ParseManifest_version [OF mf] by simp
  then show "\<exists>mf. ParseManifest (\<lambda>_. Inr ?raw) '''' = Inr mf \<and> mVersion mf = ''..''" using mf by (intro exI [of _ mf] conjI)
  let ?m = "demo_mgr \<lparr>mgLocalDesired := Some \<lparr>dsT = None, dsModules = [demo_module ''survey'' ''..'']\<rparr>\<rparr>"
  have path: "path_dir (rawDestPath ''/data/waypoint'' ''survey'' ''..'') = ''/data/waypoint/modules''"
    by code_simp
  have local: "containsModule (mgLocalDesired ?m) ''survey''" "first_version (mgLocalDesired ?m) ''survey'' = ''..''"
    "removeModule (mgLocalDesired ?m) ''survey'' = \<lparr>dsT = None, dsModules = []\<rparr>"
    by (simp_all add: containsModule_def first_version_def removeModule_def modules_of_def demo_module_def)
  let ?m1 = "?m \<lparr>mgLocalDesired := Some \<lparr>dsT = None, dsModules = []\<rparr>\<rparr>"
  have save: "\<exists>m2. run_state (save_local demo_ihost) ((?m1, demo_rc), []) = (None, ((m2, demo_rc), [])) \<and>
      mgProxyDesired m2 = None \<and> mgLocalDesired m2 = Some \<lparr>dsT = None, dsModules = []\<rparr>"
    by (simp add: save_local_def write_set_def WriteDesiredCache_def Let_def) (simp add: demo_mgr_def)
  then obtain m2 where m2: "run_state (save_local demo_ihost) ((?m1, demo_rc), []) = (None, ((m2, demo_rc), []))"
    "mgProxyDesired m2 = None" "mgLocalDesired m2 = Some \<lparr>dsT = None, dsModules = []\<rparr>" by blast
  have cur: "rcCurrent demo_rc = []" by (simp add: demo_rc_def run_reconciler_def)
  have rng: "enRangeCurrent (manager_env (ihHost demo_ihost) m2) = id" "enRangeWant (manager_env (ihHost demo_ihost) m2) = rev"
    by (simp_all add: manager_env_def demo_ihost_def demo_host_def demo_env_def)
  have rec: "run_state (reconcile_now demo_ihost) ((m2, demo_rc), []) = (None, ((m2, demo_rc), []))"
    by (simp add: reconcile_now_def reconcileMerged_def Let_def m2 mergeDesired_def modules_of_def Reconcile_def want_map_def cur rng)
  show "\<exists>mr. run_state (UninstallModule demo_ihost ''survey'') ((?m, demo_rc), []) = (None, (mr, [IRemoveAll ''/data/waypoint/modules'']))"
    by (rule exI [of _ "(m2, demo_rc)"])
      (simp add: UninstallModule_def get_mgr_def upd_mgr_def Let_def local [simplified] m2 [simplified] rec path)
qed

end
