(* ===== verification/NetText.thy ===== *)
theory NetText
  imports Prelude
begin

unbundle bit_operations_syntax

text \<open>
  Functions of Go's standard library that the gateways rely on: \<^verbatim>\<open>base64.RawURLEncoding\<close>,
  \<^verbatim>\<open>strings.Cut\<close> and \<^verbatim>\<open>strings.Trim\<close>, \<^verbatim>\<open>net.SplitHostPort\<close>, \<^verbatim>\<open>net.ParseIP\<close> and the address classes of
  \<^verbatim>\<open>net.IP\<close>. An address is a slice of sixteen bytes, an IPv4 address in its mapped form, as
  \<^verbatim>\<open>ParseIP\<close> returns it.
\<close>

section \<open>Base 64\<close>

definition b64_url :: string where
  "b64_url = ''ABCDEFGHIJKLMNOPQRSTUVWXYZabcdefghijklmnopqrstuvwxyz0123456789-_''"

definition b64_std :: string where
  "b64_std = ''ABCDEFGHIJKLMNOPQRSTUVWXYZabcdefghijklmnopqrstuvwxyz0123456789+/''"

fun index_of :: "'a \<Rightarrow> 'a list \<Rightarrow> nat option" where
  "index_of x [] = None"
| "index_of x (y # ys) = (if x = y then Some 0 else map_option Suc (index_of x ys))"

fun b64_sextets :: "nat list \<Rightarrow> nat list" where
  "b64_sextets [] = []"
| "b64_sextets [a] = [a div 4, (a mod 4) * 16]"
| "b64_sextets [a, b] = [a div 4, (a mod 4) * 16 + b div 16, (b mod 16) * 4]"
| "b64_sextets (a # b # c # r) =
     a div 4 # ((a mod 4) * 16 + b div 16) # ((b mod 16) * 4 + c div 64) # (c mod 64) # b64_sextets r"

definition b64_raw :: "string \<Rightarrow> bytes \<Rightarrow> string" where
  "b64_raw al bs = map (\<lambda>v. al ! v) (b64_sextets (map unat bs))"

text \<open>\<^verbatim>\<open>RawURLEncoding\<close>, without padding, and \<^verbatim>\<open>StdEncoding\<close>, padded to a multiple of four.\<close>

definition b64_encode :: "bytes \<Rightarrow> string" where
  "b64_encode bs = b64_raw b64_url bs"

definition b64_pad :: "bytes \<Rightarrow> nat" where
  "b64_pad bs = (if length bs mod 3 = 1 then 2 else if length bs mod 3 = 2 then 1 else 0)"

definition b64_encode_std :: "bytes \<Rightarrow> string" where
  "b64_encode_std bs = b64_raw b64_std bs @ replicate (b64_pad bs) (CHR ''='')"

text \<open>A single left-over character is an error; left-over bits are not looked at.\<close>

fun b64_octets :: "nat list \<Rightarrow> nat list option" where
  "b64_octets [] = Some []"
| "b64_octets [x] = None"
| "b64_octets [x, y] = Some [x * 4 + y div 16]"
| "b64_octets [x, y, z] = Some [x * 4 + y div 16, (y mod 16) * 16 + z div 4]"
| "b64_octets (x # y # z # w # r) =
     map_option (\<lambda>os. (x * 4 + y div 16) # ((y mod 16) * 16 + z div 4) # ((z mod 4) * 64 + w) # os) (b64_octets r)"

definition no_newlines :: "string \<Rightarrow> string" where
  "no_newlines s = filter (\<lambda>c. c \<noteq> CHR 0x0A \<and> c \<noteq> CHR 0x0D) s"

definition b64_unraw :: "string \<Rightarrow> string \<Rightarrow> bytes option" where
  "b64_unraw al s =
     (case those (map (\<lambda>c. index_of c al) s) of
        None \<Rightarrow> None
      | Some vs \<Rightarrow> map_option (map of_nat) (b64_octets vs))"

definition b64_decode :: "string \<Rightarrow> bytes option" where
  "b64_decode s = b64_unraw b64_url (no_newlines s)"

definition b64_decode_std :: "string \<Rightarrow> bytes option" where
  "b64_decode_std s =
     (let t = no_newlines s;
          k = length (takeWhile (\<lambda>c. c = CHR ''='') (rev t)) in
      if length t mod 4 \<noteq> 0 \<or> k > 2 then None else b64_unraw b64_std (take (length t - k) t))"


section \<open>Cutting strings\<close>

text \<open>\<^verbatim>\<open>strings.Cut\<close>: the text before and after the first occurrence of a separator.\<close>

fun cut :: "string \<Rightarrow> string \<Rightarrow> (string \<times> string) option" where
  "cut [] sep = (if sep = [] then Some ([], []) else None)"
| "cut (c # s) sep =
     (if has_prefix (c # s) sep then Some ([], drop (length sep) (c # s))
      else map_option (\<lambda>(a, b). (c # a, b)) (cut s sep))"

definition trim_suffix :: "string \<Rightarrow> string \<Rightarrow> string" where
  "trim_suffix s suf = (if has_prefix (rev s) (rev suf) then take (length s - length suf) s else s)"

definition trim_set :: "string \<Rightarrow> string \<Rightarrow> string" where
  "trim_set s cs = rev (dropWhile (\<lambda>c. c \<in> set cs) (rev (dropWhile (\<lambda>c. c \<in> set cs) s)))"

definition in_range :: "char \<Rightarrow> char \<Rightarrow> char \<Rightarrow> bool" where
  "in_range lo hi c \<longleftrightarrow> (of_char lo :: nat) \<le> of_char c \<and> (of_char c :: nat) \<le> of_char hi"

definition to_lower_char :: "char \<Rightarrow> char" where
  "to_lower_char c = (if in_range CHR ''A'' CHR ''Z'' c then char_of (of_char c + (32 :: nat)) else c)"

definition to_lower :: "string \<Rightarrow> string" where
  "to_lower s = map to_lower_char s"


section \<open>Numbers\<close>

fun decimal :: "nat \<Rightarrow> string \<Rightarrow> nat option" where
  "decimal n [] = Some n"
| "decimal n (c # cs) = (if is_digit_char c then decimal (10 * n + (of_char c - 48)) cs else None)"

text \<open>\<^verbatim>\<open>strconv.Atoi\<close>: an optional sign and decimal digits within 64 bits.\<close>

definition Atoi :: "string \<Rightarrow> int option" where
  "Atoi s =
     (let (neg, ds) = (case s of
             c # cs \<Rightarrow> if c = CHR ''-'' then (True, cs) else if c = CHR ''+'' then (False, cs) else (False, s)
           | [] \<Rightarrow> (False, []))
      in if ds = [] then None
         else case decimal 0 ds of
           None \<Rightarrow> None
         | Some n \<Rightarrow>
             let v = (if neg then - int n else int n) in
             if - (2 ^ 63) \<le> v \<and> v < 2 ^ 63 then Some v else None)"


text \<open>\<^verbatim>\<open>%d\<close>: the decimal digits of a number.\<close>

fun print_nat :: "nat \<Rightarrow> string" where
  "print_nat n = (if n < 10 then [char_of (48 + n)] else print_nat (n div 10) @ [char_of (48 + n mod 10)])"

declare print_nat.simps [simp del]

definition print_int :: "int \<Rightarrow> string" where
  "print_int i = (if i < 0 then CHR ''-'' # print_nat (nat (- i)) else print_nat (nat i))"


section \<open>Hosts and addresses\<close>

text \<open>The text before and after the last colon.\<close>

definition cut_last :: "char \<Rightarrow> string \<Rightarrow> (string \<times> string) option" where
  "cut_last c s =
     (if c \<notin> set s then None
      else Some (rev (tl (dropWhile (\<lambda>x. x \<noteq> c) (rev s))), rev (takeWhile (\<lambda>x. x \<noteq> c) (rev s))))"

definition SplitHostPort :: "string \<Rightarrow> (string \<times> string) option" where
  "SplitHostPort s =
     (case cut_last CHR '':'' s of
        None \<Rightarrow> None
      | Some (h, port) \<Rightarrow>
          if has_prefix s ''['' then
            (if CHR '']'' \<notin> set s then None
             else let inner = takeWhile (\<lambda>c. c \<noteq> CHR '']'') (tl s);
                      rest = drop (length inner + 2) s in
               if rest \<noteq> [] \<and> rest = CHR '':'' # port \<and> CHR ''['' \<notin> set inner \<and> CHR ''['' \<notin> set port \<and> CHR '']'' \<notin> set port
               then Some (inner, port) else None)
          else if CHR '':'' \<in> set h \<or> CHR ''['' \<in> set s \<or> CHR '']'' \<in> set s then None
          else Some (h, port))"

text \<open>Decimal fields of an IPv4 address: up to three digits, no leading zero, at most 255.\<close>

definition v4_field :: "string \<Rightarrow> nat option" where
  "v4_field s =
     (if s = [] \<or> length s > 3 \<or> (length s > 1 \<and> hd s = CHR ''0'') then None
      else case decimal 0 s of None \<Rightarrow> None | Some n \<Rightarrow> if n \<le> 255 then Some n else None)"

definition parse_v4 :: "string \<Rightarrow> nat list option" where
  "parse_v4 s =
     (case those (map v4_field (split_at_char CHR ''.'' s)) of
        None \<Rightarrow> None
      | Some fs \<Rightarrow> if length fs = 4 then Some fs else None)"

text \<open>Groups of an IPv6 address: up to four hexadecimal digits; the last may be an IPv4 address.\<close>

definition hex_value :: "char \<Rightarrow> nat option" where
  "hex_value c =
     (if is_digit_char c then Some (of_char c - 48)
      else if in_range CHR ''a'' CHR ''f'' c then Some (of_char c - 87)
      else if in_range CHR ''A'' CHR ''F'' c then Some (of_char c - 55) else None)"

definition v6_group :: "string \<Rightarrow> nat option" where
  "v6_group s =
     (if s = [] \<or> length s > 4 then None
      else map_option (foldl (\<lambda>n d. 16 * n + d) 0) (those (map hex_value s)))"

fun v6_groups :: "string list \<Rightarrow> nat list option" where
  "v6_groups [] = Some []"
| "v6_groups [g] =
     (if CHR ''.'' \<in> set g
      then map_option (\<lambda>fs. [fs ! 0 * 256 + fs ! 1, fs ! 2 * 256 + fs ! 3]) (parse_v4 g)
      else map_option (\<lambda>n. [n]) (v6_group g))"
| "v6_groups (g # gs) =
     (case v6_group g of None \<Rightarrow> None | Some n \<Rightarrow> map_option (\<lambda>ns. n # ns) (v6_groups gs))"

definition v6_side :: "string \<Rightarrow> nat list option" where
  "v6_side s = (if s = [] then Some [] else v6_groups (split_at_char CHR '':'' s))"

definition parse_v6 :: "string \<Rightarrow> nat list option" where
  "parse_v6 s =
     (case cut s ''::'' of
        None \<Rightarrow> (case v6_groups (split_at_char CHR '':'' s) of
            None \<Rightarrow> None | Some gs \<Rightarrow> if length gs = 8 then Some gs else None)
      | Some (l, r) \<Rightarrow>
          if CHR ''.'' \<in> set l then None
          else (case (v6_side l, v6_side r) of
              (Some ls, Some rs) \<Rightarrow>
                if length ls + length rs < 8 then Some (ls @ replicate (8 - (length ls + length rs)) 0 @ rs) else None
            | _ \<Rightarrow> None))"

definition v4_mapped :: "nat list \<Rightarrow> bytes" where
  "v4_mapped fs = replicate 10 0 @ [255, 255] @ map of_nat fs"

definition v6_bytes :: "nat list \<Rightarrow> bytes" where
  "v6_bytes gs = concat (map (\<lambda>g. [of_nat (g div 256), of_nat (g mod 256)]) gs)"

definition ParseIP :: "string \<Rightarrow> bytes option" where
  "ParseIP s =
     (if CHR '':'' \<in> set s then map_option v6_bytes (parse_v6 s) else map_option v4_mapped (parse_v4 s))"

definition To4 :: "bytes \<Rightarrow> bytes option" where
  "To4 ip =
     (if length ip = 4 then Some ip
      else if length ip = 16 \<and> take 10 ip = replicate 10 0 \<and> ip ! 10 = 255 \<and> ip ! 11 = 255 then Some (drop 12 ip)
      else None)"

definition IsLoopback :: "bytes \<Rightarrow> bool" where
  "IsLoopback ip =
     (case To4 ip of Some v4 \<Rightarrow> v4 ! 0 = 127 | None \<Rightarrow> ip = replicate 15 0 @ [1])"

definition IsPrivate :: "bytes \<Rightarrow> bool" where
  "IsPrivate ip =
     (case To4 ip of
        Some v4 \<Rightarrow> v4 ! 0 = 10 \<or> (v4 ! 0 = 172 \<and> (v4 ! 1 AND 240) = 16) \<or> (v4 ! 0 = 192 \<and> v4 ! 1 = 168)
      | None \<Rightarrow> length ip = 16 \<and> (ip ! 0 AND 254) = 252)"

definition IsLinkLocalUnicast :: "bytes \<Rightarrow> bool" where
  "IsLinkLocalUnicast ip =
     (case To4 ip of
        Some v4 \<Rightarrow> v4 ! 0 = 169 \<and> v4 ! 1 = 254
      | None \<Rightarrow> length ip = 16 \<and> ip ! 0 = 254 \<and> (ip ! 1 AND 192) = 128)"


section \<open>Lemmas\<close>

lemma index_of_nth: "distinct xs \<Longrightarrow> i < length xs \<Longrightarrow> index_of (xs ! i) xs = Some i"
proof (induction xs arbitrary: i)
  case (Cons x xs)
  then show ?case by (cases i) auto
qed simp

lemma b64_sextets_bound: "\<forall>x \<in> set os. x < 256 \<Longrightarrow> v \<in> set (b64_sextets os) \<Longrightarrow> v < 64"
  by (induction os rule: b64_sextets.induct) (auto simp: algebra_simps)

lemma b64_octets_sextets: "\<forall>x \<in> set os. x < 256 \<Longrightarrow> b64_octets (b64_sextets os) = Some os"
  by (induction os rule: b64_sextets.induct) auto

lemma those_map_Some: "(\<And>x. x \<in> set xs \<Longrightarrow> f x = Some (g x)) \<Longrightarrow> those (map f xs) = Some (map g xs)"
  by (induction xs) auto

lemma b64_alphabets: "distinct b64_url" "length b64_url = 64" "distinct b64_std" "length b64_std = 64"
  "CHR ''.'' \<notin> set b64_url" "CHR 0x0A \<notin> set b64_url" "CHR 0x0D \<notin> set b64_url" "CHR ''='' \<notin> set b64_std"
  "CHR 0x0A \<notin> set b64_std" "CHR 0x0D \<notin> set b64_std"
  by code_simp+

lemma unat_byte: "unat (b :: 8 word) < 256"
  using unsigned_less [of b] by simp

lemma set_b64_raw: "length al = 64 \<Longrightarrow> set (b64_raw al bs) \<subseteq> set al"
proof -
  assume al: "length al = 64"
  have "v < 64" if "v \<in> set (b64_sextets (map unat bs))" for v
    using b64_sextets_bound [OF _ that] unat_byte by auto
  then show ?thesis by (auto simp: b64_raw_def al)
qed

lemma b64_unraw_raw:
  assumes "distinct al" "length al = 64"
  shows "b64_unraw al (b64_raw al bs) = Some bs"
proof -
  let ?os = "map unat bs"
  have os: "\<forall>x \<in> set ?os. x < 256" using unat_byte by auto
  have "those (map (\<lambda>c. index_of c al) (map (\<lambda>v. al ! v) (b64_sextets ?os))) = Some (b64_sextets ?os)"
    unfolding map_map using b64_sextets_bound [OF os] assms
    by (subst those_map_Some [where g = id]) (auto simp: index_of_nth)
  then show ?thesis
    using b64_octets_sextets [OF os] by (simp add: b64_unraw_def b64_raw_def comp_def)
qed

lemma no_newlines_id: "CHR 0x0A \<notin> set s \<Longrightarrow> CHR 0x0D \<notin> set s \<Longrightarrow> no_newlines s = s"
  unfolding no_newlines_def by (rule filter_True) auto

lemma b64_roundtrip: "b64_decode (b64_encode bs) = Some bs"
proof -
  have "no_newlines (b64_encode bs) = b64_encode bs"
    using set_b64_raw [of b64_url bs] b64_alphabets by (intro no_newlines_id) (auto simp: b64_encode_def)
  then show ?thesis by (simp add: b64_decode_def b64_encode_def b64_unraw_raw b64_alphabets)
qed

lemma b64_no_dot: "CHR ''.'' \<notin> set (b64_encode bs)"
  using set_b64_raw [of b64_url bs] b64_alphabets by (auto simp: b64_encode_def)


section \<open>Printed numbers\<close>

lemma digit_char: "d < 10 \<Longrightarrow> is_digit_char (char_of (48 + d)) \<and> (of_char (char_of (48 + d) :: char) :: nat) = 48 + d"
  by (simp add: is_digit_char_def)

lemma decimal_append: "decimal n (xs @ ys) = (case decimal n xs of None \<Rightarrow> None | Some m \<Rightarrow> decimal m ys)"
  by (induction xs arbitrary: n) auto

lemma decimal_print: "decimal 0 (print_nat n) = Some n"
proof (induction n rule: print_nat.induct)
  case (1 n)
  show ?case
  proof (cases "n < 10")
    case True
    with digit_char [of n] show ?thesis by (simp add: print_nat.simps [of n])
  next
    case False
    with 1 digit_char [of "n mod 10"] show ?thesis
      by (simp add: print_nat.simps [of n] decimal_append)
  qed
qed

lemma print_nat_inj: "print_nat m = print_nat n \<Longrightarrow> m = n"
  by (metis decimal_print option.inject)

end
