(* ===== verification/Sql.thy ===== *)
theory Sql
  imports Prelude
begin

text \<open>
  Statements on a database table. A table is an association list keyed by its primary key; what the
  database answers to a statement is an argument, and a failing statement changes nothing.
\<close>

datatype sql_error = SqlError string | ErrNoRows

text \<open>The database's answers to one statement: to its execution and to the count of rows.\<close>

record sql_answer =
  sqExec :: "string option"
  sqRows :: "string option"

definition nullableString :: "string \<Rightarrow> string option" where
  "nullableString s = (if s = '''' then None else Some s)"

text \<open>An UPDATE of the row with the given id, and what the callers make of the number of rows.\<close>

definition update_row ::
  "sql_answer \<Rightarrow> string \<Rightarrow> ('r \<Rightarrow> 'r) \<Rightarrow> (string \<times> 'r) list \<Rightarrow> sql_error option \<times> (string \<times> 'r) list" where
  "update_row an i f db =
     (case sqExec an of
        Some e \<Rightarrow> (Some (SqlError e), db)
      | None \<Rightarrow>
          (case map_of db i of
             None \<Rightarrow> (Some (case sqRows an of Some e \<Rightarrow> SqlError e | None \<Rightarrow> ErrNoRows), db)
           | Some r \<Rightarrow> (map_option SqlError (sqRows an), map_set i (f r) db)))"

lemma update_row_failed: "sqExec an \<noteq> None \<Longrightarrow> snd (update_row an i f db) = db"
  by (auto simp: update_row_def)

lemma update_row_wf: "wf_map db \<Longrightarrow> wf_map (snd (update_row an i f db))"
  by (auto simp: update_row_def split: option.splits)

abbreviation answered :: sql_answer where
  "answered \<equiv> \<lparr>sqExec = None, sqRows = None\<rparr>"

end
