(* ===== verification/Access.thy ===== *)
theory Access
  imports Sql
begin

text \<open>
  Who may do what at the proxy: the table of roles per user and rover (\<^verbatim>\<open>proxy/internal/db/access.go\<close>)
  and the signed-in user that \<^verbatim>\<open>authkit\<close> attaches to a request.
\<close>

type_synonym 'u access_table = "(('u \<times> string) \<times> string) list"

definition Grant :: "string option \<Rightarrow> 'u \<Rightarrow> string \<Rightarrow> string \<Rightarrow> 'u access_table \<Rightarrow> sql_error option \<times> 'u access_table" where
  "Grant e userID roverID role tab =
     (case e of
        Some m \<Rightarrow> (Some (SqlError m), tab)
      | None \<Rightarrow> (None, map_set (userID, roverID) role tab))"

definition Revoke :: "string option \<Rightarrow> 'u \<Rightarrow> string \<Rightarrow> 'u access_table \<Rightarrow> sql_error option \<times> 'u access_table" where
  "Revoke e userID roverID tab =
     (case e of Some m \<Rightarrow> (Some (SqlError m), tab) | None \<Rightarrow> (None, map_del (userID, roverID) tab))"

definition RoleFor :: "string option \<Rightarrow> 'u \<Rightarrow> string \<Rightarrow> 'u access_table \<Rightarrow> sql_error + string" where
  "RoleFor e userID roverID tab =
     (case e of Some m \<Rightarrow> Inl (SqlError m) | None \<Rightarrow> Inr (or_empty (map_of tab (userID, roverID))))"

definition EffectiveRole :: "string option \<Rightarrow> 'u \<Rightarrow> string \<Rightarrow> bool \<Rightarrow> 'u access_table \<Rightarrow> sql_error + string" where
  "EffectiveRole e userID roverID isAdmin tab =
     (if isAdmin then Inr ''admin'' else RoleFor e userID roverID tab)"

record 'u current_user =
  cuID :: 'u
  cuEmail :: string
  cuIsAdmin :: bool

end
