(* ===== verification/Wire.thy ===== *)
theory Wire
  imports Prelude
begin

text \<open>
  A small self-delimiting byte format. The generated protobuf code and the other encoders of the
  program are arguments of the components; this theory gives concrete encoders and decoders that
  read back what they wrote, with which the components instantiate those arguments.
\<close>

type_synonym 'a writer = "'a \<Rightarrow> bytes"
type_synonym 'a reader = "bytes \<Rightarrow> 'a \<times> bytes"

definition wire_ok :: "'a writer \<Rightarrow> 'a reader \<Rightarrow> bool" where
  "wire_ok w r \<longleftrightarrow> (\<forall>x rest. r (w x @ rest) = (x, rest))"

definition w_nat :: "nat writer" where
  "w_nat n = replicate n 1 @ [0]"

fun r_nat :: "nat reader" where
  "r_nat [] = (0, [])"
| "r_nat (b # bs) = (if b = 0 then (0, bs) else case r_nat bs of (n, rest) \<Rightarrow> (Suc n, rest))"

lemma wire_nat [simp]: "wire_ok w_nat r_nat"
proof -
  have "r_nat ((replicate n 1 @ [0]) @ rest) = (n, rest)" for n rest by (induction n) simp_all
  then show ?thesis by (simp add: wire_ok_def w_nat_def)
qed

definition w_map :: "('b \<Rightarrow> 'a) \<Rightarrow> 'a writer \<Rightarrow> 'b writer" where
  "w_map f w x = w (f x)"

definition r_map :: "('a \<Rightarrow> 'b) \<Rightarrow> 'a reader \<Rightarrow> 'b reader" where
  "r_map g r bs = (case r bs of (x, rest) \<Rightarrow> (g x, rest))"

lemma wire_map [intro]: "wire_ok w r \<Longrightarrow> (\<And>x. g (f x) = x) \<Longrightarrow> wire_ok (w_map f w) (r_map g r)"
  by (simp add: wire_ok_def w_map_def r_map_def)

definition w_pair :: "'a writer \<Rightarrow> 'b writer \<Rightarrow> ('a \<times> 'b) writer" where
  "w_pair wa wb p = wa (fst p) @ wb (snd p)"

definition r_pair :: "'a reader \<Rightarrow> 'b reader \<Rightarrow> ('a \<times> 'b) reader" where
  "r_pair ra rb bs = (case ra bs of (a, bs1) \<Rightarrow> case rb bs1 of (b, bs2) \<Rightarrow> ((a, b), bs2))"

lemma wire_pair [simp, intro]: "wire_ok wa ra \<Longrightarrow> wire_ok wb rb \<Longrightarrow> wire_ok (w_pair wa wb) (r_pair ra rb)"
  by (simp add: wire_ok_def w_pair_def r_pair_def)

fun r_many :: "nat \<Rightarrow> 'a reader \<Rightarrow> 'a list reader" where
  "r_many 0 r bs = ([], bs)"
| "r_many (Suc n) r bs = (case r bs of (x, bs1) \<Rightarrow> case r_many n r bs1 of (xs, bs2) \<Rightarrow> (x # xs, bs2))"

definition w_list :: "'a writer \<Rightarrow> 'a list writer" where
  "w_list w xs = w_nat (length xs) @ concat (map w xs)"

definition r_list :: "'a reader \<Rightarrow> 'a list reader" where
  "r_list r bs = (case r_nat bs of (n, rest) \<Rightarrow> r_many n r rest)"

lemma wire_list [simp, intro]: "wire_ok w r \<Longrightarrow> wire_ok (w_list w) (r_list r)"
proof -
  assume ok: "wire_ok w r"
  have "r_many (length xs) r (concat (map w xs) @ rest) = (xs, rest)" for xs rest
    using ok by (induction xs) (simp_all add: wire_ok_def)
  moreover have "r_nat (w_nat n @ rest) = (n, rest)" for n rest
    using wire_nat unfolding wire_ok_def by blast
  ultimately show ?thesis by (simp add: wire_ok_def w_list_def r_list_def)
qed

definition w_int :: "int writer" where
  "w_int = w_map (\<lambda>i. if i \<ge> 0 then 2 * nat i else 2 * nat (- i) + 1) w_nat"

definition r_int :: "int reader" where
  "r_int = r_map (\<lambda>n. if even n then int (n div 2) else - int (n div 2)) r_nat"

lemma wire_int [simp]: "wire_ok w_int r_int"
  unfolding w_int_def r_int_def by (rule wire_map) simp_all

definition w_bool :: "bool writer" where
  "w_bool = w_map (\<lambda>b. if b then 1 else 0) w_nat"

definition r_bool :: "bool reader" where
  "r_bool = r_map (\<lambda>n. n \<noteq> 0) r_nat"

lemma wire_bool [simp]: "wire_ok w_bool r_bool"
  unfolding w_bool_def r_bool_def by (rule wire_map) simp_all

definition w_string :: "string writer" where
  "w_string = w_list (w_map of_char w_nat)"

definition r_string :: "string reader" where
  "r_string = r_list (r_map char_of r_nat)"

lemma wire_string [simp]: "wire_ok w_string r_string"
  unfolding w_string_def r_string_def by (intro wire_list wire_map) simp_all

definition w_option :: "'a writer \<Rightarrow> 'a option writer" where
  "w_option w = w_map (\<lambda>x. case x of None \<Rightarrow> [] | Some a \<Rightarrow> [a]) (w_list w)"

definition r_option :: "'a reader \<Rightarrow> 'a option reader" where
  "r_option r = r_map (\<lambda>xs. case xs of [] \<Rightarrow> None | a # _ \<Rightarrow> Some a) (r_list r)"

lemma wire_option [simp, intro]: "wire_ok w r \<Longrightarrow> wire_ok (w_option w) (r_option r)"
  unfolding w_option_def r_option_def by (intro wire_map wire_list) (auto split: option.splits)

text \<open>A reader used on a whole message.\<close>

definition decode_with :: "'a reader \<Rightarrow> bytes \<Rightarrow> 'a option" where
  "decode_with r bs = (case r bs of (x, rest) \<Rightarrow> if rest = [] then Some x else None)"

lemma decode_with_ok: "wire_ok w r \<Longrightarrow> decode_with r (w x) = Some x"
proof -
  assume "wire_ok w r"
  then have "r (w x @ []) = (x, [])" unfolding wire_ok_def by blast
  then show ?thesis by (simp add: decode_with_def)
qed

end
