(* ===== verification/MagicLink.thy ===== *)
theory MagicLink
  imports NetText Access Wire
begin

text \<open>
  Magic links: the proxy signs a short-lived token for a user and a rover
  (\<^verbatim>\<open>proxy/internal/magiclink/sign.go\<close>, \<^verbatim>\<open>proxy/internal/api/magiclink.go\<close>) and the agent checks it at
  login (\<^verbatim>\<open>agent/internal/magiclink/verify.go\<close>). The JSON codec of the claims and the nkeys signature
  scheme are arguments; the token text, with its base 64 parts, is modelled.
\<close>

record claims =
  clSub :: string
  clEmail :: string
  clRoverID :: string
  clRole :: string
  clIssuedAt :: int
  clExpiresAt :: int
  clNonce :: string

text \<open>\<open>mlSign\<close> signs with the operator key, \<open>mlKey\<close> parses a public key, \<open>mlCheck\<close> verifies.\<close>

record link_env =
  mlMarshal :: "claims \<Rightarrow> bytes option"
  mlUnmarshal :: "bytes \<Rightarrow> claims option"
  mlSign :: "bytes \<Rightarrow> bytes option"
  mlKey :: "string \<Rightarrow> bool"
  mlCheck :: "string \<Rightarrow> bytes \<Rightarrow> bytes \<Rightarrow> bool"

datatype link_error =
  LinkMarshal | LinkSign | LinkMalformed | LinkBody | LinkSig | LinkKey | LinkSignature | LinkJSON | LinkExpired

definition Mint :: "link_env \<Rightarrow> bytes \<Rightarrow> time \<Rightarrow> claims \<Rightarrow> link_error + string" where
  "Mint ml nonceBuf now c =
     (let c1 = c \<lparr>clNonce := b64_encode nonceBuf, clIssuedAt := unix now\<rparr> in
      case mlMarshal ml c1 of
        None \<Rightarrow> Inl LinkMarshal
      | Some body \<Rightarrow>
          (case mlSign ml body of
             None \<Rightarrow> Inl LinkSign
           | Some sig \<Rightarrow> Inr (b64_encode body @ ''.'' @ b64_encode sig)))"

text \<open>\<^verbatim>\<open>strings.SplitN(token, ".", 2)\<close> has two parts exactly when there is a dot.\<close>

definition Verify :: "link_env \<Rightarrow> time \<Rightarrow> string \<Rightarrow> string \<Rightarrow> link_error + claims" where
  "Verify ml now operatorPub token =
     (case cut token ''.'' of
        None \<Rightarrow> Inl LinkMalformed
      | Some (p0, p1) \<Rightarrow>
     (case b64_decode p0 of
        None \<Rightarrow> Inl LinkBody
      | Some body \<Rightarrow>
     (case b64_decode p1 of
        None \<Rightarrow> Inl LinkSig
      | Some sig \<Rightarrow>
          if \<not> mlKey ml operatorPub then Inl LinkKey
          else if \<not> mlCheck ml operatorPub body sig then Inl LinkSignature
          else (case mlUnmarshal ml body of
              None \<Rightarrow> Inl LinkJSON
            | Some c \<Rightarrow> if unix now > clExpiresAt c then Inl LinkExpired else Inr c))))"

text \<open>
  \<^verbatim>\<open>POST /api/rovers/{id}/magic-link\<close>: the status and, on success, the token. \<open>localURL\<close> is None for a
  body that does not decode; whether the URL parses is an argument.
\<close>

definition newMagicLinkHandler ::
  "link_env \<Rightarrow> ('u \<Rightarrow> string) \<Rightarrow> bytes \<Rightarrow> time \<Rightarrow> string option \<Rightarrow> (string \<Rightarrow> bool) \<Rightarrow> (string \<Rightarrow> bool) \<Rightarrow> 'u access_table
    \<Rightarrow> 'u current_user \<Rightarrow> string \<Rightarrow> string option \<Rightarrow> nat \<times> string option" where
  "newMagicLinkHandler ml show_id nonceBuf now eRole roverExists urlParses tab u roverID localURL =
     (if localURL = None \<or> localURL = Some '''' then (400, None)
      else case EffectiveRole eRole (cuID u) roverID (cuIsAdmin u) tab of
        Inl e \<Rightarrow> (500, None)
      | Inr eff \<Rightarrow>
          if eff = '''' then (403, None)
          else if \<not> roverExists roverID then (404, None)
          else (case Mint ml nonceBuf now
                   \<lparr>clSub = show_id (cuID u), clEmail = cuEmail u, clRoverID = roverID, clRole = eff, clIssuedAt = 0,
                    clExpiresAt = unix (now + 5 * 60 * 1000000000), clNonce = ''''\<rparr> of
              Inl e \<Rightarrow> (500, None)
            | Inr tok \<Rightarrow> if \<not> urlParses (the localURL) then (400, None) else (200, Some tok)))"


section \<open>Minting and verifying\<close>

lemma cut_char: "c \<notin> set a \<Longrightarrow> cut (a @ c # b) [c] = Some (a, b)"
  by (induction a) (auto simp: has_prefix_def)

lemma cut_char_Some: "cut s [c] = Some (a, b) \<Longrightarrow> s = a @ c # b \<and> c \<notin> set a"
proof (induction s arbitrary: a)
  case (Cons x s)
  then show ?case by (cases "x = c") (auto simp: has_prefix_def)
qed simp

text \<open>What is assumed of the libraries: JSON reads back what it wrote, and the signatures of the
  operator key verify under its public key.\<close>

definition link_ok :: "link_env \<Rightarrow> string \<Rightarrow> bool" where
  "link_ok ml pub \<longleftrightarrow> mlKey ml pub \<and> (\<forall>c b. mlMarshal ml c = Some b \<longrightarrow> mlUnmarshal ml b = Some c) \<and>
     (\<forall>b s. mlSign ml b = Some s \<longrightarrow> mlCheck ml pub b s)"

text \<open>A minted token is read back with its claims until the second of expiry has passed.\<close>

lemma Verify_Mint:
  assumes "link_ok ml pub" "Mint ml nonceBuf now c = Inr tok"
  shows "Verify ml later pub tok =
    (if unix later > clExpiresAt c then Inl LinkExpired
     else Inr (c \<lparr>clNonce := b64_encode nonceBuf, clIssuedAt := unix now\<rparr>))"
proof -
  let ?c = "c \<lparr>clNonce := b64_encode nonceBuf, clIssuedAt := unix now\<rparr>"
  obtain body sig where m: "mlMarshal ml ?c = Some body" "mlSign ml body = Some sig"
    "tok = b64_encode body @ CHR ''.'' # b64_encode sig"
    using assms(2) by (auto simp: Mint_def Let_def split: option.splits)
  have "cut tok ''.'' = Some (b64_encode body, b64_encode sig)"
    unfolding m(3) by (rule cut_char [OF b64_no_dot])
  with m assms(1) show ?thesis by (auto simp: Verify_def b64_roundtrip link_ok_def)
qed

text \<open>A link is accepted only when its signature verifies and it has not expired.\<close>

lemma Verify_sound:
  assumes "Verify ml now pub tok = Inr c"
  shows "\<exists>body sig. mlKey ml pub \<and> mlCheck ml pub body sig \<and> mlUnmarshal ml body = Some c \<and> unix now \<le> clExpiresAt c"
  using assms by (auto simp: Verify_def split: option.splits if_splits prod.splits)

text \<open>
  C32. A magic link that the proxy hands out is for the rover asked for and carries a role the user
  has on it, or admin for an administrator; every agent that trusts the proxy's key reads these
  claims back for five minutes and refuses the link afterwards.
\<close>

theorem magic_link_roundtrip:
  assumes "link_ok ml pub"
    "newMagicLinkHandler ml show_id nonceBuf now eRole roverExists urlParses tab u roverID localURL = (st, Some tok)"
  shows "\<exists>eff. eff \<noteq> '''' \<and> (if cuIsAdmin u then eff = ''admin'' else map_of tab (cuID u, roverID) = Some eff) \<and>
    (\<forall>later. Verify ml later pub tok =
      (if unix later > unix now + 300 then Inl LinkExpired
       else Inr \<lparr>clSub = show_id (cuID u), clEmail = cuEmail u, clRoverID = roverID, clRole = eff, clIssuedAt = unix now,
         clExpiresAt = unix now + 300, clNonce = b64_encode nonceBuf\<rparr>))"
proof -
  have exp: "unix (now + 300000000000) = unix now + 300" by (simp add: unix_def)
  have "\<exists>eff. EffectiveRole eRole (cuID u) roverID (cuIsAdmin u) tab = Inr eff \<and> eff \<noteq> '''' \<and>
    Mint ml nonceBuf now \<lparr>clSub = show_id (cuID u), clEmail = cuEmail u, clRoverID = roverID, clRole = eff, clIssuedAt = 0,
        clExpiresAt = unix now + 300, clNonce = ''''\<rparr> = Inr tok"
    using assms(2) by (auto simp: newMagicLinkHandler_def exp split: if_splits sum.splits)
  then obtain eff where eff: "EffectiveRole eRole (cuID u) roverID (cuIsAdmin u) tab = Inr eff" "eff \<noteq> ''''"
    "Mint ml nonceBuf now \<lparr>clSub = show_id (cuID u), clEmail = cuEmail u, clRoverID = roverID, clRole = eff, clIssuedAt = 0,
        clExpiresAt = unix now + 300, clNonce = ''''\<rparr> = Inr tok"
    by (elim exE conjE) (rule that)
  have "if cuIsAdmin u then eff = ''admin'' else map_of tab (cuID u, roverID) = Some eff"
    using eff(1,2) by (auto simp: EffectiveRole_def RoleFor_def or_empty_def split: if_splits option.splits)
  with eff(2) Verify_Mint [OF assms(1) eff(3)] show ?thesis by (intro exI [of _ eff]) simp
qed

text \<open>An instance: the claims in the byte format, and a signature that is the message itself.\<close>

definition demo_w_claims :: "claims writer" where
  "demo_w_claims = w_map (\<lambda>c. (clSub c, clEmail c, clRoverID c, clRole c, clIssuedAt c, clExpiresAt c, clNonce c))
     (w_pair w_string (w_pair w_string (w_pair w_string (w_pair w_string (w_pair w_int (w_pair w_int w_string))))))"

definition demo_r_claims :: "claims reader" where
  "demo_r_claims = r_map (\<lambda>(s, e, r, ro, i, x, n). \<lparr>clSub = s, clEmail = e, clRoverID = r, clRole = ro, clIssuedAt = i,
       clExpiresAt = x, clNonce = n\<rparr>)
     (r_pair r_string (r_pair r_string (r_pair r_string (r_pair r_string (r_pair r_int (r_pair r_int r_string))))))"

lemma wire_claims: "wire_ok demo_w_claims demo_r_claims"
  unfolding demo_w_claims_def demo_r_claims_def by (intro wire_map wire_pair wire_int wire_string) simp

definition demo_link :: link_env where
  "demo_link = \<lparr>mlMarshal = Some \<circ> demo_w_claims, mlUnmarshal = decode_with demo_r_claims, mlSign = Some,
     mlKey = (\<lambda>k. k = ''OPUB''), mlCheck = (\<lambda>k b s. s = b)\<rparr>"

lemma demo_link_ok: "link_ok demo_link ''OPUB''"
  by (auto simp: link_ok_def demo_link_def decode_with_ok [OF wire_claims])

theorem magic_link_roundtrip_witness:
  "\<exists>tok eff. newMagicLinkHandler demo_link id [1, 2, 3] 0 None (\<lambda>_. True) (\<lambda>_. True) [((''ann'', ''r1''), ''view'')]
      \<lparr>cuID = ''ann'', cuEmail = ''a@b'', cuIsAdmin = False\<rparr> ''r1'' (Some ''http://r1.local'') = (200, Some tok) \<and>
    Verify demo_link 60000000000 ''OPUB'' tok = Inr \<lparr>clSub = ''ann'', clEmail = ''a@b'', clRoverID = ''r1'', clRole = eff,
      clIssuedAt = unix 0, clExpiresAt = unix 0 + 300, clNonce = b64_encode [1, 2, 3]\<rparr> \<and> eff = ''view''"
proof -
  let ?u = "\<lparr>cuID = ''ann'', cuEmail = ''a@b'', cuIsAdmin = False\<rparr>"
  have "\<exists>tok. newMagicLinkHandler demo_link id [1, 2, 3] 0 None (\<lambda>_. True) (\<lambda>_. True) [((''ann'', ''r1''), ''view'')]
      ?u ''r1'' (Some ''http://r1.local'') = (200, Some tok)"
    by (simp add: newMagicLinkHandler_def EffectiveRole_def RoleFor_def or_empty_def Mint_def demo_link_def Let_def)
  then obtain tok where h: "newMagicLinkHandler demo_link id [1, 2, 3] 0 None (\<lambda>_. True) (\<lambda>_. True)
      [((''ann'', ''r1''), ''view'')] ?u ''r1'' (Some ''http://r1.local'') = (200, Some tok)"
    by (elim exE) (rule that)
  from magic_link_roundtrip [OF demo_link_ok h] h show ?thesis
    by (intro exI [of _ tok] exI [of _ "''view''"]) (auto simp: unix_def)
qed

end
