(* ===== verification/Gateway.thy ===== *)
theory Gateway
  imports Install MagicLink
begin

text \<open>
  The rover's HTTP gateway, \<^verbatim>\<open>agent/internal/gateway\<close>: the session store (\<^verbatim>\<open>session_store.go\<close>), the
  authorization of local peers, the session cookie, the login, the WebSocket bridge to the bus and
  the credentials endpoint (\<^verbatim>\<open>ws.go\<close>), the module and episode routes (\<^verbatim>\<open>modulesapi.go\<close>,
  \<^verbatim>\<open>episodesapi.go\<close>), the module pages (\<^verbatim>\<open>modulehttp.go\<close>) and the local issuer (\<^verbatim>\<open>session/jwt.go\<close>). A
  handler returns the status of its answer and the changed state. SHA-256, random bytes, URL and
  body parsing, nkeys and the recorder behind the episode routes are arguments; the module routes
  run the install operations of the module manager.
\<close>

section \<open>Sessions\<close>

definition localSessionCookieTTL :: duration where
  "localSessionCookieTTL = 7 * 24 * 3600 * 1000000000"

record session_store =
  ssTtl :: duration
  ssM :: "(bytes \<times> time) list"

definition newSessionStore :: "duration \<Rightarrow> session_store" where
  "newSessionStore ttl = \<lparr>ssTtl = ttl, ssM = []\<rparr>"

definition pruneLocked :: "time \<Rightarrow> session_store \<Rightarrow> session_store" where
  "pruneLocked now s = s \<lparr>ssM := filter (\<lambda>(h, expiry). \<not> now > expiry) (ssM s)\<rparr>"

text \<open>\<open>rnd\<close> are the 32 random bytes, or None when the source fails.\<close>

definition issue :: "(string \<Rightarrow> bytes) \<Rightarrow> bytes option \<Rightarrow> time \<Rightarrow> session_store \<Rightarrow> string option \<times> session_store" where
  "issue sha rnd now s =
     (case rnd of
        None \<Rightarrow> (None, s)
      | Some b \<Rightarrow>
          let tok = b64_encode b; s1 = pruneLocked now s in
          (Some tok, s1 \<lparr>ssM := map_set (sha tok) (now + ssTtl s1) (ssM s1)\<rparr>))"

definition session_valid :: "(string \<Rightarrow> bytes) \<Rightarrow> time \<Rightarrow> string \<Rightarrow> session_store \<Rightarrow> bool \<times> session_store" where
  "session_valid sha now tok s =
     (if tok = '''' then (False, s)
      else case map_of (ssM s) (sha tok) of
        None \<Rightarrow> (False, s)
      | Some expiry \<Rightarrow> if now > expiry then (False, s \<lparr>ssM := map_del (sha tok) (ssM s)\<rparr>) else (True, s))"


section \<open>Local peers\<close>

definition isLocalIP :: "bytes option \<Rightarrow> bool" where
  "isLocalIP ip =
     (case ip of
        None \<Rightarrow> False
      | Some ip \<Rightarrow>
          IsLoopback ip \<or> IsPrivate ip \<or> IsLinkLocalUnicast ip \<or>
          (case To4 ip of Some v4 \<Rightarrow> v4 ! 0 = 100 \<and> 64 \<le> v4 ! 1 \<and> v4 ! 1 \<le> 127 | None \<Rightarrow> False))"

definition host_part :: "string \<Rightarrow> string" where
  "host_part s = (case SplitHostPort s of Some (h, _) \<Rightarrow> h | None \<Rightarrow> s)"

definition isLocalAddr :: "string \<Rightarrow> bool" where
  "isLocalAddr remoteAddr = isLocalIP (ParseIP (host_part remoteAddr))"

definition isLocalHost :: "string \<Rightarrow> bool" where
  "isLocalHost authority =
     (let host = to_lower (trim_suffix (trim_set (host_part authority) ''[]'') ''.'') in
      if host = ''localhost'' then True
      else if has_prefix (rev host) (rev ''.local'') then
        (let label = take (length host - 6) host in label \<noteq> '''' \<and> CHR ''.'' \<notin> set label)
      else isLocalIP (ParseIP host))"


section \<open>The gateway\<close>

record gateway =
  gwRoverID :: string
  gwToken :: string
  gwOperatorPub :: string
  gwLocalIss :: bool
  gwSessions :: session_store
  gwMountRoot :: string
  gwPorts :: "(string \<times> 16 word) list"
  gwModules :: bool
  gwEpisodes :: bool

definition gateway_New :: "string \<Rightarrow> string \<Rightarrow> string \<Rightarrow> bool \<Rightarrow> string \<Rightarrow> bool \<Rightarrow> gateway" where
  "gateway_New roverID bootstrapToken operatorPub localIss moduleMountRoot localModules =
     \<lparr>gwRoverID = roverID, gwToken = bootstrapToken, gwOperatorPub = operatorPub, gwLocalIss = localIss,
      gwSessions = newSessionStore localSessionCookieTTL,
      gwMountRoot = (if moduleMountRoot = '''' then ''/run/waypoint/module-root'' else moduleMountRoot),
      gwPorts = [], gwModules = localModules, gwEpisodes = False\<rparr>"

text \<open>What the gateway reads of a request; an absent header or query parameter is empty.\<close>

record request =
  rqRemoteAddr :: string
  rqHost :: string
  rqOrigin :: string
  rqAccept :: string
  rqToken :: string
  rqCookie :: "string option"

text \<open>\<open>urlHost\<close> is the host of a parsed URL, None when it does not parse.\<close>

definition checkOrigin :: "(string \<Rightarrow> string option) \<Rightarrow> request \<Rightarrow> bool" where
  "checkOrigin urlHost r =
     (if rqOrigin r = '''' then True
      else case urlHost (rqOrigin r) of None \<Rightarrow> False | Some h \<Rightarrow> isLocalHost h)"

definition cookie_valid :: "(string \<Rightarrow> bytes) \<Rightarrow> time \<Rightarrow> gateway \<Rightarrow> request \<Rightarrow> bool \<times> gateway" where
  "cookie_valid sha now gw r =
     (case rqCookie r of
        None \<Rightarrow> (False, gw)
      | Some c \<Rightarrow> (case session_valid sha now c (gwSessions gw) of (allow, s) \<Rightarrow> (allow, gw \<lparr>gwSessions := s\<rparr>)))"

definition localAuthorized :: "(string \<Rightarrow> bytes) \<Rightarrow> time \<Rightarrow> gateway \<Rightarrow> request \<Rightarrow> bool \<times> gateway" where
  "localAuthorized sha now gw r =
     (if gwToken gw = '''' then (False, gw)
      else if \<not> isLocalAddr (rqRemoteAddr r) then (False, gw)
      else if rqToken r = gwToken gw then (True, gw)
      else cookie_valid sha now gw r)"

definition shouldIssueSession :: "(string \<Rightarrow> bytes) \<Rightarrow> time \<Rightarrow> gateway \<Rightarrow> request \<Rightarrow> bool \<times> gateway" where
  "shouldIssueSession sha now gw r =
     (if gwToken gw = '''' \<or> \<not> isLocalHost (rqHost r) \<or> \<not> isLocalAddr (rqRemoteAddr r) then (False, gw)
      else if \<not> contains (rqAccept r) ''text/html'' then (False, gw)
      else case cookie_valid sha now gw r of (allow, gw') \<Rightarrow> (\<not> allow, gw'))"

text \<open>The cookie set on the answer, if any.\<close>

definition setSessionCookie :: "(string \<Rightarrow> bytes) \<Rightarrow> bytes option \<Rightarrow> time \<Rightarrow> gateway \<Rightarrow> string option \<times> gateway" where
  "setSessionCookie sha rnd now gw =
     (case issue sha rnd now (gwSessions gw) of (tok, s) \<Rightarrow> (tok, gw \<lparr>gwSessions := s\<rparr>))"

definition WithLocalSession ::
  "(string \<Rightarrow> bytes) \<Rightarrow> bytes option \<Rightarrow> time \<Rightarrow> gateway \<Rightarrow> request \<Rightarrow> string option \<times> gateway" where
  "WithLocalSession sha rnd now gw r =
     (case shouldIssueSession sha now gw r of (yes, gw') \<Rightarrow>
        if yes then setSessionCookie sha rnd now gw' else (None, gw'))"

definition handleLogin ::
  "(string \<Rightarrow> bytes) \<Rightarrow> link_env \<Rightarrow> bytes option \<Rightarrow> time \<Rightarrow> gateway \<Rightarrow> request \<Rightarrow> nat \<times> string option \<times> gateway" where
  "handleLogin sha ml rnd now gw r =
     (if gwOperatorPub gw = '''' then (503, None, gw)
      else if rqToken r = '''' then (400, None, gw)
      else case Verify ml now (gwOperatorPub gw) (rqToken r) of
        Inl e \<Rightarrow> (401, None, gw)
      | Inr c \<Rightarrow> (case setSessionCookie sha rnd now gw of (tok, gw') \<Rightarrow> (302, tok, gw')))"

text \<open>The checks every guarded route starts with, around what the route does to the state.\<close>

definition guarded ::
  "(string \<Rightarrow> bytes) \<Rightarrow> time \<Rightarrow> bool \<Rightarrow> gateway \<Rightarrow> request \<Rightarrow> 's \<Rightarrow> nat \<times> 's \<Rightarrow> nat \<times> gateway \<times> 's" where
  "guarded sha now avail gw r s act =
     (case localAuthorized sha now gw r of (allow, gw') \<Rightarrow>
        if \<not> allow then (401, gw', s)
        else if \<not> avail then (503, gw', s)
        else case act of (st, s') \<Rightarrow> (st, gw', s'))"


section \<open>Credentials for the dashboard\<close>

definition LocalSessionTTL :: duration where
  "LocalSessionTTL = 15 * 60 * 1000000000"

record user_claims =
  ucName :: string
  ucSubject :: string
  ucIssuedAt :: int
  ucExpires :: int
  ucIssuerAccount :: string
  ucPubAllow :: "string list"
  ucSubAllow :: "string list"

text \<open>\<open>user\<close> is the fresh user key pair, its public key and seed; \<open>encode\<close> signs the claims.\<close>

definition MintLocalSession ::
  "string \<Rightarrow> (string \<times> bytes) option \<Rightarrow> (user_claims \<Rightarrow> string option) \<Rightarrow> time \<Rightarrow> string \<Rightarrow> duration \<Rightarrow> (string \<times> bytes) option" where
  "MintLocalSession accountPub user encode now roverID ttl =
     (case user of
        None \<Rightarrow> None
      | Some (upk, seed) \<Rightarrow>
          let base = ''waypoint.'' @ roverID in
          map_option (\<lambda>tok. (tok, seed)) (encode
            \<lparr>ucName = ''local-session'', ucSubject = upk, ucIssuedAt = unix now, ucExpires = unix now + ttl div 1000000000,
             ucIssuerAccount = accountPub,
             ucPubAllow = [base @ ''.cmd.>'', base @ ''.rpc.>'', base @ ''.module.>'', ''_INBOX.>''],
             ucSubAllow = [base @ ''.>'', ''_INBOX.>'']\<rparr>))"

definition handleNatsCred ::
  "(string \<Rightarrow> bytes) \<Rightarrow> string \<Rightarrow> (string \<times> bytes) option \<Rightarrow> (user_claims \<Rightarrow> string option) \<Rightarrow> time \<Rightarrow> gateway \<Rightarrow> request
    \<Rightarrow> nat \<times> gateway \<times> (string \<times> bytes) option" where
  "handleNatsCred sha accountPub user encode now gw r =
     guarded sha now (gwLocalIss gw) gw r None
       (case MintLocalSession accountPub user encode now (gwRoverID gw) LocalSessionTTL of
          None \<Rightarrow> (500, None)
        | Some cred \<Rightarrow> (200, Some cred))"


section \<open>Modules and episodes\<close>

type_synonym rover_state = "(manager \<times> reconciler) \<times> install_call list"

definition maxUploadBytes :: nat where
  "maxUploadBytes = 256 * 1024 * 1024"

text \<open>A file of the upload form, cut at the limit.\<close>

definition readFormFile :: "(string \<Rightarrow> bytes option) \<Rightarrow> string \<Rightarrow> bytes option" where
  "readFormFile form field = map_option (take maxUploadBytes) (form field)"

definition handleModulesList ::
  "(string \<Rightarrow> bytes) \<Rightarrow> time \<Rightarrow> gateway \<Rightarrow> request \<Rightarrow> rover_state \<Rightarrow> nat \<times> gateway \<times> module_status list" where
  "handleModulesList sha now gw r s =
     guarded sha now (gwModules gw) gw r [] (200, ListModules (fst (fst s)))"

text \<open>\<open>form\<close> is None when the multipart form does not parse.\<close>

definition handleModuleStage ::
  "(string \<Rightarrow> bytes) \<Rightarrow> ihost \<Rightarrow> time \<Rightarrow> gateway \<Rightarrow> request \<Rightarrow> (string \<Rightarrow> bytes option) option \<Rightarrow> rover_state
    \<Rightarrow> nat \<times> gateway \<times> rover_state" where
  "handleModuleStage sha ih now gw r form s =
     guarded sha now (gwModules gw) gw r s
       (case form of
          None \<Rightarrow> (400, s)
        | Some files \<Rightarrow>
            (case (readFormFile files ''raw'', readFormFile files ''bundle'') of
               (Some raw, Some bdl) \<Rightarrow>
                 (case run_state (StageModule ih raw bdl) s of
                    (Inl e, s') \<Rightarrow> (400, s')
                  | (Inr preview, s') \<Rightarrow> (200, s'))
             | _ \<Rightarrow> (400, s)))"

definition handleModuleConfirm ::
  "(string \<Rightarrow> bytes) \<Rightarrow> ihost \<Rightarrow> time \<Rightarrow> gateway \<Rightarrow> request \<Rightarrow> (string \<times> string) option \<Rightarrow> rover_state
    \<Rightarrow> nat \<times> gateway \<times> rover_state" where
  "handleModuleConfirm sha ih now gw r body s =
     guarded sha now (gwModules gw) gw r s
       (case body of
          None \<Rightarrow> (400, s)
        | Some (stageID, configTOML) \<Rightarrow>
            (case run_state (ConfirmModule ih stageID configTOML) s of
               (Some e, s') \<Rightarrow> (400, s')
             | (None, s') \<Rightarrow> (200, s')))"

definition handleModuleUninstall ::
  "(string \<Rightarrow> bytes) \<Rightarrow> ihost \<Rightarrow> time \<Rightarrow> gateway \<Rightarrow> request \<Rightarrow> string \<Rightarrow> rover_state \<Rightarrow> nat \<times> gateway \<times> rover_state" where
  "handleModuleUninstall sha ih now gw r i s =
     guarded sha now (gwModules gw) gw r s
       (case run_state (UninstallModule ih i) s of
          (Some e, s') \<Rightarrow> (400, s')
        | (None, s') \<Rightarrow> (200, s'))"

text \<open>The recorder's episodes, as the interface the gateway sees.\<close>

record 'e episode_store =
  epList :: "'e \<Rightarrow> (string list) option"
  epPath :: "'e \<Rightarrow> string \<Rightarrow> string option"
  epDelete :: "string \<Rightarrow> 'e \<Rightarrow> string option \<times> 'e"

definition handleEpisodesList ::
  "(string \<Rightarrow> bytes) \<Rightarrow> 'e episode_store \<Rightarrow> time \<Rightarrow> gateway \<Rightarrow> request \<Rightarrow> 'e \<Rightarrow> nat \<times> gateway \<times> string list" where
  "handleEpisodesList sha ep now gw r e =
     guarded sha now (gwEpisodes gw) gw r [] (case epList ep e of None \<Rightarrow> (500, []) | Some l \<Rightarrow> (200, l))"

definition handleEpisodeDownload ::
  "(string \<Rightarrow> bytes) \<Rightarrow> 'e episode_store \<Rightarrow> time \<Rightarrow> gateway \<Rightarrow> request \<Rightarrow> string \<Rightarrow> 'e \<Rightarrow> nat \<times> gateway \<times> string option" where
  "handleEpisodeDownload sha ep now gw r i e =
     guarded sha now (gwEpisodes gw) gw r None (case epPath ep e i of None \<Rightarrow> (404, None) | Some p \<Rightarrow> (200, Some p))"

definition handleEpisodeDelete ::
  "(string \<Rightarrow> bytes) \<Rightarrow> 'e episode_store \<Rightarrow> time \<Rightarrow> gateway \<Rightarrow> request \<Rightarrow> string \<Rightarrow> 'e \<Rightarrow> nat \<times> gateway \<times> 'e" where
  "handleEpisodeDelete sha ep now gw r i e =
     guarded sha now (gwEpisodes gw) gw r e
       (case epDelete ep i e of (Some err, e') \<Rightarrow> (409, e') | (None, e') \<Rightarrow> (200, e'))"


section \<open>Module pages\<close>

datatype page = NotFound | Forbidden | ServeFile string | Proxy "16 word" string

definition serve_static :: "string \<Rightarrow> string \<Rightarrow> page" where
  "serve_static mountRoot urlPath =
     (case cut (trim_prefix urlPath ''/module/'') ''/static/'' of
        None \<Rightarrow> NotFound
      | Some (i, after) \<Rightarrow>
          if i = '''' then NotFound
          else
            let moduleRoot = path_join [mountRoot, i, ''dashboard''];
                target = path_clean (path_join [moduleRoot, after]) in
            if \<not> has_prefix target (path_clean moduleRoot @ ''/'') \<and> target \<noteq> path_clean moduleRoot then Forbidden
            else ServeFile target)"

definition serve_proxy :: "(string \<times> 16 word) list \<Rightarrow> string \<Rightarrow> page" where
  "serve_proxy ports urlPath =
     (let rest = trim_prefix urlPath ''/module/'';
          (i, after) = (case cut rest ''/'' of Some ab \<Rightarrow> ab | None \<Rightarrow> (rest, '''')) in
      if i = '''' then NotFound
      else case map_of ports i of None \<Rightarrow> NotFound | Some port \<Rightarrow> Proxy port (''/'' @ after))"

definition moduleRouter :: "gateway \<Rightarrow> string \<Rightarrow> page" where
  "moduleRouter gw urlPath =
     (if contains urlPath ''/static/'' then serve_static (gwMountRoot gw) urlPath
      else serve_proxy (gwPorts gw) urlPath)"


section \<open>The WebSocket bridge\<close>

record envelope =
  evAction :: string
  evSubject :: string
  evData :: string

definition subjectAllowed :: "string \<Rightarrow> string \<Rightarrow> bool" where
  "subjectAllowed roverID subject = has_prefix subject (''waypoint.'' @ roverID @ ''.'')"

text \<open>One message from the browser: the subscriptions of the socket, the connection and what is
  published.\<close>

definition ws_step ::
  "(nat \<Rightarrow> string \<Rightarrow> string option) \<Rightarrow> string \<Rightarrow> envelope \<Rightarrow> (string \<times> nat) list \<times> conn
    \<Rightarrow> ((string \<times> nat) list \<times> conn) \<times> (string \<times> bytes) list" where
  "ws_step fails roverID ev sc =
     (case sc of (subs, c) \<Rightarrow>
        if \<not> subjectAllowed roverID (evSubject ev) then ((subs, c), [])
        else if evAction ev = ''sub'' then
          (case map_of subs (evSubject ev) of
             Some _ \<Rightarrow> ((subs, c), [])
           | None \<Rightarrow>
               (case nc_subscribe fails (evSubject ev) (Handler ''ws'') c of
                  (Inr s, c') \<Rightarrow> ((map_set (evSubject ev) s subs, c'), [])
                | (Inl e, c') \<Rightarrow> ((subs, c'), [])))
        else if evAction ev = ''unsub'' then
          (case map_of subs (evSubject ev) of
             Some s \<Rightarrow> ((map_del (evSubject ev) subs, nc_unsubscribe s c), [])
           | None \<Rightarrow> ((subs, c), []))
        else if evAction ev = ''pub'' then
          (case b64_decode_std (evData ev) of
             None \<Rightarrow> ((subs, c), [])
           | Some raw \<Rightarrow> ((subs, c), [(evSubject ev, raw)]))
        else ((subs, c), []))"

text \<open>A message of the bus on its way to the browser.\<close>

definition ws_deliver :: "string \<Rightarrow> bytes \<Rightarrow> envelope" where
  "ws_deliver subject data = \<lparr>evAction = ''msg'', evSubject = subject, evData = b64_encode_std data\<rparr>"

fun ws_loop ::
  "(nat \<Rightarrow> string \<Rightarrow> string option) \<Rightarrow> string \<Rightarrow> envelope list \<Rightarrow> (string \<times> nat) list \<times> conn
    \<Rightarrow> ((string \<times> nat) list \<times> conn) \<times> (string \<times> bytes) list" where
  "ws_loop fails roverID [] sc = (sc, [])"
| "ws_loop fails roverID (ev # evs) sc =
     (case ws_step fails roverID ev sc of (sc', ps) \<Rightarrow>
        case ws_loop fails roverID evs sc' of (sc'', qs) \<Rightarrow> (sc'', ps @ qs))"

text \<open>The messages up to the one that does not arrive any more; then every subscription of the
  socket is closed. \<open>upgrade\<close> and \<open>connect\<close> tell whether the protocol switch and the connection to the
  bus succeed.\<close>

definition handleWS ::
  "(string \<Rightarrow> bytes) \<Rightarrow> (string \<Rightarrow> string option) \<Rightarrow> (nat \<Rightarrow> string \<Rightarrow> string option) \<Rightarrow> bool \<Rightarrow> bool \<Rightarrow> time \<Rightarrow> gateway
    \<Rightarrow> request \<Rightarrow> envelope list \<Rightarrow> conn \<Rightarrow> nat \<times> gateway \<times> conn \<times> (string \<times> bytes) list" where
  "handleWS sha urlHost fails upgrade connect now gw r evs c =
     guarded sha now True gw r (c, [])
       (if \<not> checkOrigin urlHost r then (403, (c, []))
        else if \<not> upgrade then (400, (c, []))
        else if \<not> connect then (101, (c, []))
        else case ws_loop fails (gwRoverID gw) evs ([], c) of ((subs, c'), ps) \<Rightarrow>
          (101, (unsubscribe_all (map snd subs) c', ps)))"


section \<open>Where sessions come from\<close>

text \<open>What happens to the sessions: page loads, logins, and requests to guarded routes.\<close>

datatype gw_event = EvPage request "bytes option" | EvLogin request "bytes option" | EvGuarded request

fun gw_step :: "(string \<Rightarrow> bytes) \<Rightarrow> link_env \<Rightarrow> time \<Rightarrow> gw_event \<Rightarrow> gateway \<Rightarrow> string option \<times> gateway" where
  "gw_step sha ml now (EvPage r rnd) gw = WithLocalSession sha rnd now gw r"
| "gw_step sha ml now (EvLogin r rnd) gw = snd (handleLogin sha ml rnd now gw r)"
| "gw_step sha ml now (EvGuarded r) gw = (None, snd (localAuthorized sha now gw r))"

text \<open>A run of the gateway, with the cookies it handed out.\<close>

fun gw_run ::
  "(string \<Rightarrow> bytes) \<Rightarrow> link_env \<Rightarrow> (time \<times> gw_event) list \<Rightarrow> gateway \<Rightarrow> (string \<times> time \<times> gw_event) list
    \<Rightarrow> gateway \<times> (string \<times> time \<times> gw_event) list" where
  "gw_run sha ml [] gw iss = (gw, iss)"
| "gw_run sha ml ((now, ev) # evs) gw iss =
     (case gw_step sha ml now ev gw of (cookie, gw') \<Rightarrow>
        gw_run sha ml evs gw' (case cookie of None \<Rightarrow> iss | Some tok \<Rightarrow> (tok, now, ev) # iss))"

text \<open>A cookie is legitimate when it went to a local peer on a local host name, or to the holder of a
  magic link that the proxy signed and that had not expired.\<close>

fun legitimate :: "link_env \<Rightarrow> string \<Rightarrow> time \<Rightarrow> gw_event \<Rightarrow> bool" where
  "legitimate ml pub t (EvPage r rnd) \<longleftrightarrow> isLocalHost (rqHost r) \<and> isLocalAddr (rqRemoteAddr r)"
| "legitimate ml pub t (EvLogin r rnd) \<longleftrightarrow> (\<exists>c. Verify ml t pub (rqToken r) = Inr c)"
| "legitimate ml pub t (EvGuarded r) \<longleftrightarrow> False"

definition sessions_ok ::
  "(string \<Rightarrow> bytes) \<Rightarrow> link_env \<Rightarrow> string \<Rightarrow> string \<Rightarrow> (string \<times> time \<times> gw_event) list \<Rightarrow> gateway \<Rightarrow> bool" where
  "sessions_ok sha ml tk pub iss gw \<longleftrightarrow> gwToken gw = tk \<and> gwOperatorPub gw = pub \<and> ssTtl (gwSessions gw) = localSessionCookieTTL \<and>
     (\<forall>(tok, t, ev) \<in> set iss. legitimate ml pub t ev) \<and>
     (\<forall>(h, x) \<in> set (ssM (gwSessions gw)). \<exists>tok t ev. (tok, t, ev) \<in> set iss \<and> sha tok = h \<and> x = t + localSessionCookieTTL)"

text \<open>Operations that only drop sessions.\<close>

definition shrinks :: "gateway \<Rightarrow> gateway \<Rightarrow> bool" where
  "shrinks gw gw' \<longleftrightarrow> (\<exists>s. gw' = gw \<lparr>gwSessions := s\<rparr> \<and> ssTtl s = ssTtl (gwSessions gw) \<and> set (ssM s) \<subseteq> set (ssM (gwSessions gw)))"

lemma shrinks_refl [simp]: "shrinks gw gw"
  by (auto simp: shrinks_def intro: exI [of _ "gwSessions gw"])

lemma sessions_ok_shrinks: "shrinks gw gw' \<Longrightarrow> sessions_ok sha ml tk pub iss gw \<Longrightarrow> sessions_ok sha ml tk pub iss gw'"
  by (auto simp: shrinks_def sessions_ok_def)

lemma cookie_valid_shrinks: "cookie_valid sha now gw r = (b, gw') \<Longrightarrow> shrinks gw gw'"
  by (auto simp: cookie_valid_def session_valid_def shrinks_def map_del_def split: option.splits if_splits prod.splits
      intro: exI [of _ "gwSessions gw"])

lemma localAuthorized_shrinks: "localAuthorized sha now gw r = (b, gw') \<Longrightarrow> shrinks gw gw'"
  by (auto simp: localAuthorized_def cookie_valid_shrinks split: if_splits)

lemma setSessionCookie_ok:
  assumes "setSessionCookie sha rnd now gw = (cookie, gw')" "sessions_ok sha ml tk pub iss gw" "legitimate ml pub now ev"
  shows "sessions_ok sha ml tk pub (case cookie of None \<Rightarrow> iss | Some tok \<Rightarrow> (tok, now, ev) # iss) gw'"
proof (cases rnd)
  case None
  then show ?thesis using assms by (simp add: setSessionCookie_def issue_def)
next
  case (Some b)
  let ?tok = "b64_encode b" and ?m = "filter (\<lambda>(h, expiry). \<not> now > expiry) (ssM (gwSessions gw))"
  have ttl: "ssTtl (gwSessions gw) = localSessionCookieTTL" using assms(2) by (simp add: sessions_ok_def)
  have res: "cookie = Some ?tok" "gwToken gw' = gwToken gw" "gwOperatorPub gw' = gwOperatorPub gw"
    "ssTtl (gwSessions gw') = localSessionCookieTTL"
    "ssM (gwSessions gw') = map_set (sha ?tok) (now + localSessionCookieTTL) ?m"
    using assms(1) Some ttl by (auto simp: setSessionCookie_def issue_def pruneLocked_def Let_def)
  have set: "set (map_set h x m) \<subseteq> insert (h, x) (set m)" for h x and m :: "(bytes \<times> time) list"
    by (induction m) auto
  have "\<exists>tok t ev'. (tok, t, ev') \<in> set ((?tok, now, ev) # iss) \<and> sha tok = h \<and> x = t + localSessionCookieTTL"
    if "(h, x) \<in> set (ssM (gwSessions gw'))" for h x
  proof -
    from that set have "(h, x) = (sha ?tok, now + localSessionCookieTTL) \<or> (h, x) \<in> set (ssM (gwSessions gw))"
      unfolding res(5) by fastforce
    then show ?thesis
    proof
      assume "(h, x) \<in> set (ssM (gwSessions gw))"
      then have "\<exists>tok t ev'. (tok, t, ev') \<in> set iss \<and> sha tok = h \<and> x = t + localSessionCookieTTL"
        using assms(2) unfolding sessions_ok_def by blast
      then show ?thesis unfolding list.set(2) by blast
    qed auto
  qed
  then show ?thesis using assms(2,3) res unfolding sessions_ok_def by auto
qed

lemma gw_step_ok:
  assumes "gw_step sha ml now ev gw = (cookie, gw')" "sessions_ok sha ml tk pub iss gw"
  shows "sessions_ok sha ml tk pub (case cookie of None \<Rightarrow> iss | Some tok \<Rightarrow> (tok, now, ev) # iss) gw'"
proof (cases ev)
  case (EvPage r rnd)
  obtain yes gw1 where s: "shouldIssueSession sha now gw r = (yes, gw1)" by (rule prod.exhaust)
  have "shrinks gw gw1"
    using s by (auto simp: shouldIssueSession_def cookie_valid_shrinks split: if_splits prod.splits)
  then have ok1: "sessions_ok sha ml tk pub iss gw1" using assms(2) by (rule sessions_ok_shrinks)
  show ?thesis
  proof (cases yes)
    case True
    have "legitimate ml pub now ev" using s True EvPage by (auto simp: shouldIssueSession_def split: if_splits)
    then show ?thesis using setSessionCookie_ok [OF _ ok1] assms(1) s True EvPage by (simp add: WithLocalSession_def)
  next
    case False
    then show ?thesis using assms(1) s EvPage ok1 by (auto simp: WithLocalSession_def)
  qed
next
  case (EvLogin r rnd)
  show ?thesis
  proof (cases "gwOperatorPub gw = '''' \<or> rqToken r = '''' \<or> (\<exists>e. Verify ml now (gwOperatorPub gw) (rqToken r) = Inl e)")
    case True
    then have "cookie = None \<and> gw' = gw" using assms(1) EvLogin by (auto simp: handleLogin_def split: if_splits)
    then show ?thesis using assms(2) by simp
  next
    case False
    then obtain c where c: "Verify ml now (gwOperatorPub gw) (rqToken r) = Inr c"
      by (cases "Verify ml now (gwOperatorPub gw) (rqToken r)") auto
    have "legitimate ml pub now ev" using c assms(2) EvLogin by (auto simp: sessions_ok_def)
    moreover have "setSessionCookie sha rnd now gw = (cookie, gw')"
      using assms(1) False c EvLogin by (auto simp: handleLogin_def split: prod.splits)
    ultimately show ?thesis using setSessionCookie_ok assms(2) by blast
  qed
next
  case (EvGuarded r)
  obtain b g where la: "localAuthorized sha now gw r = (b, g)" by (rule prod.exhaust)
  show ?thesis using assms EvGuarded la sessions_ok_shrinks [OF localAuthorized_shrinks [OF la]] by auto
qed

lemma gw_run_ok:
  "gw_run sha ml evs gw iss = (gw', iss') \<Longrightarrow> sessions_ok sha ml tk pub iss gw \<Longrightarrow> sessions_ok sha ml tk pub iss' gw'"
proof (induction evs arbitrary: gw iss)
  case (Cons e evs)
  obtain now ev where e: "e = (now, ev)" by (rule prod.exhaust)
  obtain cookie gw1 where s: "gw_step sha ml now ev gw = (cookie, gw1)" by (rule prod.exhaust)
  from Cons.IH [OF _ gw_step_ok [OF s Cons.prems(2)]] Cons.prems(1) show ?case by (simp add: e s)
qed simp

lemma authorized_session:
  assumes "sessions_ok sha ml tk pub iss gw" "fst (localAuthorized sha now gw r)"
    "\<And>c tok t ev. rqCookie r = Some c \<Longrightarrow> (tok, t, ev) \<in> set iss \<Longrightarrow> sha tok = sha c \<Longrightarrow> tok = c"
  shows "isLocalAddr (rqRemoteAddr r) \<and> gwToken gw \<noteq> '''' \<and> (rqToken r = gwToken gw \<or>
    (\<exists>c t ev. rqCookie r = Some c \<and> (c, t, ev) \<in> set iss \<and> now \<le> t + localSessionCookieTTL \<and> legitimate ml pub t ev))"
proof -
  have l: "gwToken gw \<noteq> ''''" "isLocalAddr (rqRemoteAddr r)" using assms(2) by (auto simp: localAuthorized_def split: if_splits)
  show ?thesis
  proof (cases "rqToken r = gwToken gw")
    case False
    then have "fst (cookie_valid sha now gw r)" using assms(2) l by (simp add: localAuthorized_def)
    then obtain c x where c: "rqCookie r = Some c" "map_of (ssM (gwSessions gw)) (sha c) = Some x" "now \<le> x"
      by (auto simp: cookie_valid_def session_valid_def split: option.splits if_splits prod.splits)
    from map_of_SomeD [OF c(2)] assms(1) obtain tok t ev where
      i: "(tok, t, ev) \<in> set iss" "sha tok = sha c" "x = t + localSessionCookieTTL"
      unfolding sessions_ok_def by fastforce
    with assms(3) [OF c(1)] have "tok = c" by blast
    then show ?thesis using l c i assms(1) by (auto simp: sessions_ok_def)
  qed (use l in simp)
qed


lemma guarded_changes:
  assumes "guarded sha now avail gw r s act = (st, gw', s')" "s' \<noteq> s"
  shows "fst (localAuthorized sha now gw r)"
  using assms by (auto simp: guarded_def split: if_splits prod.splits)

text \<open>
  C5. Whatever the gateway has been through, a request changes the rover's modules only if it comes
  from a local address and carries either the bootstrap token or a session cookie that this gateway
  issued at most seven days ago, to a local peer under a local host name or against a magic link
  signed by the proxy and not expired at that time.
\<close>

theorem module_changes_need_session:
  assumes "gw_run sha ml evs (gateway_New roverID tk pub localIss mountRoot mods) [] = (gw, issued)"
    "\<And>c tok t ev. rqCookie r = Some c \<Longrightarrow> (tok, t, ev) \<in> set issued \<Longrightarrow> sha tok = sha c \<Longrightarrow> tok = c"
    "handleModuleStage sha ih now gw r form s = (st, gw', s') \<or>
     handleModuleConfirm sha ih now gw r body s = (st, gw', s') \<or>
     handleModuleUninstall sha ih now gw r i s = (st, gw', s')"
    "s' \<noteq> s"
  shows "isLocalAddr (rqRemoteAddr r) \<and> tk \<noteq> '''' \<and> (rqToken r = tk \<or>
    (\<exists>c t ev. rqCookie r = Some c \<and> (c, t, ev) \<in> set issued \<and> now \<le> t + localSessionCookieTTL \<and> legitimate ml pub t ev))"
proof -
  have "sessions_ok sha ml tk pub [] (gateway_New roverID tk pub localIss mountRoot mods)"
    by (simp add: sessions_ok_def gateway_New_def newSessionStore_def)
  with gw_run_ok [OF assms(1)] have okay: "sessions_ok sha ml tk pub issued gw" by blast
  have "gwToken gw = tk" using okay by (simp add: sessions_ok_def)
  moreover have "fst (localAuthorized sha now gw r)"
    using assms(3)
  proof (elim disjE)
    show ?thesis if "handleModuleStage sha ih now gw r form s = (st, gw', s')"
      by (rule guarded_changes [OF that [unfolded handleModuleStage_def] assms(4)])
    show ?thesis if "handleModuleConfirm sha ih now gw r body s = (st, gw', s')"
      by (rule guarded_changes [OF that [unfolded handleModuleConfirm_def] assms(4)])
    show ?thesis if "handleModuleUninstall sha ih now gw r i s = (st, gw', s')"
      by (rule guarded_changes [OF that [unfolded handleModuleUninstall_def] assms(4)])
  qed
  ultimately show ?thesis using authorized_session [OF okay _ assms(2)] by simp
qed

definition demo_request :: request where
  "demo_request = \<lparr>rqRemoteAddr = ''192.168.1.20:51000'', rqHost = ''waypoint.local'', rqOrigin = '''', rqAccept = ''text/html'',
     rqToken = '''', rqCookie = None\<rparr>"

definition demo_sha :: "string \<Rightarrow> bytes" where
  "demo_sha s = map (of_nat \<circ> of_char) s"

definition demo_gateway :: gateway where
  "demo_gateway = gateway_New ''r1'' ''boot'' ''OPUB'' True '''' True"

lemma demo_local: "isLocalHost ''waypoint.local''" "isLocalAddr ''192.168.1.20:51000''"
  by code_simp+

lemma demo_page:
  "gw_run demo_sha demo_link [(0, EvPage demo_request (Some [1, 2, 3]))] demo_gateway [] =
     (demo_gateway \<lparr>gwSessions := \<lparr>ssTtl = localSessionCookieTTL, ssM = [(demo_sha (b64_encode [1, 2, 3]), localSessionCookieTTL)]\<rparr>\<rparr>,
      [(b64_encode [1, 2, 3], 0, EvPage demo_request (Some [1, 2, 3]))])"
  using demo_local
  by (simp add: WithLocalSession_def shouldIssueSession_def cookie_valid_def setSessionCookie_def issue_def pruneLocked_def
      demo_gateway_def gateway_New_def newSessionStore_def demo_request_def Let_def has_prefix_def)

lemma b64_demo: "b64_encode [1, 2, 3] = ''AQID''"
  by code_simp

theorem module_changes_need_session_witness:
  "\<exists>s'. s' \<noteq> ((demo_mgr, demo_rc), []) \<and>
     handleModuleStage demo_sha demo_ihost 60000000000 (fst (gw_run demo_sha demo_link [(0, EvPage demo_request (Some [1, 2, 3]))] demo_gateway []))
       (demo_request \<lparr>rqCookie := Some ''AQID''\<rparr>) (Some (\<lambda>f. Some [])) ((demo_mgr, demo_rc), []) =
     (200, fst (gw_run demo_sha demo_link [(0, EvPage demo_request (Some [1, 2, 3]))] demo_gateway []), s') \<and>
     isLocalAddr (rqRemoteAddr demo_request)"
proof -
  let ?gw = "fst (gw_run demo_sha demo_link [(0, EvPage demo_request (Some [1, 2, 3]))] demo_gateway [])"
  let ?r = "demo_request \<lparr>rqCookie := Some ''AQID''\<rparr>"
  have auth: "localAuthorized demo_sha 60000000000 ?gw ?r = (True, ?gw)"
    using demo_local unfolding demo_page b64_demo
    by (simp add: localAuthorized_def cookie_valid_def session_valid_def demo_gateway_def gateway_New_def demo_request_def
        localSessionCookieTTL_def)
  have mods: "gwModules ?gw" unfolding demo_page by (simp add: demo_gateway_def gateway_New_def)
  obtain sid pv l where st: "run_state (StageModule demo_ihost [] []) ((demo_mgr, demo_rc), []) =
      (Inr pv, ((demo_mgr \<lparr>mgStaging := [(sid, demo_staged sid)]\<rparr>, demo_rc), l))"
    using demo_stage by (elim exE) (rule that)
  define s' where "s' = ((demo_mgr \<lparr>mgStaging := [(sid, demo_staged sid)]\<rparr>, demo_rc), l)"
  have h: "handleModuleStage demo_sha demo_ihost 60000000000 ?gw ?r (Some (\<lambda>f. Some [])) ((demo_mgr, demo_rc), []) = (200, ?gw, s')"
    unfolding handleModuleStage_def guarded_def auth by (simp add: mods readFormFile_def st s'_def del: gw_run.simps)
  have ne: "s' \<noteq> ((demo_mgr, demo_rc), [])"
  proof
    assume "s' = ((demo_mgr, demo_rc), [])"
    then have "mgStaging (fst (fst s')) = mgStaging demo_mgr" by simp
    then show False by (simp add: s'_def demo_mgr_def)
  qed
  have run: "gw_run demo_sha demo_link [(0, EvPage demo_request (Some [1, 2, 3]))] (gateway_New ''r1'' ''boot'' ''OPUB'' True '''' True) [] =
      (?gw, [(''AQID'', 0, EvPage demo_request (Some [1, 2, 3]))])"
    using demo_page unfolding b64_demo demo_gateway_def by (simp del: gw_run.simps)
  have "isLocalAddr (rqRemoteAddr ?r)"
    using module_changes_need_session [OF run _ disjI1 [OF h] ne] by simp
  with h ne show ?thesis by (intro exI [of _ s']) simp
qed

end
