(* ===== verification/Alerts.thy ===== *)
theory Alerts
  imports Brokers Wire Sql
begin

text \<open>
  The alerts of a rover, \<^verbatim>\<open>agent/internal/alerts\<close>: the SQLite store (\<^verbatim>\<open>store.go\<close>), the subscriber
  that applies the rover's alert messages to it (\<^verbatim>\<open>local_subscriber.go\<close>), the publisher
  (\<^verbatim>\<open>publisher.go\<close>) and the watcher of the link to the proxy (\<^verbatim>\<open>leaf_watcher.go\<close>), with the wiring of
  the watcher in \<^verbatim>\<open>main.go\<close>. A table is an association list keyed by its primary key; what the
  database answers to a statement is an argument, and a failing statement changes nothing. The
  protobuf codecs and the JSON encoder are arguments.

  The locale \<open>alert_log\<close> states what a store promises to the readers of alerts: the state of an
  alert follows the life cycle of the accepted messages. The rover's store is an instance here, the
  proxy's in the theory of the mirror.
\<close>

section \<open>The store\<close>

definition SeverityInfo :: string where "SeverityInfo = ''info''"
definition SeverityWarning :: string where "SeverityWarning = ''warning''"
definition SeverityCritical :: string where "SeverityCritical = ''critical''"

definition StateActive :: string where "StateActive = ''active''"
definition StateAcknowledged :: string where "StateAcknowledged = ''acknowledged''"
definition StateResolved :: string where "StateResolved = ''resolved''"

record stored_alert =
  saID :: string
  saRoverID :: string
  saSeverity :: string
  saSource :: string
  saCode :: string
  saMessage :: string
  saMetadata :: string
  saRaisedAt :: time
  saState :: string
  saAcknowledgedAt :: "time option"
  saAcknowledgedBy :: string
  saResolvedAt :: "time option"
  saResolvedBy :: string
  saAutoResolved :: bool

text \<open>The columns of the table besides its key; \<open>None\<close> is NULL.\<close>

record alert_cols =
  acRoverID :: string
  acSeverity :: string
  acSource :: string
  acCode :: string
  acMessage :: string
  acMetadata :: "string option"
  acRaisedAt :: int
  acState :: string
  acAcknowledgedAt :: "int option"
  acAcknowledgedBy :: "string option"
  acResolvedAt :: "int option"
  acResolvedBy :: "string option"
  acAutoResolved :: int

type_synonym alert_table = "(string \<times> alert_cols) list"

definition OpenSQLite :: "string option \<Rightarrow> string option \<Rightarrow> alert_table option \<Rightarrow> sql_error + alert_table" where
  "OpenSQLite openErr schemaErr file =
     (case openErr of
        Some e \<Rightarrow> Inl (SqlError e)
      | None \<Rightarrow>
     (case schemaErr of
        Some e \<Rightarrow> Inl (SqlError e)
      | None \<Rightarrow> Inr (case file of None \<Rightarrow> [] | Some t \<Rightarrow> t)))"

definition Raise :: "sql_answer \<Rightarrow> stored_alert \<Rightarrow> alert_table \<Rightarrow> sql_error option \<times> alert_table" where
  "Raise an a db =
     (case sqExec an of
        Some e \<Rightarrow> (Some (SqlError e), db)
      | None \<Rightarrow> (None, map_set (saID a)
          \<lparr>acRoverID = saRoverID a, acSeverity = saSeverity a, acSource = saSource a, acCode = saCode a,
           acMessage = saMessage a, acMetadata = nullableString (saMetadata a),
           acRaisedAt = unix (saRaisedAt a), acState = ''active'', acAcknowledgedAt = None,
           acAcknowledgedBy = None, acResolvedAt = None, acResolvedBy = None, acAutoResolved = 0\<rparr> db))"

definition Acknowledge ::
  "sql_answer \<Rightarrow> string \<Rightarrow> string \<Rightarrow> time \<Rightarrow> alert_table \<Rightarrow> sql_error option \<times> alert_table" where
  "Acknowledge an i userID tm db =
     update_row an i (\<lambda>r. r \<lparr>acState := ''acknowledged'', acAcknowledgedAt := Some (unix tm),
       acAcknowledgedBy := nullableString userID\<rparr>) db"

definition Resolve ::
  "sql_answer \<Rightarrow> string \<Rightarrow> string \<Rightarrow> time \<Rightarrow> bool \<Rightarrow> alert_table \<Rightarrow> sql_error option \<times> alert_table" where
  "Resolve an i userID tm autoResolved db =
     (let auto = (if autoResolved then 1 else 0) in
      update_row an i (\<lambda>r. r \<lparr>acState := ''resolved'', acResolvedAt := Some (unix tm),
        acResolvedBy := nullableString userID, acAutoResolved := auto\<rparr>) db)"

definition scan_row :: "string \<times> alert_cols \<Rightarrow> stored_alert" where
  "scan_row ir = (case ir of (i, r) \<Rightarrow>
     \<lparr>saID = i, saRoverID = acRoverID r, saSeverity = acSeverity r, saSource = acSource r,
      saCode = acCode r, saMessage = acMessage r, saMetadata = or_empty (acMetadata r),
      saRaisedAt = unix_time (acRaisedAt r), saState = acState r,
      saAcknowledgedAt = map_option unix_time (acAcknowledgedAt r),
      saAcknowledgedBy = or_empty (acAcknowledgedBy r),
      saResolvedAt = map_option unix_time (acResolvedAt r), saResolvedBy = or_empty (acResolvedBy r),
      saAutoResolved = (acAutoResolved r \<noteq> 0)\<rparr>)"

definition queryRows :: "string option \<Rightarrow> alert_table \<Rightarrow> sql_error + stored_alert list" where
  "queryRows e sel = (case e of Some m \<Rightarrow> Inl (SqlError m) | None \<Rightarrow> Inr (map scan_row sel))"

definition of_rover :: "string \<Rightarrow> string \<Rightarrow> bool" where
  "of_rover roverID r \<longleftrightarrow> roverID = '''' \<or> r = roverID"

definition ListActive :: "string option \<Rightarrow> string \<Rightarrow> alert_table \<Rightarrow> sql_error + stored_alert list" where
  "ListActive e roverID db =
     queryRows e (sort_key (\<lambda>ir. - acRaisedAt (snd ir))
       (filter (\<lambda>ir. acState (snd ir) \<noteq> ''resolved'' \<and> of_rover roverID (acRoverID (snd ir))) db))"

definition GetHistory :: "string option \<Rightarrow> string \<Rightarrow> time \<Rightarrow> alert_table \<Rightarrow> sql_error + stored_alert list" where
  "GetHistory e roverID since db =
     queryRows e (sort_key (\<lambda>ir. - acRaisedAt (snd ir))
       (filter (\<lambda>ir. acRaisedAt (snd ir) \<ge> unix since \<and> of_rover roverID (acRoverID (snd ir))) db))"

definition SeverityToString :: "int \<Rightarrow> string" where
  "SeverityToString v =
     (if v = 1 then SeverityInfo else if v = 2 then SeverityWarning
      else if v = 3 then SeverityCritical else SeverityInfo)"


section \<open>Messages\<close>

record alert_raised =
  arT :: "time option"
  arId :: string
  arSource :: string
  arSeverity :: int
  arCode :: string
  arMessage :: string
  arMetadata :: "(string \<times> string) list"

record alert_acknowledged =
  akT :: "time option"
  akId :: string
  akUserId :: string

record alert_resolved =
  rsT :: "time option"
  rsId :: string
  rsReason :: string
  rsAutoResolved :: bool

text \<open>The generated protobuf codecs and the JSON encoder of the metadata.\<close>

record alert_codec =
  cdRaised :: "bytes \<Rightarrow> alert_raised option"
  cdAcked :: "bytes \<Rightarrow> alert_acknowledged option"
  cdResolved :: "bytes \<Rightarrow> alert_resolved option"
  ceRaised :: "alert_raised \<Rightarrow> bytes option"
  ceAcked :: "alert_acknowledged \<Rightarrow> bytes option"
  ceResolved :: "alert_resolved \<Rightarrow> bytes option"
  cdJSON :: "(string \<times> string) list \<Rightarrow> string option"

definition timestampOrNow :: "time \<Rightarrow> time option \<Rightarrow> time" where
  "timestampOrNow now t = (case t of None \<Rightarrow> now | Some t \<Rightarrow> t)"

definition marshalMetadata :: "alert_codec \<Rightarrow> (string \<times> string) list \<Rightarrow> string" where
  "marshalMetadata cd m = (if length m = 0 then '''' else or_empty (cdJSON cd m))"

definition userIDFromReason :: "string \<Rightarrow> string" where
  "userIDFromReason reason =
     (if has_prefix reason ''user:'' then trim_prefix reason ''user:'' else '''')"


section \<open>The local subscriber\<close>

definition on_raised :: "alert_codec \<Rightarrow> string \<Rightarrow> sql_answer \<Rightarrow> time \<Rightarrow> bytes \<Rightarrow> alert_table \<Rightarrow> alert_table" where
  "on_raised cd roverID an now data db =
     (case cdRaised cd data of
        None \<Rightarrow> db
      | Some ev \<Rightarrow> snd (Raise an
          \<lparr>saID = arId ev, saRoverID = roverID, saSeverity = SeverityToString (arSeverity ev),
           saSource = arSource ev, saCode = arCode ev, saMessage = arMessage ev,
           saMetadata = marshalMetadata cd (arMetadata ev), saRaisedAt = timestampOrNow now (arT ev),
           saState = '''', saAcknowledgedAt = None, saAcknowledgedBy = '''', saResolvedAt = None,
           saResolvedBy = '''', saAutoResolved = False\<rparr> db))"

definition on_acknowledged :: "alert_codec \<Rightarrow> sql_answer \<Rightarrow> time \<Rightarrow> bytes \<Rightarrow> alert_table \<Rightarrow> alert_table" where
  "on_acknowledged cd an now data db =
     (case cdAcked cd data of
        None \<Rightarrow> db
      | Some ev \<Rightarrow> snd (Acknowledge an (akId ev) (akUserId ev) (timestampOrNow now (akT ev)) db))"

definition on_resolved :: "alert_codec \<Rightarrow> sql_answer \<Rightarrow> time \<Rightarrow> bytes \<Rightarrow> alert_table \<Rightarrow> alert_table" where
  "on_resolved cd an now data db =
     (case cdResolved cd data of
        None \<Rightarrow> db
      | Some ev \<Rightarrow>
          let userID = (if rsAutoResolved ev then '''' else userIDFromReason (rsReason ev)) in
          snd (Resolve an (rsId ev) userID (timestampOrNow now (rsT ev)) (rsAutoResolved ev) db))"

text \<open>The three subjects, and a message on one of them with the time and the answer it meets.\<close>

datatype alert_kind = KRaised | KAcknowledged | KResolved

fun alert_leaf :: "alert_kind \<Rightarrow> string" where
  "alert_leaf KRaised = ''raised''"
| "alert_leaf KAcknowledged = ''acknowledged''"
| "alert_leaf KResolved = ''resolved''"

definition alert_subject :: "string \<Rightarrow> alert_kind \<Rightarrow> string" where
  "alert_subject roverID k = ''waypoint.'' @ roverID @ ''.alert.'' @ alert_leaf k"

record delivery =
  dlKind :: alert_kind
  dlData :: bytes
  dlNow :: time
  dlAnswer :: sql_answer

definition local_step :: "alert_codec \<Rightarrow> string \<Rightarrow> delivery \<Rightarrow> alert_table \<Rightarrow> alert_table" where
  "local_step cd roverID d db =
     (case dlKind d of
        KRaised \<Rightarrow> on_raised cd roverID (dlAnswer d) (dlNow d) (dlData d) db
      | KAcknowledged \<Rightarrow> on_acknowledged cd (dlAnswer d) (dlNow d) (dlData d) db
      | KResolved \<Rightarrow> on_resolved cd (dlAnswer d) (dlNow d) (dlData d) db)"

text \<open>A subscription that fails closes the ones before it; the result lists the open ones.\<close>

definition subscribe_three ::
  "(nat \<Rightarrow> string \<Rightarrow> string option) \<Rightarrow> (alert_kind \<Rightarrow> string) \<Rightarrow> conn \<Rightarrow> (string + nat list) \<times> conn" where
  "subscribe_three fails subj c =
     (case nc_subscribe fails (subj KRaised) (Handler ''raised'') c of
        (Inl e, c1) \<Rightarrow> (Inl e, c1)
      | (Inr raised, c1) \<Rightarrow>
     (case nc_subscribe fails (subj KAcknowledged) (Handler ''acknowledged'') c1 of
        (Inl e, c2) \<Rightarrow> (Inl e, nc_unsubscribe raised c2)
      | (Inr acked, c2) \<Rightarrow>
     (case nc_subscribe fails (subj KResolved) (Handler ''resolved'') c2 of
        (Inl e, c3) \<Rightarrow> (Inl e, nc_unsubscribe acked (nc_unsubscribe raised c3))
      | (Inr resolved, c3) \<Rightarrow> (Inr [raised, acked, resolved], c3))))"

definition StartLocalSubscriber ::
  "(nat \<Rightarrow> string \<Rightarrow> string option) \<Rightarrow> string \<Rightarrow> conn \<Rightarrow> (string + nat list) \<times> conn" where
  "StartLocalSubscriber fails roverID c = subscribe_three fails (alert_subject roverID) c"


section \<open>The publisher\<close>

definition PublishRaised ::
  "alert_codec \<Rightarrow> time \<Rightarrow> bool \<Rightarrow> string \<Rightarrow> string \<Rightarrow> int \<Rightarrow> string \<Rightarrow> string \<Rightarrow> string \<Rightarrow> (string \<times> string) list
    \<Rightarrow> (string \<times> bytes) list" where
  "PublishRaised cd now nc roverID i sev source code message metadata =
     (if i = '''' \<or> roverID = '''' \<or> \<not> nc then []
      else case ceRaised cd \<lparr>arT = Some now, arId = i, arSource = source, arSeverity = sev, arCode = code,
               arMessage = message, arMetadata = metadata\<rparr> of
             None \<Rightarrow> []
           | Some body \<Rightarrow> [(''waypoint.'' @ roverID @ ''.alert.raised'', body)])"

definition PublishResolved ::
  "alert_codec \<Rightarrow> time \<Rightarrow> bool \<Rightarrow> string \<Rightarrow> string \<Rightarrow> string \<Rightarrow> bool \<Rightarrow> (string \<times> bytes) list" where
  "PublishResolved cd now nc roverID i reason autoResolved =
     (if i = '''' \<or> roverID = '''' \<or> \<not> nc then []
      else case ceResolved cd \<lparr>rsT = Some now, rsId = i, rsReason = reason, rsAutoResolved = autoResolved\<rparr> of
             None \<Rightarrow> []
           | Some body \<Rightarrow> [(''waypoint.'' @ roverID @ ''.alert.resolved'', body)])"

definition DeterministicID :: "string \<Rightarrow> string \<Rightarrow> string \<Rightarrow> string" where
  "DeterministicID roverID source code = roverID @ '':'' @ source @ '':'' @ code"


section \<open>The leaf watcher\<close>

record leaf_watcher =
  lwSeen :: bool
  lwLast :: bool

datatype leaf_edge = LeafUp | LeafDown

definition NewLeafWatcher :: leaf_watcher where
  "NewLeafWatcher = \<lparr>lwSeen = False, lwLast = False\<rparr>"

text \<open>One poll: the callback it fires, if any.\<close>

definition lw_tick :: "nat \<Rightarrow> leaf_watcher \<Rightarrow> leaf_watcher \<times> leaf_edge option" where
  "lw_tick numLeafNodes w =
     (let connected = numLeafNodes > 0 in
      if \<not> lwSeen w then (w \<lparr>lwLast := connected, lwSeen := True\<rparr>, None)
      else if connected = lwLast w then (w, None)
      else (w \<lparr>lwLast := connected\<rparr>, Some (if connected then LeafUp else LeafDown)))"

text \<open>The callbacks that \<^verbatim>\<open>main.go\<close> gives the watcher.\<close>

definition proxyAlertID :: "string \<Rightarrow> string" where
  "proxyAlertID roverID = DeterministicID roverID ''agent.proxy'' ''proxy_disconnected''"

fun leaf_callback :: "alert_codec \<Rightarrow> time \<Rightarrow> string \<Rightarrow> leaf_edge option \<Rightarrow> (string \<times> bytes) list" where
  "leaf_callback cd now roverID None = []"
| "leaf_callback cd now roverID (Some LeafDown) =
     PublishRaised cd now True roverID (proxyAlertID roverID) 3 ''agent.proxy'' ''proxy_disconnected''
       ''leaf-node connection to proxy lost'' []"
| "leaf_callback cd now roverID (Some LeafUp) =
     PublishResolved cd now True roverID (proxyAlertID roverID) ''leaf reconnected'' True"

text \<open>The bus hands a published message to the subscriber of its subject.\<close>

definition deliver_local :: "alert_codec \<Rightarrow> string \<Rightarrow> time \<Rightarrow> sql_answer \<Rightarrow> string \<times> bytes \<Rightarrow> alert_table \<Rightarrow> alert_table" where
  "deliver_local cd roverID now an msg db =
     (case find (\<lambda>k. fst msg = alert_subject roverID k) [KRaised, KAcknowledged, KResolved] of
        None \<Rightarrow> db
      | Some k \<Rightarrow> local_step cd roverID \<lparr>dlKind = k, dlData = snd msg, dlNow = now, dlAnswer = an\<rparr> db)"

definition leaf_poll ::
  "alert_codec \<Rightarrow> string \<Rightarrow> nat \<times> time \<times> sql_answer \<Rightarrow> leaf_watcher \<times> alert_table \<Rightarrow> leaf_watcher \<times> alert_table" where
  "leaf_poll cd roverID p wd =
     (case p of (n, now, an) \<Rightarrow> case wd of (w, db) \<Rightarrow>
        case lw_tick n w of (w', edge) \<Rightarrow>
          (w', fold (deliver_local cd roverID now an) (leaf_callback cd now roverID edge) db))"


section \<open>What a store promises\<close>

text \<open>The life of alerts: a message raises, acknowledges or resolves one alert. The abstract state maps
  an id to its rover and its state.\<close>

datatype alert_life = LRaise string string | LAck string | LResolve string

fun life_id :: "alert_life \<Rightarrow> string" where
  "life_id (LRaise _ i) = i"
| "life_id (LAck i) = i"
| "life_id (LResolve i) = i"

definition set_state :: "string \<Rightarrow> string \<Rightarrow> (string \<rightharpoonup> string \<times> string) \<Rightarrow> (string \<rightharpoonup> string \<times> string)" where
  "set_state i st f = (case f i of None \<Rightarrow> f | Some (r, _) \<Rightarrow> f(i \<mapsto> (r, st)))"

fun life :: "alert_life \<Rightarrow> (string \<rightharpoonup> string \<times> string) \<Rightarrow> (string \<rightharpoonup> string \<times> string)" where
  "life (LRaise r i) f = f(i \<mapsto> (r, ''active''))"
| "life (LAck i) f = set_state i ''acknowledged'' f"
| "life (LResolve i) f = set_state i ''resolved'' f"

lemma life_other: "life_id l \<noteq> i \<Longrightarrow> life l f i = f i"
  by (cases l) (auto simp: set_state_def split: option.splits)

lemma life_cong: "life_id l = i \<Longrightarrow> f i = g i \<Longrightarrow> life l f i = life l g i"
  by (cases l) (auto simp: set_state_def split: option.splits)

lemma fold_life_local:
  "f i = g i \<Longrightarrow> fold life ls f i = fold life (filter (\<lambda>l. life_id l = i) ls) g i"
proof (induction ls arbitrary: f g)
  case (Cons l ls)
  show ?case
  proof (cases "life_id l = i")
    case True
    with Cons.IH [of "life l f" "life l g"] life_cong [of l i f g, OF True Cons.prems] show ?thesis by simp
  next
    case False
    with Cons.IH [of "life l f" g] life_other [OF False, of f] Cons.prems show ?thesis by simp
  qed
qed simp

locale alert_log =
  fixes abs :: "'s \<Rightarrow> string \<rightharpoonup> string \<times> string"
    and step :: "'m \<Rightarrow> 's \<Rightarrow> 's"
    and view :: "'m \<Rightarrow> alert_life option"
  assumes step_life: "abs (step m s) = (case view m of None \<Rightarrow> abs s | Some l \<Rightarrow> life l (abs s))"
begin

lemma run_life: "abs (fold step ms s) = fold life (List.map_filter view ms) (abs s)"
  by (induction ms arbitrary: s) (auto simp: step_life List.map_filter_simps split: option.splits)

lemma run_local:
  "abs (fold step ms s) i = fold life (filter (\<lambda>l. life_id l = i) (List.map_filter view ms)) (abs s) i"
  unfolding run_life by (rule fold_life_local) (rule refl)

lemma step_other: "(\<And>l. view m = Some l \<Longrightarrow> life_id l \<noteq> i) \<Longrightarrow> abs (step m s) i = abs s i"
  by (auto simp: step_life life_other split: option.splits)

end

definition local_abs :: "alert_table \<Rightarrow> string \<rightharpoonup> string \<times> string" where
  "local_abs db i = map_option (\<lambda>r. (acRoverID r, acState r)) (map_of db i)"

definition local_view :: "alert_codec \<Rightarrow> string \<Rightarrow> delivery \<Rightarrow> alert_life option" where
  "local_view cd roverID d =
     (if sqExec (dlAnswer d) \<noteq> None then None
      else case dlKind d of
        KRaised \<Rightarrow> map_option (LRaise roverID \<circ> arId) (cdRaised cd (dlData d))
      | KAcknowledged \<Rightarrow> map_option (LAck \<circ> akId) (cdAcked cd (dlData d))
      | KResolved \<Rightarrow> map_option (LResolve \<circ> rsId) (cdResolved cd (dlData d)))"

lemma local_abs_set: "local_abs (map_set i r db) = (local_abs db)(i \<mapsto> (acRoverID r, acState r))"
  by (auto simp: local_abs_def)

lemma local_abs_update:
  assumes "sqExec an = None" "\<And>r. acRoverID (f r) = acRoverID r" "\<And>r. acState (f r) = st"
  shows "local_abs (snd (update_row an i f db)) = set_state i st (local_abs db)"
  using assms
  by (cases "map_of db i") (auto simp: update_row_def set_state_def local_abs_set local_abs_def)

lemmas subscriber_defs = local_step_def on_raised_def on_acknowledged_def on_resolved_def Let_def

interpretation local_log: alert_log local_abs "local_step cd roverID" "local_view cd roverID" for cd roverID
proof
  fix d :: delivery and db
  let ?an = "dlAnswer d"
  show "local_abs (local_step cd roverID d db) =
      (case local_view cd roverID d of None \<Rightarrow> local_abs db | Some l \<Rightarrow> life l (local_abs db))"
  proof (cases "sqExec ?an")
    case None
    then show ?thesis
      by (cases "dlKind d") (auto simp: subscriber_defs local_view_def Raise_def Acknowledge_def Resolve_def
          local_abs_set local_abs_update split: option.splits)
  next
    case (Some e)
    then show ?thesis
      by (auto simp: subscriber_defs local_view_def Raise_def Acknowledge_def Resolve_def update_row_failed
          split: option.splits alert_kind.splits)
  qed
qed

lemma local_step_wf: "wf_map db \<Longrightarrow> wf_map (local_step cd roverID d db)"
  by (cases "dlKind d") (auto simp: subscriber_defs Raise_def Acknowledge_def Resolve_def update_row_wf split: option.splits)

lemma listed_iff:
  assumes "wf_map db"
  shows "\<exists>as. ListActive None roverID db = Inr as \<and>
    ((\<exists>a \<in> set as. saID a = i) \<longleftrightarrow> (\<exists>r st. local_abs db i = Some (r, st) \<and> st \<noteq> ''resolved'' \<and> of_rover roverID r))"
proof -
  let ?P = "\<lambda>ir. acState (snd ir) \<noteq> ''resolved'' \<and> of_rover roverID (acRoverID (snd ir))"
  let ?as = "map scan_row (sort_key (\<lambda>ir. - acRaisedAt (snd ir)) (filter ?P db))"
  have "ListActive None roverID db = Inr ?as" by (simp add: ListActive_def queryRows_def)
  moreover have "(\<exists>a \<in> set ?as. saID a = i) \<longleftrightarrow> (\<exists>r. (i, r) \<in> set db \<and> ?P (i, r))"
    by (force simp: scan_row_def)
  ultimately show ?thesis using assms by (auto simp: wf_map_lookup local_abs_def)
qed


section \<open>The alert about the link to the proxy\<close>

text \<open>What happens to the store between two moments: polls of the watcher, and other alert messages.\<close>

datatype rover_event = Poll nat time sql_answer | Message delivery

fun rover_step :: "alert_codec \<Rightarrow> string \<Rightarrow> rover_event \<Rightarrow> leaf_watcher \<times> alert_table \<Rightarrow> leaf_watcher \<times> alert_table" where
  "rover_step cd roverID (Poll n now an) wd = leaf_poll cd roverID (n, now, an) wd"
| "rover_step cd roverID (Message d) wd = (fst wd, local_step cd roverID d (snd wd))"

fun polls :: "rover_event list \<Rightarrow> nat list" where
  "polls [] = []"
| "polls (Poll n now an # es) = n # polls es"
| "polls (Message d # es) = polls es"

lemma polls_append [simp]: "polls (es @ fs) = polls es @ polls fs"
  by (induction es rule: polls.induct) auto

text \<open>Events under which the alert follows the link: the polls' statements succeed, and no other
  message is about the alert.\<close>

fun quiet_event :: "alert_codec \<Rightarrow> string \<Rightarrow> rover_event \<Rightarrow> bool" where
  "quiet_event cd roverID (Poll n now an) \<longleftrightarrow> sqExec an = None"
| "quiet_event cd roverID (Message d) \<longleftrightarrow> (\<forall>l. local_view cd roverID d = Some l \<longrightarrow> life_id l \<noteq> proxyAlertID roverID)"

text \<open>The codecs read back what they wrote.\<close>

definition codec_ok :: "alert_codec \<Rightarrow> bool" where
  "codec_ok cd \<longleftrightarrow>
     (\<forall>ev. \<exists>b. ceRaised cd ev = Some b \<and> cdRaised cd b = Some ev) \<and>
     (\<forall>ev. \<exists>b. ceAcked cd ev = Some b \<and> cdAcked cd b = Some ev) \<and>
     (\<forall>ev. \<exists>b. ceResolved cd ev = Some b \<and> cdResolved cd b = Some ev)"

lemma alert_subject_eq [simp]: "alert_subject r k = alert_subject r k' \<longleftrightarrow> k = k'"
  by (cases k; cases k') (simp_all add: alert_subject_def)

lemma find_subject [simp]:
  "find (\<lambda>k'. alert_subject r k = alert_subject r k') [KRaised, KAcknowledged, KResolved] = Some k"
  by (cases k) simp_all

lemma deliver_local_subject:
  "deliver_local cd r now an (alert_subject r k, data) db =
     local_step cd r \<lparr>dlKind = k, dlData = data, dlNow = now, dlAnswer = an\<rparr> db"
  unfolding deliver_local_def fst_conv snd_conv find_subject by simp

lemma proxyAlertID_nonempty [simp]: "proxyAlertID r \<noteq> ''''"
  by (simp add: proxyAlertID_def DeterministicID_def)

lemma leaf_callback_effect:
  assumes "codec_ok cd" "roverID \<noteq> ''''" "sqExec an = None"
  shows "local_abs (fold (deliver_local cd roverID now an) (leaf_callback cd now roverID edge) db) =
    (case edge of None \<Rightarrow> local_abs db
     | Some LeafDown \<Rightarrow> life (LRaise roverID (proxyAlertID roverID)) (local_abs db)
     | Some LeafUp \<Rightarrow> life (LResolve (proxyAlertID roverID)) (local_abs db))"
proof (cases "(cd, now, roverID, edge)" rule: leaf_callback.cases)
  case (2 cd' now' roverID')
  let ?ev = "\<lparr>arT = Some now, arId = proxyAlertID roverID, arSource = ''agent.proxy'', arSeverity = 3,
      arCode = ''proxy_disconnected'', arMessage = ''leaf-node connection to proxy lost'', arMetadata = []\<rparr>"
  obtain b where b: "ceRaised cd ?ev = Some b" "cdRaised cd b = Some ?ev"
    using assms(1) unfolding codec_ok_def by blast
  have "leaf_callback cd now roverID (Some LeafDown) = [(alert_subject roverID KRaised, b)]"
    using b(1) assms(2) by (simp add: PublishRaised_def alert_subject_def)
  then show ?thesis using 2 b(2) assms(3)
    by (simp add: deliver_local_subject local_log.step_life local_view_def)
next
  case (3 cd' now' roverID')
  let ?ev = "\<lparr>rsT = Some now, rsId = proxyAlertID roverID, rsReason = ''leaf reconnected'', rsAutoResolved = True\<rparr>"
  obtain b where b: "ceResolved cd ?ev = Some b" "cdResolved cd b = Some ?ev"
    using assms(1) unfolding codec_ok_def by blast
  have "leaf_callback cd now roverID (Some LeafUp) = [(alert_subject roverID KResolved, b)]"
    using b(1) assms(2) by (simp add: PublishResolved_def alert_subject_def)
  then show ?thesis using 3 b(2) assms(3)
    by (simp add: deliver_local_subject local_log.step_life local_view_def)
qed simp

text \<open>What watcher and store agree on after the polls \<open>ns\<close>: the last poll, and that the alert is
  open exactly while the link is down.\<close>

definition link_inv :: "string \<Rightarrow> nat list \<Rightarrow> leaf_watcher \<times> alert_table \<Rightarrow> bool" where
  "link_inv roverID ns wd \<longleftrightarrow>
     (let al = local_abs (snd wd) (proxyAlertID roverID);
          closed = (case al of None \<Rightarrow> True | Some (_, st) \<Rightarrow> st = ''resolved'') in
      wf_map (snd wd) \<and>
      (if ns = [] then \<not> lwSeen (fst wd) \<and> closed
       else lwSeen (fst wd) \<and> lwLast (fst wd) = (last ns > 0) \<and>
            (if last ns > 0 then closed else al = Some (roverID, ''active''))))"

lemma deliver_local_wf: "wf_map db \<Longrightarrow> wf_map (deliver_local cd roverID now an msg db)"
  by (auto simp: deliver_local_def local_step_wf split: option.splits)

lemma fold_deliver_wf: "wf_map db \<Longrightarrow> wf_map (fold (deliver_local cd roverID now an) ms db)"
  by (induction ms arbitrary: db) (auto simp: deliver_local_wf)

lemma link_inv_poll:
  assumes "codec_ok cd" "roverID \<noteq> ''''" "sqExec an = None" "link_inv roverID ns wd" "ns = [] \<Longrightarrow> n > 0"
  shows "link_inv roverID (ns @ [n]) (leaf_poll cd roverID (n, now, an) wd)"
proof -
  obtain w db where wd: "wd = (w, db)" by (rule prod.exhaust)
  obtain w' edge where t: "lw_tick n w = (w', edge)" by (rule prod.exhaust)
  have run: "leaf_poll cd roverID (n, now, an) wd =
      (w', fold (deliver_local cd roverID now an) (leaf_callback cd now roverID edge) db)"
    by (simp add: leaf_poll_def wd t)
  note eff = leaf_callback_effect [OF assms(1-3), of now edge db]
  have "wf_map (fold (deliver_local cd roverID now an) (leaf_callback cd now roverID edge) db)"
    using assms(4) by (auto simp: link_inv_def wd Let_def fold_deliver_wf)
  then show ?thesis
    unfolding run using assms(4,5) t
    by (auto simp: link_inv_def wd) (auto simp: eff Let_def lw_tick_def set_state_def split: if_splits option.splits prod.splits)
qed

lemma link_inv_message:
  assumes "quiet_event cd roverID (Message d)" "link_inv roverID ns wd"
  shows "link_inv roverID ns (rover_step cd roverID (Message d) wd)"
proof -
  have "local_abs (local_step cd roverID d (snd wd)) (proxyAlertID roverID) = local_abs (snd wd) (proxyAlertID roverID)"
    using assms(1) by (intro local_log.step_other) auto
  then show ?thesis using assms(2) by (simp add: link_inv_def Let_def local_step_wf)
qed

lemma link_inv_run:
  assumes "codec_ok cd" "roverID \<noteq> ''''" "\<forall>e \<in> set es. quiet_event cd roverID e" "polls es \<noteq> [] \<Longrightarrow> hd (polls es) > 0"
    "link_inv roverID [] wd"
  shows "link_inv roverID (polls es) (fold (rover_step cd roverID) es wd)"
  using assms(3,4)
proof (induction es rule: rev_induct)
  case Nil
  then show ?case using assms(5) by simp
next
  case (snoc e es)
  have "link_inv roverID (polls es) (fold (rover_step cd roverID) es wd)"
    using snoc by (cases "polls es = []") auto
  then show ?case
  proof (cases e)
    case (Poll n now an)
    then show ?thesis
      using snoc.prems link_inv_poll [OF assms(1,2) _ \<open>link_inv roverID (polls es) _\<close>, of an n now]
      by (cases "polls es = []") auto
  next
    case (Message d)
    then show ?thesis using snoc.prems link_inv_message [OF _ \<open>link_inv roverID (polls es) _\<close>, of cd d] by simp
  qed
qed



definition alert_raised_tuple where
  "alert_raised_tuple ev = (arT ev, arId ev, arSource ev, arSeverity ev, arCode ev, arMessage ev, arMetadata ev)"

definition demo_w_raised :: "alert_raised writer" where
  "demo_w_raised = w_map alert_raised_tuple (w_pair (w_option w_int) (w_pair w_string (w_pair w_string
     (w_pair w_int (w_pair w_string (w_pair w_string (w_list (w_pair w_string w_string))))))))"

definition demo_r_raised :: "alert_raised reader" where
  "demo_r_raised = r_map (\<lambda>(t, i, s, v, c, m, d). \<lparr>arT = t, arId = i, arSource = s, arSeverity = v, arCode = c,
     arMessage = m, arMetadata = d\<rparr>) (r_pair (r_option r_int) (r_pair r_string (r_pair r_string
     (r_pair r_int (r_pair r_string (r_pair r_string (r_list (r_pair r_string r_string))))))))"

definition demo_w_acked :: "alert_acknowledged writer" where
  "demo_w_acked = w_map (\<lambda>ev. (akT ev, akId ev, akUserId ev)) (w_pair (w_option w_int) (w_pair w_string w_string))"

definition demo_r_acked :: "alert_acknowledged reader" where
  "demo_r_acked = r_map (\<lambda>(t, i, u). \<lparr>akT = t, akId = i, akUserId = u\<rparr>) (r_pair (r_option r_int) (r_pair r_string r_string))"

definition demo_w_resolved :: "alert_resolved writer" where
  "demo_w_resolved = w_map (\<lambda>ev. (rsT ev, rsId ev, rsReason ev, rsAutoResolved ev))
     (w_pair (w_option w_int) (w_pair w_string (w_pair w_string w_bool)))"

definition demo_r_resolved :: "alert_resolved reader" where
  "demo_r_resolved = r_map (\<lambda>(t, i, s, a). \<lparr>rsT = t, rsId = i, rsReason = s, rsAutoResolved = a\<rparr>)
     (r_pair (r_option r_int) (r_pair r_string (r_pair r_string r_bool)))"

definition demo_codec :: alert_codec where
  "demo_codec = \<lparr>cdRaised = decode_with demo_r_raised, cdAcked = decode_with demo_r_acked,
     cdResolved = decode_with demo_r_resolved, ceRaised = Some \<circ> demo_w_raised, ceAcked = Some \<circ> demo_w_acked,
     ceResolved = Some \<circ> demo_w_resolved, cdJSON = (\<lambda>m. Some (concat (map (\<lambda>(k, v). k @ ''='' @ v) m)))\<rparr>"

lemma demo_wire:
  "wire_ok demo_w_raised demo_r_raised" "wire_ok demo_w_acked demo_r_acked" "wire_ok demo_w_resolved demo_r_resolved"
  unfolding demo_w_raised_def demo_r_raised_def demo_w_acked_def demo_r_acked_def demo_w_resolved_def demo_r_resolved_def
  by (intro wire_map wire_pair wire_option wire_list wire_int wire_string wire_bool; simp add: alert_raised_tuple_def)+

lemma demo_codec_ok: "codec_ok demo_codec"
  by (simp add: codec_ok_def demo_codec_def decode_with_ok [OF demo_wire(1)] decode_with_ok [OF demo_wire(2)]
      decode_with_ok [OF demo_wire(3)])



text \<open>An alert that is still open when the agent restarts stays open while the link is up: the first
  poll is only a baseline, so no edge resolves it.\<close>

lemma stale_alert_after_restart:
  assumes "\<forall>e \<in> set es. quiet_event cd roverID e" "\<forall>n \<in> set (polls es). n > 0"
  shows "local_abs (snd (fold (rover_step cd roverID) es (NewLeafWatcher, db))) (proxyAlertID roverID) =
    local_abs db (proxyAlertID roverID)"
proof -
  define same where "same ns wd \<longleftrightarrow> local_abs (snd wd) (proxyAlertID roverID) = local_abs db (proxyAlertID roverID) \<and>
      lwSeen (fst wd) = (ns \<noteq> []) \<and> (lwSeen (fst wd) \<longrightarrow> lwLast (fst wd))"
    for ns :: "nat list" and wd :: "leaf_watcher \<times> alert_table"
  have "same (polls es) (fold (rover_step cd roverID) es (NewLeafWatcher, db))"
    using assms
  proof (induction es rule: rev_induct)
    case Nil
    show ?case by (simp add: same_def NewLeafWatcher_def)
  next
    case (snoc e es)
    let ?wd = "fold (rover_step cd roverID) es (NewLeafWatcher, db)"
    have IH: "same (polls es) ?wd" using snoc by simp
    show ?case
    proof (cases e)
      case (Poll n now an)
      with snoc.prems have "n > 0" by simp
      then have "lw_tick n (fst ?wd) = ((fst ?wd) \<lparr>lwLast := True, lwSeen := True\<rparr>, None)"
        using IH by (cases "fst ?wd") (auto simp: lw_tick_def same_def)
      then have "leaf_poll cd roverID (n, now, an) ?wd = ((fst ?wd) \<lparr>lwLast := True, lwSeen := True\<rparr>, snd ?wd)"
        by (simp add: leaf_poll_def case_prod_beta)
      then show ?thesis using IH Poll by (simp add: same_def)
    next
      case (Message d)
      have "local_abs (local_step cd roverID d (snd ?wd)) (proxyAlertID roverID) = local_abs (snd ?wd) (proxyAlertID roverID)"
        using snoc.prems Message by (intro local_log.step_other) auto
      then show ?thesis using IH Message by (simp add: same_def)
    qed
  qed
  then show ?thesis by (simp add: same_def)
qed

text \<open>A subscriber that could not open all its subscriptions leaves none behind; one that could owns
  exactly its three.\<close>

lemma subscribe_three_open:
  assumes "conn_inv c" "subscribe_three fails subj c = (res, c')"
  shows "conn_inv c' \<and> open_ids c' = open_ids c + (case res of Inl _ \<Rightarrow> {#} | Inr ids \<Rightarrow> mset ids)"
proof -
  obtain r1 c1 where 1: "nc_subscribe fails (subj KRaised) (Handler ''raised'') c = (r1, c1)" by (rule prod.exhaust)
  obtain r2 c2 where 2: "nc_subscribe fails (subj KAcknowledged) (Handler ''acknowledged'') c1 = (r2, c2)" by (rule prod.exhaust)
  obtain r3 c3 where 3: "nc_subscribe fails (subj KResolved) (Handler ''resolved'') c2 = (r3, c3)" by (rule prod.exhaust)
  note subs = nc_subscribe_Inr nc_subscribe_Inl nc_unsubscribe_open
  show ?thesis
  proof (cases r1)
    case (Inl e)
    then show ?thesis using assms 1 nc_subscribe_Inl [of fails _ _ c e c1] by (auto simp: subscribe_three_def)
  next
    case i1: (Inr a)
    note s1 = nc_subscribe_Inr [OF 1 [unfolded i1] assms(1)]
    show ?thesis
    proof (cases r2)
      case (Inl e)
      note s2 = nc_subscribe_Inl [OF 2 [unfolded Inl] s1(1)]
      then show ?thesis using assms(2) 1 2 i1 Inl s1 nc_unsubscribe_open [OF s2(1), of a]
        by (auto simp: subscribe_three_def)
    next
      case i2: (Inr b)
      note s2 = nc_subscribe_Inr [OF 2 [unfolded i2] s1(1)]
      show ?thesis
      proof (cases r3)
        case (Inl e)
        note s3 = nc_subscribe_Inl [OF 3 [unfolded Inl] s2(1)]
        note u = nc_unsubscribe_open [OF s3(1), of a]
        from nc_unsubscribe_open [OF u(1), of b] u show ?thesis using assms(2) 1 2 3 i1 i2 Inl s1 s2 s3
          by (auto simp: subscribe_three_def)
      next
        case i3: (Inr d)
        note s3 = nc_subscribe_Inr [OF 3 [unfolded i3] s2(1)]
        then show ?thesis using assms(2) 1 2 3 i1 i2 i3 s1 s2 by (auto simp: subscribe_three_def)
      qed
    qed
  qed
qed

end
