(* ===== verification/AlertMirror.thy ===== *)
theory AlertMirror
  imports Alerts Access NetText
begin

text \<open>
  The proxy's copy of the alerts of all rovers: the Postgres repository
  (\<^verbatim>\<open>proxy/internal/db/alerts_repo.go\<close>), the subscriber that mirrors every rover's alert messages into
  it (\<^verbatim>\<open>proxy/internal/alerts/mirror.go\<close>), the role lookup (\<^verbatim>\<open>db/access.go\<close>) and the HTTP handlers
  (\<^verbatim>\<open>proxy/internal/api/alerts.go\<close>). The foreign keys and the enumeration types of the schema refuse
  statements as they do in the database. UUIDs are values of an argument type with the library's
  parser and printer; the driver's rounding of times and the normal form of JSONB are arguments.
\<close>

section \<open>The repository\<close>

record 'u alert_row =
  paID :: string
  paRoverID :: string
  paSeverity :: string
  paSource :: string
  paCode :: string
  paMessage :: string
  paMetadata :: string
  paRaisedAt :: time
  paState :: string
  paAcknowledgedAt :: "time option"
  paAcknowledgedBy :: "'u option"
  paResolvedAt :: "time option"
  paResolvedBy :: "'u option"
  paAutoResolved :: bool

record 'u pg_cols =
  pgRoverID :: string
  pgSeverity :: string
  pgSource :: string
  pgCode :: string
  pgMessage :: string
  pgMetadata :: "string option"
  pgRaisedAt :: time
  pgState :: string
  pgAcknowledgedAt :: "time option"
  pgAcknowledgedBy :: "'u option"
  pgResolvedAt :: "time option"
  pgResolvedBy :: "'u option"
  pgAutoResolved :: bool

type_synonym 'u pg_alerts = "(string \<times> 'u pg_cols) list"

text \<open>The rest of the database and the libraries: registered rovers and users, the driver's times and
  JSON values, and UUIDs as strings.\<close>

record 'u proxy_env =
  pxRovers :: "string list"
  pxUsers :: "'u list"
  pxTime :: "time \<Rightarrow> time"
  pxJson :: "string \<Rightarrow> string"
  pxParse :: "string \<Rightarrow> 'u option"
  pxString :: "'u \<Rightarrow> string"

definition alert_severities :: "string list" where
  "alert_severities = [''info'', ''warning'', ''critical'']"

definition repo_Raise ::
  "'u proxy_env \<Rightarrow> sql_answer \<Rightarrow> 'u alert_row \<Rightarrow> 'u pg_alerts \<Rightarrow> sql_error option \<times> 'u pg_alerts" where
  "repo_Raise px an a db =
     (case sqExec an of
        Some e \<Rightarrow> (Some (SqlError e), db)
      | None \<Rightarrow>
          if paSeverity a \<notin> set alert_severities then (Some (SqlError ''invalid alert_severity''), db)
          else if paRoverID a \<notin> set (pxRovers px) then (Some (SqlError ''foreign key rover_id''), db)
          else (None, map_set (paID a)
            \<lparr>pgRoverID = paRoverID a, pgSeverity = paSeverity a, pgSource = paSource a, pgCode = paCode a,
             pgMessage = paMessage a, pgMetadata = map_option (pxJson px) (nullableString (paMetadata a)),
             pgRaisedAt = pxTime px (paRaisedAt a), pgState = ''active'', pgAcknowledgedAt = None,
             pgAcknowledgedBy = None, pgResolvedAt = None, pgResolvedBy = None, pgAutoResolved = False\<rparr> db))"

text \<open>An UPDATE that sets a user checks the foreign key on the rows it touches.\<close>

definition update_by ::
  "'u proxy_env \<Rightarrow> sql_answer \<Rightarrow> string \<Rightarrow> 'u option \<Rightarrow> ('u pg_cols \<Rightarrow> 'u pg_cols) \<Rightarrow> 'u pg_alerts
    \<Rightarrow> sql_error option \<times> 'u pg_alerts" where
  "update_by px an i user f db =
     (case sqExec an of
        Some e \<Rightarrow> (Some (SqlError e), db)
      | None \<Rightarrow>
          (case map_of db i of
             None \<Rightarrow> (Some ErrNoRows, db)
           | Some r \<Rightarrow>
               if user \<noteq> None \<and> the user \<notin> set (pxUsers px) then (Some (SqlError ''foreign key users''), db)
               else (None, map_set i (f r) db)))"

definition repo_Acknowledge ::
  "'u proxy_env \<Rightarrow> sql_answer \<Rightarrow> string \<Rightarrow> 'u \<Rightarrow> time \<Rightarrow> 'u pg_alerts \<Rightarrow> sql_error option \<times> 'u pg_alerts" where
  "repo_Acknowledge px an i userID tm db =
     update_by px an i (Some userID) (\<lambda>r. r \<lparr>pgState := ''acknowledged'',
       pgAcknowledgedAt := Some (pxTime px tm), pgAcknowledgedBy := Some userID\<rparr>) db"

definition repo_Resolve ::
  "'u proxy_env \<Rightarrow> sql_answer \<Rightarrow> string \<Rightarrow> 'u option \<Rightarrow> time \<Rightarrow> bool \<Rightarrow> 'u pg_alerts \<Rightarrow> sql_error option \<times> 'u pg_alerts" where
  "repo_Resolve px an i userID tm autoResolved db =
     update_by px an i userID (\<lambda>r. r \<lparr>pgState := ''resolved'', pgResolvedAt := Some (pxTime px tm),
       pgResolvedBy := userID, pgAutoResolved := autoResolved\<rparr>) db"

definition scan_alert :: "string \<times> 'u pg_cols \<Rightarrow> 'u alert_row" where
  "scan_alert ir = (case ir of (i, r) \<Rightarrow>
     \<lparr>paID = i, paRoverID = pgRoverID r, paSeverity = pgSeverity r, paSource = pgSource r, paCode = pgCode r,
      paMessage = pgMessage r, paMetadata = or_empty (pgMetadata r), paRaisedAt = pgRaisedAt r,
      paState = pgState r, paAcknowledgedAt = pgAcknowledgedAt r, paAcknowledgedBy = pgAcknowledgedBy r,
      paResolvedAt = pgResolvedAt r, paResolvedBy = pgResolvedBy r, paAutoResolved = pgAutoResolved r\<rparr>)"

definition repo_GetByID :: "string option \<Rightarrow> string \<Rightarrow> 'u pg_alerts \<Rightarrow> sql_error + 'u alert_row" where
  "repo_GetByID e i db =
     (case e of
        Some m \<Rightarrow> Inl (SqlError m)
      | None \<Rightarrow> (case map_of db i of None \<Rightarrow> Inl ErrNoRows | Some r \<Rightarrow> Inr (scan_alert (i, r))))"

definition repo_queryRows :: "string option \<Rightarrow> 'u pg_alerts \<Rightarrow> sql_error + 'u alert_row list" where
  "repo_queryRows e sel = (case e of Some m \<Rightarrow> Inl (SqlError m) | None \<Rightarrow> Inr (map scan_alert sel))"

definition repo_ListActive :: "string option \<Rightarrow> string \<Rightarrow> 'u pg_alerts \<Rightarrow> sql_error + 'u alert_row list" where
  "repo_ListActive e roverID db =
     repo_queryRows e (sort_key (\<lambda>ir. - pgRaisedAt (snd ir))
       (filter (\<lambda>ir. pgState (snd ir) \<noteq> ''resolved'' \<and> of_rover roverID (pgRoverID (snd ir))) db))"

definition repo_GetHistory ::
  "'u proxy_env \<Rightarrow> string option \<Rightarrow> string \<Rightarrow> time \<Rightarrow> 'u pg_alerts \<Rightarrow> sql_error + 'u alert_row list" where
  "repo_GetHistory px e roverID since db =
     repo_queryRows e (sort_key (\<lambda>ir. - pgRaisedAt (snd ir))
       (filter (\<lambda>ir. pgRaisedAt (snd ir) \<ge> pxTime px since \<and> of_rover roverID (pgRoverID (snd ir))) db))"


section \<open>The mirror\<close>

text \<open>\<^verbatim>\<open>strings.SplitN(subject, ".", 3)\<close>: its first two parts are those of the full split.\<close>

definition extractRoverID :: "string \<Rightarrow> string" where
  "extractRoverID subject =
     (case split_at_char CHR ''.'' subject of
        p0 # p1 # _ \<Rightarrow> if p0 \<noteq> ''waypoint'' then '''' else p1
      | _ \<Rightarrow> '''')"

definition mirror_severity :: "int \<Rightarrow> string" where
  "mirror_severity v =
     (if v = 1 then ''info'' else if v = 2 then ''warning'' else if v = 3 then ''critical'' else ''info'')"

definition parseUserFromReason :: "'u proxy_env \<Rightarrow> string \<Rightarrow> 'u option" where
  "parseUserFromReason px reason =
     (if \<not> has_prefix reason ''user:'' then None else pxParse px (trim_prefix reason ''user:''))"

definition mirror_raised ::
  "alert_codec \<Rightarrow> 'u proxy_env \<Rightarrow> sql_answer \<Rightarrow> time \<Rightarrow> string \<Rightarrow> bytes \<Rightarrow> 'u pg_alerts \<Rightarrow> 'u pg_alerts" where
  "mirror_raised cd px an now subj data db =
     (let roverID = extractRoverID subj in
      if roverID = '''' then db
      else case cdRaised cd data of
        None \<Rightarrow> db
      | Some ev \<Rightarrow> snd (repo_Raise px an
          \<lparr>paID = arId ev, paRoverID = roverID, paSeverity = mirror_severity (arSeverity ev),
           paSource = arSource ev, paCode = arCode ev, paMessage = arMessage ev,
           paMetadata = marshalMetadata cd (arMetadata ev), paRaisedAt = timestampOrNow now (arT ev),
           paState = '''', paAcknowledgedAt = None, paAcknowledgedBy = None, paResolvedAt = None,
           paResolvedBy = None, paAutoResolved = False\<rparr> db))"

definition mirror_acknowledged ::
  "alert_codec \<Rightarrow> 'u proxy_env \<Rightarrow> sql_answer \<Rightarrow> time \<Rightarrow> string \<Rightarrow> bytes \<Rightarrow> 'u pg_alerts \<Rightarrow> 'u pg_alerts" where
  "mirror_acknowledged cd px an now subj data db =
     (let roverID = extractRoverID subj in
      if roverID = '''' then db
      else case cdAcked cd data of
        None \<Rightarrow> db
      | Some ev \<Rightarrow>
          (case pxParse px (akUserId ev) of
             None \<Rightarrow> db
           | Some uid \<Rightarrow> snd (repo_Acknowledge px an (akId ev) uid (timestampOrNow now (akT ev)) db)))"

definition mirror_resolved ::
  "alert_codec \<Rightarrow> 'u proxy_env \<Rightarrow> sql_answer \<Rightarrow> time \<Rightarrow> string \<Rightarrow> bytes \<Rightarrow> 'u pg_alerts \<Rightarrow> 'u pg_alerts" where
  "mirror_resolved cd px an now subj data db =
     (let roverID = extractRoverID subj in
      if roverID = '''' then db
      else case cdResolved cd data of
        None \<Rightarrow> db
      | Some ev \<Rightarrow>
          let resolve = (\<lambda>userID. snd (repo_Resolve px an (rsId ev) userID (timestampOrNow now (rsT ev))
                          (rsAutoResolved ev) db)) in
          if \<not> rsAutoResolved ev then
            (case parseUserFromReason px (rsReason ev) of None \<Rightarrow> db | Some parsed \<Rightarrow> resolve (Some parsed))
          else resolve None)"

text \<open>A message on the hub: the rover in its subject, and the delivery at the proxy.\<close>

definition mirror_step ::
  "alert_codec \<Rightarrow> 'u proxy_env \<Rightarrow> string \<times> delivery \<Rightarrow> 'u pg_alerts \<Rightarrow> 'u pg_alerts" where
  "mirror_step cd px rd db =
     (case rd of (rover, d) \<Rightarrow>
        let subj = alert_subject rover (dlKind d) in
        case dlKind d of
          KRaised \<Rightarrow> mirror_raised cd px (dlAnswer d) (dlNow d) subj (dlData d) db
        | KAcknowledged \<Rightarrow> mirror_acknowledged cd px (dlAnswer d) (dlNow d) subj (dlData d) db
        | KResolved \<Rightarrow> mirror_resolved cd px (dlAnswer d) (dlNow d) subj (dlData d) db)"

definition StartMirror :: "(nat \<Rightarrow> string \<Rightarrow> string option) \<Rightarrow> conn \<Rightarrow> (string + nat list) \<times> conn" where
  "StartMirror fails c = subscribe_three fails (\<lambda>k. ''waypoint.*.alert.'' @ alert_leaf k) c"


section \<open>The HTTP handlers\<close>

definition hasControlOrAdmin :: "string \<Rightarrow> bool" where
  "hasControlOrAdmin role \<longleftrightarrow> role = ''control'' \<or> role = ''admin''"

text \<open>\<^verbatim>\<open>GET /api/alerts\<close>: the status, and the rows of a 200 answer. \<open>limit\<close> and \<open>rover\<close> are the query
  parameters, empty when absent.\<close>

definition alerts_limit :: "string \<Rightarrow> nat option" where
  "alerts_limit limit =
     (if limit = '''' then Some 100
      else case Atoi limit of
        None \<Rightarrow> None
      | Some n \<Rightarrow> if n \<le> 0 then None else Some (nat (min n 500)))"

definition newAlertsListHandler ::
  "string option \<Rightarrow> string option \<Rightarrow> 'u access_table \<Rightarrow> 'u pg_alerts \<Rightarrow> 'u current_user option \<Rightarrow> string \<Rightarrow> string
    \<Rightarrow> nat \<times> 'u alert_row list" where
  "newAlertsListHandler eRole eList tab db user rover limit =
     (case user of
        None \<Rightarrow> (401, [])
      | Some u \<Rightarrow>
          let list = (case alerts_limit limit of
                None \<Rightarrow> (400, [])
              | Some n \<Rightarrow>
                  (case repo_ListActive eList rover db of
                     Inl e \<Rightarrow> (500, [])
                   | Inr rows \<Rightarrow> (200, if length rows > n then take n rows else rows)))
          in if cuIsAdmin u then list
             else if rover \<noteq> '''' then
               (case RoleFor eRole (cuID u) rover tab of
                  Inl e \<Rightarrow> (500, [])
                | Inr role \<Rightarrow> if role = '''' then (403, []) else list)
             else (400, []))"

text \<open>What \<^verbatim>\<open>POST /api/alerts/{id}/acknowledge\<close> and \<^verbatim>\<open>.../resolve\<close> share: everything up to the
  statement. \<open>act\<close> gets the alert's rover.\<close>

definition with_alert ::
  "string option \<Rightarrow> string option \<Rightarrow> 'u access_table \<Rightarrow> 'u current_user option \<Rightarrow> string \<Rightarrow> 'u pg_alerts
    \<Rightarrow> ('u \<Rightarrow> string \<Rightarrow> nat \<times> 'u pg_alerts \<times> (string \<times> bytes) list) \<Rightarrow> nat \<times> 'u pg_alerts \<times> (string \<times> bytes) list" where
  "with_alert eGet eRole tab user i db act =
     (case user of
        None \<Rightarrow> (401, db, [])
      | Some u \<Rightarrow>
          if i = '''' then (400, db, [])
          else case repo_GetByID eGet i db of
            Inl e \<Rightarrow> (if e = ErrNoRows then 404 else 500, db, [])
          | Inr alert \<Rightarrow>
              if cuIsAdmin u then act (cuID u) (paRoverID alert)
              else (case RoleFor eRole (cuID u) (paRoverID alert) tab of
                  Inl e \<Rightarrow> (500, db, [])
                | Inr role \<Rightarrow> if \<not> hasControlOrAdmin role then (403, db, []) else act (cuID u) (paRoverID alert)))"

text \<open>The statement's outcome: an error is answered, a success is published. A body that does not
  marshal is published empty.\<close>

definition answer_change ::
  "sql_error option \<times> 'u pg_alerts \<Rightarrow> string \<Rightarrow> bytes option \<Rightarrow> nat \<times> 'u pg_alerts \<times> (string \<times> bytes) list" where
  "answer_change res subj body =
     (case res of
        (Some e, db') \<Rightarrow> (if e = ErrNoRows then 404 else 500, db', [])
      | (None, db') \<Rightarrow> (204, db', [(subj, case body of None \<Rightarrow> [] | Some b \<Rightarrow> b)]))"

definition newAlertsAckHandler ::
  "alert_codec \<Rightarrow> 'u proxy_env \<Rightarrow> string option \<Rightarrow> string option \<Rightarrow> sql_answer \<Rightarrow> time \<Rightarrow> 'u access_table
    \<Rightarrow> 'u current_user option \<Rightarrow> string \<Rightarrow> 'u pg_alerts \<Rightarrow> nat \<times> 'u pg_alerts \<times> (string \<times> bytes) list" where
  "newAlertsAckHandler cd px eGet eRole an now tab user i db =
     with_alert eGet eRole tab user i db (\<lambda>uid rover.
       answer_change (repo_Acknowledge px an i uid now db) (''waypoint.'' @ rover @ ''.alert.acknowledged'')
         (ceAcked cd \<lparr>akT = Some now, akId = i, akUserId = pxString px uid\<rparr>))"

definition newAlertsResolveHandler ::
  "alert_codec \<Rightarrow> 'u proxy_env \<Rightarrow> string option \<Rightarrow> string option \<Rightarrow> sql_answer \<Rightarrow> time \<Rightarrow> 'u access_table
    \<Rightarrow> 'u current_user option \<Rightarrow> string \<Rightarrow> 'u pg_alerts \<Rightarrow> nat \<times> 'u pg_alerts \<times> (string \<times> bytes) list" where
  "newAlertsResolveHandler cd px eGet eRole an now tab user i db =
     with_alert eGet eRole tab user i db (\<lambda>uid rover.
       answer_change (repo_Resolve px an i (Some uid) now False db) (''waypoint.'' @ rover @ ''.alert.resolved'')
         (ceResolved cd \<lparr>rsT = Some now, rsId = i, rsReason = ''user:'' @ pxString px uid, rsAutoResolved = False\<rparr>))"


section \<open>The mirror keeps the life cycle\<close>

definition mirror_abs :: "'u pg_alerts \<Rightarrow> string \<rightharpoonup> string \<times> string" where
  "mirror_abs db i = map_option (\<lambda>r. (pgRoverID r, pgState r)) (map_of db i)"

definition known :: "'u proxy_env \<Rightarrow> 'u option \<Rightarrow> bool" where
  "known px u \<longleftrightarrow> (case u of None \<Rightarrow> False | Some u \<Rightarrow> u \<in> set (pxUsers px))"

text \<open>The message as the mirror sees it: dropped when the subject, the body, the rover or the user is
  not accepted.\<close>

definition mirror_view :: "alert_codec \<Rightarrow> 'u proxy_env \<Rightarrow> string \<times> delivery \<Rightarrow> alert_life option" where
  "mirror_view cd px rd =
     (case rd of (rover, d) \<Rightarrow>
        let roverID = extractRoverID (alert_subject rover (dlKind d)) in
        if sqExec (dlAnswer d) \<noteq> None \<or> roverID = '''' then None
        else case dlKind d of
          KRaised \<Rightarrow> (case cdRaised cd (dlData d) of None \<Rightarrow> None
            | Some ev \<Rightarrow> if roverID \<in> set (pxRovers px) then Some (LRaise roverID (arId ev)) else None)
        | KAcknowledged \<Rightarrow> (case cdAcked cd (dlData d) of None \<Rightarrow> None
            | Some ev \<Rightarrow> if known px (pxParse px (akUserId ev)) then Some (LAck (akId ev)) else None)
        | KResolved \<Rightarrow> (case cdResolved cd (dlData d) of None \<Rightarrow> None
            | Some ev \<Rightarrow> if rsAutoResolved ev \<or> known px (parseUserFromReason px (rsReason ev))
                then Some (LResolve (rsId ev)) else None))"

lemma mirror_abs_set: "mirror_abs (map_set i r db) = (mirror_abs db)(i \<mapsto> (pgRoverID r, pgState r))"
  by (auto simp: mirror_abs_def)

lemma mirror_abs_update:
  assumes "sqExec an = None" "\<And>r. pgRoverID (f r) = pgRoverID r" "\<And>r. pgState (f r) = st"
  shows "mirror_abs (snd (update_by px an i user f db)) =
    (if user = None \<or> known px user then set_state i st (mirror_abs db) else mirror_abs db)"
  using assms
  by (cases "map_of db i") (auto simp: update_by_def set_state_def mirror_abs_set mirror_abs_def known_def split: option.splits)

lemma update_by_failed: "sqExec an \<noteq> None \<Longrightarrow> snd (update_by px an i user f db) = db"
  by (auto simp: update_by_def)

lemma mirror_severity_ok [simp]: "mirror_severity v \<in> set alert_severities"
  by (auto simp: mirror_severity_def alert_severities_def)

lemma mirror_raised_life:
  assumes "sqExec an = None"
  shows "mirror_abs (mirror_raised cd px an now subj data db) =
    (if extractRoverID subj = '''' then mirror_abs db
     else case cdRaised cd data of None \<Rightarrow> mirror_abs db
       | Some ev \<Rightarrow> if extractRoverID subj \<in> set (pxRovers px) then life (LRaise (extractRoverID subj) (arId ev)) (mirror_abs db)
           else mirror_abs db)"
  using assms by (auto simp: mirror_raised_def repo_Raise_def mirror_abs_set Let_def split: option.splits)

lemma mirror_acknowledged_life:
  assumes "sqExec an = None"
  shows "mirror_abs (mirror_acknowledged cd px an now subj data db) =
    (if extractRoverID subj = '''' then mirror_abs db
     else case cdAcked cd data of None \<Rightarrow> mirror_abs db
       | Some ev \<Rightarrow> if known px (pxParse px (akUserId ev)) then life (LAck (akId ev)) (mirror_abs db) else mirror_abs db)"
  using assms by (auto simp: mirror_acknowledged_def repo_Acknowledge_def mirror_abs_update Let_def known_def split: option.splits)

lemma mirror_resolved_life:
  assumes "sqExec an = None"
  shows "mirror_abs (mirror_resolved cd px an now subj data db) =
    (if extractRoverID subj = '''' then mirror_abs db
     else case cdResolved cd data of None \<Rightarrow> mirror_abs db
       | Some ev \<Rightarrow> if rsAutoResolved ev \<or> known px (parseUserFromReason px (rsReason ev))
           then life (LResolve (rsId ev)) (mirror_abs db) else mirror_abs db)"
  using assms by (auto simp: mirror_resolved_def repo_Resolve_def mirror_abs_update Let_def known_def split: option.splits)

lemma mirror_failed:
  assumes "sqExec an \<noteq> None"
  shows "mirror_raised cd px an now subj data db = db" "mirror_acknowledged cd px an now subj data db = db"
    "mirror_resolved cd px an now subj data db = db"
  using assms
  by (auto simp: mirror_raised_def mirror_acknowledged_def mirror_resolved_def repo_Raise_def repo_Acknowledge_def
      repo_Resolve_def update_by_failed Let_def split: option.splits)

interpretation mirror_log: alert_log mirror_abs "mirror_step cd px" "mirror_view cd px" for cd px
proof
  fix rd :: "string \<times> delivery" and db
  obtain rover d where rd: "rd = (rover, d)" by (rule prod.exhaust)
  show "mirror_abs (mirror_step cd px rd db) =
      (case mirror_view cd px rd of None \<Rightarrow> mirror_abs db | Some l \<Rightarrow> life l (mirror_abs db))"
  proof (cases "sqExec (dlAnswer d)")
    case None
    then show ?thesis
      by (cases "dlKind d") (simp_all add: rd mirror_step_def mirror_view_def Let_def mirror_raised_life
          mirror_acknowledged_life mirror_resolved_life split: option.splits)
  next
    case (Some e)
    then show ?thesis
      by (cases "dlKind d") (simp_all add: rd mirror_step_def mirror_view_def Let_def mirror_failed)
  qed
qed

text \<open>A message on the hub, with the moment and the database answer it meets on the rover and at the
  proxy.\<close>

record hub_msg =
  hmRover :: string
  hmKind :: alert_kind
  hmData :: bytes
  hmHere :: "time \<times> sql_answer"
  hmThere :: "time \<times> sql_answer"

definition at_rover :: "hub_msg \<Rightarrow> delivery" where
  "at_rover h = \<lparr>dlKind = hmKind h, dlData = hmData h, dlNow = fst (hmHere h), dlAnswer = snd (hmHere h)\<rparr>"

definition at_proxy :: "hub_msg \<Rightarrow> string \<times> delivery" where
  "at_proxy h = (hmRover h, \<lparr>dlKind = hmKind h, dlData = hmData h, dlNow = fst (hmThere h), dlAnswer = snd (hmThere h)\<rparr>)"

text \<open>The hub's wildcard matches one non-empty token; both databases answer.\<close>

definition hub_ok :: "hub_msg \<Rightarrow> bool" where
  "hub_ok h \<longleftrightarrow> hmRover h \<noteq> '''' \<and> CHR ''.'' \<notin> set (hmRover h) \<and> sqExec (snd (hmHere h)) = None \<and> sqExec (snd (hmThere h)) = None"

text \<open>Acknowledgements and manual resolutions name a registered user.\<close>

definition attributable :: "alert_codec \<Rightarrow> 'u proxy_env \<Rightarrow> hub_msg \<Rightarrow> bool" where
  "attributable cd px h \<longleftrightarrow>
     (case hmKind h of
        KRaised \<Rightarrow> True
      | KAcknowledged \<Rightarrow> (case cdAcked cd (hmData h) of None \<Rightarrow> True | Some ev \<Rightarrow> known px (pxParse px (akUserId ev)))
      | KResolved \<Rightarrow> (case cdResolved cd (hmData h) of None \<Rightarrow> True
          | Some ev \<Rightarrow> rsAutoResolved ev \<or> known px (parseUserFromReason px (rsReason ev))))"

lemma extract_subject: "CHR ''.'' \<notin> set r \<Longrightarrow> extractRoverID (alert_subject r k) = r"
proof -
  assume r: "CHR ''.'' \<notin> set r"
  have eq: "alert_subject r k = ''waypoint'' @ CHR ''.'' # (r @ CHR ''.'' # (''alert.'' @ alert_leaf k))"
    by (simp add: alert_subject_def)
  have "split_at_char CHR ''.'' (alert_subject r k) =
      ''waypoint'' # r # split_at_char CHR ''.'' (''alert.'' @ alert_leaf k)"
    unfolding eq
    by (rule trans [OF split_at_char_append]) (simp_all add: split_at_char_append [OF r])
  then show ?thesis by (simp add: extractRoverID_def)
qed

lemma views_agree:
  assumes "hub_ok h" "attributable cd px h" "hmRover h \<in> set (pxRovers px)"
  shows "mirror_view cd px (at_proxy h) = local_view cd (hmRover h) (at_rover h)"
  using assms extract_subject [of "hmRover h" "hmKind h"]
  by (cases "hmKind h") (auto simp: mirror_view_def local_view_def at_proxy_def at_rover_def hub_ok_def attributable_def
      Let_def split: option.splits)



definition demo_proxy :: "string proxy_env" where
  "demo_proxy = \<lparr>pxRovers = [''r1'', ''r2''], pxUsers = [''ann''], pxTime = (\<lambda>t. t div 1000 * 1000), pxJson = id,
     pxParse = (\<lambda>s. if s = '''' then None else Some s), pxString = id\<rparr>"

definition demo_raise :: "string \<Rightarrow> string \<Rightarrow> hub_msg" where
  "demo_raise rover i = \<lparr>hmRover = rover, hmKind = KRaised, hmData = demo_w_raised \<lparr>arT = Some 0, arId = i, arSource = ''core'',
     arSeverity = 2, arCode = ''hot'', arMessage = ''motor hot'', arMetadata = []\<rparr>, hmHere = (0, answered), hmThere = (1, answered)\<rparr>"

definition demo_ack :: "string \<Rightarrow> string \<Rightarrow> hub_msg" where
  "demo_ack rover i = \<lparr>hmRover = rover, hmKind = KAcknowledged, hmData = demo_w_acked \<lparr>akT = Some 5, akId = i, akUserId = ''ann''\<rparr>,
     hmHere = (5, answered), hmThere = (6, answered)\<rparr>"

lemma demo_decodes [simp]:
  "cdRaised demo_codec (demo_w_raised a) = Some a" "cdAcked demo_codec (demo_w_acked b) = Some b"
  "cdResolved demo_codec (demo_w_resolved c) = Some c"
  by (simp_all add: demo_codec_def decode_with_ok [OF demo_wire(1)] decode_with_ok [OF demo_wire(2)]
      decode_with_ok [OF demo_wire(3)])


lemma with_alert_act:
  assumes "with_alert eGet eRole tab user i db act = (st, db', pubs)" "st = 204 \<or> db' \<noteq> db \<or> pubs \<noteq> []"
  shows "\<exists>u r. user = Some u \<and> map_of db i = Some r \<and>
    (cuIsAdmin u \<or> map_of tab (cuID u, pgRoverID r) \<in> {Some ''control'', Some ''admin''}) \<and>
    act (cuID u) (pgRoverID r) = (st, db', pubs)"
  using assms
  by (auto simp: with_alert_def repo_GetByID_def RoleFor_def hasControlOrAdmin_def or_empty_def scan_alert_def
      split: option.splits if_splits sum.splits)

text \<open>
  C19. An acknowledgement or resolution through the API changes an alert or publishes a message only
  for a signed-in user who is an administrator or has the control or admin role on the alert's own
  rover; it touches no other alert, and what it publishes is on that rover's subject.
\<close>

theorem alert_changes_need_control:
  assumes "newAlertsAckHandler cd px eGet eRole an now tab user i db = (st, db', pubs) \<or>
      newAlertsResolveHandler cd px eGet eRole an now tab user i db = (st, db', pubs)"
    "db' \<noteq> db \<or> pubs \<noteq> []"
  shows "\<exists>u r. user = Some u \<and> map_of db i = Some r \<and>
      (cuIsAdmin u \<or> map_of tab (cuID u, pgRoverID r) \<in> {Some ''control'', Some ''admin''}) \<and>
      (\<forall>j. j \<noteq> i \<longrightarrow> map_of db' j = map_of db j) \<and>
      (\<exists>k body. pubs = [(alert_subject (pgRoverID r) k, body)])"
proof -
  note act = with_alert_act [OF _ disjI2 [OF assms(2)]]
  have upd: "answer_change (update_by px an i u f db) subj b = (st, db', pubs) \<Longrightarrow>
      (\<forall>j. j \<noteq> i \<longrightarrow> map_of db' j = map_of db j) \<and> (\<exists>body. pubs = [(subj, body)])" for u f subj b
    using assms(2) by (auto simp: answer_change_def update_by_def split: option.splits if_splits prod.splits)
  have k: "''waypoint.'' @ r @ ''.alert.acknowledged'' = alert_subject r KAcknowledged"
    "''waypoint.'' @ r @ ''.alert.resolved'' = alert_subject r KResolved" for r
    by (simp_all add: alert_subject_def)
  from assms(1) show ?thesis
  proof
    assume "newAlertsAckHandler cd px eGet eRole an now tab user i db = (st, db', pubs)"
    from act [OF this [unfolded newAlertsAckHandler_def k]] obtain u r where "user = Some u" "map_of db i = Some r"
      "cuIsAdmin u \<or> map_of tab (cuID u, pgRoverID r) \<in> {Some ''control'', Some ''admin''}" and
      a: "answer_change (repo_Acknowledge px an i (cuID u) now db) (alert_subject (pgRoverID r) KAcknowledged)
        (ceAcked cd \<lparr>akT = Some now, akId = i, akUserId = pxString px (cuID u)\<rparr>) = (st, db', pubs)"
      by (elim exE conjE) (rule that)
    with upd [OF a [unfolded repo_Acknowledge_def]] show ?thesis by blast
  next
    assume "newAlertsResolveHandler cd px eGet eRole an now tab user i db = (st, db', pubs)"
    from act [OF this [unfolded newAlertsResolveHandler_def k]] obtain u r where "user = Some u" "map_of db i = Some r"
      "cuIsAdmin u \<or> map_of tab (cuID u, pgRoverID r) \<in> {Some ''control'', Some ''admin''}" and
      a: "answer_change (repo_Resolve px an i (Some (cuID u)) now False db) (alert_subject (pgRoverID r) KResolved)
        (ceResolved cd \<lparr>rsT = Some now, rsId = i, rsReason = ''user:'' @ pxString px (cuID u), rsAutoResolved = False\<rparr>) =
        (st, db', pubs)"
      by (elim exE conjE) (rule that)
    with upd [OF a [unfolded repo_Resolve_def]] show ?thesis by blast
  qed
qed


definition demo_pg :: "string \<Rightarrow> string pg_cols" where
  "demo_pg rover = \<lparr>pgRoverID = rover, pgSeverity = ''info'', pgSource = ''core'', pgCode = ''hot'', pgMessage = '''',
     pgMetadata = None, pgRaisedAt = 0, pgState = ''active'', pgAcknowledgedAt = None, pgAcknowledgedBy = None,
     pgResolvedAt = None, pgResolvedBy = None, pgAutoResolved = False\<rparr>"

definition demo_ann :: "string current_user" where
  "demo_ann = \<lparr>cuID = ''ann'', cuEmail = ''ann@example.org'', cuIsAdmin = False\<rparr>"

definition demo_access :: "string access_table" where
  "demo_access = [((''ann'', ''r1''), ''control''), ((''ann'', ''r2''), ''view'')]"

lemma demo_ack_runs:
  "newAlertsAckHandler demo_codec demo_proxy None None answered 7000 demo_access (Some demo_ann) ''a'' [(''a'', demo_pg ''r1'')] =
     (204, [(''a'', demo_pg ''r1'' \<lparr>pgState := ''acknowledged'', pgAcknowledgedAt := Some 7000, pgAcknowledgedBy := Some ''ann''\<rparr>)],
      [(''waypoint.r1.alert.acknowledged'', demo_w_acked \<lparr>akT = Some 7000, akId = ''a'', akUserId = ''ann''\<rparr>)])"
  by (simp add: newAlertsAckHandler_def with_alert_def repo_GetByID_def RoleFor_def demo_ann_def demo_access_def demo_pg_def
      scan_alert_def or_empty_def hasControlOrAdmin_def answer_change_def repo_Acknowledge_def update_by_def demo_proxy_def
      demo_codec_def)

theorem alert_changes_need_control_witness:
  "\<exists>u r. Some demo_ann = Some u \<and> map_of [(''a'', demo_pg ''r1'')] ''a'' = Some r \<and>
      (cuIsAdmin u \<or> map_of demo_access (cuID u, pgRoverID r) \<in> {Some ''control'', Some ''admin''})"
  using alert_changes_need_control [OF disjI1 [OF demo_ack_runs]] by simp

text \<open>
  The message that an acknowledgement through the API publishes is mirrored back by the proxy
  itself without effect: applied to the table the handler left, it changes nothing, whenever it
  arrives and whatever the database answers.
\<close>

theorem acknowledgement_echo:
  fixes px :: "'a proxy_env"
  assumes "codec_ok cd" "\<And>u. pxParse px (pxString px u) = Some u"
    "newAlertsAckHandler cd px eGet eRole an now tab user i db = (204, db', [(subj, body)])"
  shows "mirror_acknowledged cd px an' now' subj body db' = db'"
proof -
  from with_alert_act [OF assms(3) [unfolded newAlertsAckHandler_def] disjI1 [OF refl]] obtain w r
    where "user = Some w" and r: "map_of db i = Some r" and
    w: "answer_change (repo_Acknowledge px an i (cuID w) now db) (''waypoint.'' @ pgRoverID r @ ''.alert.acknowledged'')
      (ceAcked cd \<lparr>akT = Some now, akId = i, akUserId = pxString px (cuID w)\<rparr>) = (204, db', [(subj, body)])"
    by (elim exE conjE) (erule (1) that)
  define u where "u = cuID w"
  note a = w [folded u_def]
  obtain b where b: "ceAcked cd \<lparr>akT = Some now, akId = i, akUserId = pxString px u\<rparr> = Some b"
    "cdAcked cd b = Some \<lparr>akT = Some now, akId = i, akUserId = pxString px u\<rparr>"
    using assms(1) unfolding codec_ok_def by blast
  define f where "f = (\<lambda>r :: 'a pg_cols. r \<lparr>pgState := ''acknowledged'', pgAcknowledgedAt := Some (pxTime px now), pgAcknowledgedBy := Some u\<rparr>)"
  have ff: "f (f x) = f x" for x by (simp add: f_def)
  have db': "db' = map_set i (f r) db" "body = b"
    using a r b(1) by (auto simp: answer_change_def repo_Acknowledge_def update_by_def f_def split: option.splits if_splits)
  have "snd (update_by px an' i (Some u) f db') = db'"
    unfolding db' by (auto simp: update_by_def ff map_set_same split: option.splits)
  then show ?thesis
    using b(2) assms(2) by (simp add: mirror_acknowledged_def repo_Acknowledge_def db'(2) timestampOrNow_def Let_def f_def)
qed

text \<open>
  C36. The alert list is bounded and confined: at most 500 rows, at most 100 when no limit is asked
  for, none of them resolved, and each one on a rover on which the signed-in user has a role, unless
  the user is an administrator.
\<close>

theorem alerts_list_bounded:
  assumes "newAlertsListHandler eRole eList tab db user rover limit = (st, rows)"
  shows "length rows \<le> 500 \<and> (limit = '''' \<longrightarrow> length rows \<le> 100) \<and>
    (\<forall>a \<in> set rows. paState a \<noteq> ''resolved'' \<and>
      (\<exists>u. user = Some u \<and> (cuIsAdmin u \<or> (\<exists>role. role \<noteq> '''' \<and> map_of tab (cuID u, paRoverID a) = Some role))))"
proof -
  have limit: "alerts_limit limit = Some n \<Longrightarrow> n \<le> 500 \<and> (limit = '''' \<longrightarrow> n = 100)" for n
    by (auto simp: alerts_limit_def split: if_splits option.splits)
  have rows: "repo_ListActive eList rover db = Inr as \<Longrightarrow> a \<in> set as \<Longrightarrow>
      paState a \<noteq> ''resolved'' \<and> (rover \<noteq> '''' \<longrightarrow> paRoverID a = rover)" for as a
    by (auto simp: repo_ListActive_def repo_queryRows_def scan_alert_def of_rover_def split: option.splits)
  show ?thesis
  proof (cases "rows = []")
    case False
    have "\<exists>u n as. user = Some u \<and> alerts_limit limit = Some n \<and> repo_ListActive eList rover db = Inr as \<and>
        rows = (if length as > n then take n as else as) \<and>
        (cuIsAdmin u \<or> rover \<noteq> '''' \<and> (\<exists>role. role \<noteq> '''' \<and> map_of tab (cuID u, rover) = Some role))"
      using assms False by (auto simp: newAlertsListHandler_def RoleFor_def or_empty_def Let_def
          split: option.splits sum.splits if_splits)
    then obtain u n as where l: "user = Some u" "alerts_limit limit = Some n" "repo_ListActive eList rover db = Inr as"
      "rows = (if length as > n then take n as else as)"
      "cuIsAdmin u \<or> rover \<noteq> '''' \<and> (\<exists>role. role \<noteq> '''' \<and> map_of tab (cuID u, rover) = Some role)"
      by (elim exE conjE) (rule that)
    have "length rows \<le> n" "\<And>a. a \<in> set rows \<Longrightarrow> a \<in> set as" using l(4) by (auto dest: in_set_takeD split: if_splits)
    then show ?thesis using limit [OF l(2)] rows [OF l(3)] l(1,5) by fastforce
  qed simp
qed

theorem alerts_list_bounded_witness:
  "fst (newAlertsListHandler None None demo_access [(''a'', demo_pg ''r1''), (''b'', demo_pg ''r2'')] (Some demo_ann) ''r2'' ''1'') = 200 \<and>
   length (snd (newAlertsListHandler None None demo_access [(''a'', demo_pg ''r1''), (''b'', demo_pg ''r2'')] (Some demo_ann) ''r2'' ''1'')) = 1 \<and>
   length (snd (newAlertsListHandler None None demo_access [(''a'', demo_pg ''r1''), (''b'', demo_pg ''r2'')] (Some demo_ann) ''r2'' ''1'')) \<le> 500"
  using alerts_list_bounded [of None None demo_access "[(''a'', demo_pg ''r1''), (''b'', demo_pg ''r2'')]" "Some demo_ann" "''r2''" "''1''"]
  by (simp add: newAlertsListHandler_def RoleFor_def or_empty_def alerts_limit_def Atoi_def is_digit_char_def demo_ann_def
      demo_access_def demo_pg_def repo_ListActive_def repo_queryRows_def of_rover_def scan_alert_def)

end
