(* ===== verification/Fetcher.thy ===== *)
theory Fetcher
  imports LocalAuth Desired
begin

text \<open>
  The image fetcher, \<^verbatim>\<open>agent/internal/modules/fetcher.go\<close>. The disk is a map from paths to contents;
  which calls fail, the HTTP client, the hash function and the name of the temporary file are
  arguments. The lemma shows that the destination holds a verified image or is left alone.
\<close>


datatype fetch_call = FMkdir | FOpen | FTemp | FCopy | FClose | FRename | FRemove

datatype fetch_error = FeMkdir string | FeOpen string | FeHTTP int | FeTemp string | FeCopy string | FeClose string
  | FeMismatch string string | FeRename string

text \<open>\<open>http\<close> performs the request and gives the status code and the body.\<close>

definition fetch_open ::
  "(fetch_call \<Rightarrow> string option) \<Rightarrow> (string \<Rightarrow> string + int \<times> bytes) \<Rightarrow> bytes disk \<Rightarrow> string \<Rightarrow> fetch_error + bytes" where
  "fetch_open fails http disk url =
     (if has_prefix url ''file://'' then
        (case fails FOpen of
           Some e \<Rightarrow> Inl (FeOpen e)
         | None \<Rightarrow> (case disk (trim_prefix url ''file://'') of None \<Rightarrow> Inl (FeOpen ''not exist'') | Some bs \<Rightarrow> Inr bs))
      else case http url of
        Inl e \<Rightarrow> Inl (FeOpen e)
      | Inr (status, body) \<Rightarrow> if status \<noteq> 200 then Inl (FeHTTP status) else Inr body)"

text \<open>\<open>cleanup\<close> removes the temporary file; a failing removal is ignored.\<close>

definition fetch_cleanup :: "(fetch_call \<Rightarrow> string option) \<Rightarrow> string \<Rightarrow> bytes disk \<Rightarrow> bytes disk" where
  "fetch_cleanup fails tmp disk = (case fails FRemove of Some e \<Rightarrow> disk | None \<Rightarrow> disk(tmp := None))"

text \<open>\<open>part\<close> is what a failing copy has written so far.\<close>

definition Fetch ::
  "(fetch_call \<Rightarrow> string option) \<Rightarrow> (string \<Rightarrow> string + int \<times> bytes) \<Rightarrow> (bytes \<Rightarrow> bytes) \<Rightarrow> string \<Rightarrow> bytes \<Rightarrow>
    string \<Rightarrow> string \<Rightarrow> string \<Rightarrow> bytes disk \<Rightarrow> fetch_error option \<times> bytes disk" where
  "Fetch fails http sha256 tmp part url wantHex dest disk =
     (case fails FMkdir of
        Some e \<Rightarrow> (Some (FeMkdir e), disk)
      | None \<Rightarrow>
     (case fetch_open fails http disk url of
        Inl e \<Rightarrow> (Some e, disk)
      | Inr body \<Rightarrow>
     (case fails FTemp of
        Some e \<Rightarrow> (Some (FeTemp e), disk)
      | None \<Rightarrow>
     (case fails FCopy of
        Some e \<Rightarrow> (Some (FeCopy e), fetch_cleanup fails tmp (disk(tmp := Some part)))
      | None \<Rightarrow>
        let disk1 = disk(tmp := Some body) in
     (case fails FClose of
        Some e \<Rightarrow> (Some (FeClose e), fetch_cleanup fails tmp disk1)
      | None \<Rightarrow>
        let gotHex = hex_encode (sha256 body) in
        if wantHex \<noteq> '''' \<and> gotHex \<noteq> wantHex
        then (Some (FeMismatch gotHex wantHex), fetch_cleanup fails tmp disk1)
        else
     (case fails FRename of
        Some e \<Rightarrow> (Some (FeRename e), fetch_cleanup fails tmp disk1)
      | None \<Rightarrow> (None, disk1(tmp := None, dest := Some body))))))))"

text \<open>
  C26. After a fetch the destination either holds exactly the bytes that were served, with the
  requested digest when one was requested, or, on any error, what it held before. No other file than
  the destination and the temporary one changes, and after a success the temporary one is gone.
\<close>

theorem fetch_all_or_nothing:
  assumes "Fetch fails http sha256 tmp part url wantHex dest disk = (e, disk')" "tmp \<noteq> dest"
  shows "(e \<noteq> None \<longrightarrow> disk' dest = disk dest) \<and>
    (e = None \<longrightarrow> disk' tmp = None \<and>
      (\<exists>body. fetch_open fails http disk url = Inr body \<and> disk' dest = Some body \<and>
        (wantHex = '''' \<or> hex_encode (sha256 body) = wantHex))) \<and>
    (\<forall>p. p \<noteq> tmp \<and> p \<noteq> dest \<longrightarrow> disk' p = disk p)"
  using assms
  by (auto simp: Fetch_def Let_def fetch_cleanup_def split: option.splits sum.splits if_splits)

theorem fetch_all_or_nothing_witness:
  "snd (Fetch (\<lambda>_. None) (\<lambda>_. Inr (200, [1])) (\<lambda>b. b) ''t'' [] ''http://x'' ''01'' ''d'' (\<lambda>_. None)) ''d'' = Some [1] \<and>
   snd (Fetch (\<lambda>_. None) (\<lambda>_. Inr (200, [2])) (\<lambda>b. b) ''t'' [] ''http://x'' ''01'' ''d'' (\<lambda>_. None)) ''d'' = None"
proof
  have o1: "fetch_open (\<lambda>_. None) (\<lambda>_. Inr (200, [b])) (\<lambda>_. None) ''http://x'' = Inr [b]" for b
    by (simp add: fetch_open_def has_prefix_def)
  have 1: "Fetch (\<lambda>_. None) (\<lambda>_. Inr (200, [1])) (\<lambda>b. b) ''t'' [] ''http://x'' ''01'' ''d'' (\<lambda>_. None) =
      (None, (\<lambda>_. None)(''t'' := Some [1], ''t'' := None, ''d'' := Some [1]))"
    by (simp add: Fetch_def o1 hex_encode_def hex_digit_def)
  show "snd (Fetch (\<lambda>_. None) (\<lambda>_. Inr (200, [1])) (\<lambda>b. b) ''t'' [] ''http://x'' ''01'' ''d'' (\<lambda>_. None)) ''d'' = Some [1]"
    using fetch_all_or_nothing [OF 1] o1 [of 1] unfolding 1 by simp
  show "snd (Fetch (\<lambda>_. None) (\<lambda>_. Inr (200, [2])) (\<lambda>b. b) ''t'' [] ''http://x'' ''01'' ''d'' (\<lambda>_. None)) ''d'' = None"
    by (simp add: Fetch_def o1 hex_encode_def hex_digit_def fetch_cleanup_def)
qed

end
