(* ===== verification/Apply.thy ===== *)
theory Apply
  imports Fetcher NetText Brokers
begin

text \<open>
  Image updates of the agent: \<^verbatim>\<open>apply/rpc.go\<close>, \<^verbatim>\<open>verify/verify.go\<close>, \<^verbatim>\<open>partition/partition.go\<close> and
  \<^verbatim>\<open>image\<close>. A request starts a goroutine that downloads, checks and installs an image; it is a machine
  with one step per phase over the shared disk, so that runs of several requests can interleave. The
  HTTP client, the hash, the signature library, the decoder of the metadata file and the disk's errors
  are arguments. The lemmas show what may be installed by a request that runs alone, and that two
  requests at once can install an image nobody checked.
\<close>

section \<open>Slots and metadata\<close>

definition AUUID :: string where "AUUID = ''aaaaaaaa-aaaa-aaaa-aaaa-aaaaaaaaaaaa''"
definition BUUID :: string where "BUUID = ''bbbbbbbb-bbbb-bbbb-bbbb-bbbbbbbbbbbb''"

text \<open>\<open>cmdline\<close> is the outcome of reading the kernel command line.\<close>

definition Active :: "string + string \<Rightarrow> string + string" where
  "Active cmdline =
     (case cmdline of
        Inl e \<Rightarrow> Inl e
      | Inr data \<Rightarrow>
          let c = to_lower data in
          if contains c (''partuuid='' @ AUUID) then Inr ''A''
          else if contains c (''partuuid='' @ BUUID) then Inr ''B''
          else Inl ''no known PARTUUID in cmdline'')"

record image_toml =
  itVersion :: string
  itVariant :: string
  itPartition :: string
  itBuiltAt :: string

definition readVariant :: "string + image_toml \<Rightarrow> string + string" where
  "readVariant toml =
     (case toml of
        Inl e \<Rightarrow> Inl e
      | Inr t \<Rightarrow> if itVariant t = '''' then Inl ''image.toml: image.variant is empty'' else Inr (itVariant t))"

definition swupdateSelector :: "string + string \<Rightarrow> string + image_toml \<Rightarrow> string + string" where
  "swupdateSelector cmdline toml =
     (case Active cmdline of
        Inl e \<Rightarrow> Inl (''active partition: '' @ e)
      | Inr active \<Rightarrow>
          (case readVariant toml of
             Inl e \<Rightarrow> Inl (''variant: '' @ e)
           | Inr variant \<Rightarrow> Inr (variant @ '','' @ (if active = ''B'' then ''copy-1'' else ''copy-2''))))"


section \<open>Verification\<close>

definition SkipEnabled :: "string \<Rightarrow> bool" where
  "SkipEnabled env = (env = ''1'')"

text \<open>The signature library: the outcome of fetching the trust root and building the verifier with the
  pinned identity, the parsed bundle, and the check of a blob against it.\<close>

record 'b sigstore =
  sgRoot :: "string option"
  sgVerifier :: "string option"
  sgIdentity :: "string option"
  sgLoad :: "bytes \<Rightarrow> string + 'b"
  sgCheck :: "'b \<Rightarrow> bytes \<Rightarrow> string option"

definition sigstore_init :: "'b sigstore \<Rightarrow> string option" where
  "sigstore_init sg =
     first_error [map_option (\<lambda>e. ''trusted root: '' @ e) (sgRoot sg), map_option (\<lambda>e. ''new verifier: '' @ e) (sgVerifier sg),
       map_option (\<lambda>e. ''certificate identity: '' @ e) (sgIdentity sg)]"

definition sigstore_Verify :: "string \<Rightarrow> 'b sigstore \<Rightarrow> bytes disk \<Rightarrow> string \<Rightarrow> string \<Rightarrow> string option" where
  "sigstore_Verify env sg disk blobPath bundlePath =
     (if SkipEnabled env then None
      else case sigstore_init sg of
        Some e \<Rightarrow> Some e
      | None \<Rightarrow>
          (case (case disk bundlePath of None \<Rightarrow> Inl ''not exist'' | Some bs \<Rightarrow> sgLoad sg bs) of
             Inl e \<Rightarrow> Some (''load bundle: '' @ e)
           | Inr b \<Rightarrow>
               (case disk blobPath of
                  None \<Rightarrow> Some ''open blob: not exist''
                | Some blob \<Rightarrow> map_option (\<lambda>e. ''sigstore verify: '' @ e) (sgCheck sg b blob))))"


section \<open>A request\<close>

record apply_request =
  aqUrl :: string
  aqVersion :: string
  aqSha256 :: string

text \<open>The outside of one run: the environment variable, the creation of the cache directory, the HTTP
  client (status, body, and whether the copy ends in an error), creating a file, the hash, the library,
  the command line, the metadata and the outcome of \<^verbatim>\<open>swupdate\<close>.\<close>

record 'b apply_outside =
  aoEnv :: string
  aoMkdir :: "string option"
  aoGet :: "string \<Rightarrow> string + int \<times> bytes \<times> string option"
  aoCreate :: "string option"
  aoSha :: "bytes \<Rightarrow> bytes"
  aoSigstore :: "'b sigstore"
  aoCmdline :: "string + string"
  aoToml :: "string + image_toml"
  aoSwupdate :: "string \<Rightarrow> string option"

definition dst :: string where "dst = ''/run/waypoint/cache/incoming.swu''"
definition bundleDst :: string where "bundleDst = dst @ ''.cosign''"

definition download :: "'b apply_outside \<Rightarrow> string \<Rightarrow> string \<Rightarrow> bytes disk \<Rightarrow> string option \<times> bytes disk" where
  "download ou url path disk =
     (case aoGet ou url of
        Inl e \<Rightarrow> (Some e, disk)
      | Inr (status, body, err) \<Rightarrow>
          if status \<noteq> 200 then (Some ''status'', disk)
          else case aoCreate ou of
            Some e \<Rightarrow> (Some e, disk)
          | None \<Rightarrow> (err, disk(path := Some body)))"

definition sha256File :: "'b apply_outside \<Rightarrow> string \<Rightarrow> bytes disk \<Rightarrow> string + string" where
  "sha256File ou path disk =
     (case disk path of None \<Rightarrow> Inl ''not exist'' | Some bs \<Rightarrow> Inr (hex_encode (aoSha ou bs)))"

text \<open>What the goroutine does to the outside: an alert, or the call of \<^verbatim>\<open>swupdate\<close> on a file with the
  contents it has at that moment.\<close>

datatype apply_failure = FCache string | FDownload string | FBundle string | FSha string | FMismatch string string | FVerify string
  | FSelector string string | FSwupdate string string string

datatype apply_action = Failed apply_failure | Swupdate string "bytes option"

datatype apply_phase = PMkdir | PDownload | PBundle | PSha | PVerify | PSwupdate | PDone

definition fail_if :: "(string \<Rightarrow> apply_failure) \<Rightarrow> string option \<Rightarrow> apply_phase \<Rightarrow> apply_phase \<times> apply_action list" where
  "fail_if what err k = (case err of Some e \<Rightarrow> (PDone, [Failed (what e)]) | None \<Rightarrow> (k, []))"

definition runSwupdate :: "'b apply_outside \<Rightarrow> string \<Rightarrow> bytes disk \<Rightarrow> apply_action list" where
  "runSwupdate ou version disk =
     (case swupdateSelector (aoCmdline ou) (aoToml ou) of
        Inl e \<Rightarrow> [Failed (FSelector version e)]
      | Inr selector \<Rightarrow>
          Swupdate selector (disk dst) #
            (case aoSwupdate ou selector of Some e \<Rightarrow> [Failed (FSwupdate selector version e)] | None \<Rightarrow> []))"

text \<open>One phase of \<^verbatim>\<open>fetchVerifyApply\<close>.\<close>

fun apply_step ::
  "'b apply_outside \<Rightarrow> apply_request \<Rightarrow> apply_phase \<Rightarrow> bytes disk \<Rightarrow> (apply_phase \<times> apply_action list) \<times> bytes disk" where
  "apply_step ou req PMkdir disk = (fail_if FCache (aoMkdir ou) PDownload, disk)"
| "apply_step ou req PDownload disk =
     (case download ou (aqUrl req) dst disk of (e, disk') \<Rightarrow> (fail_if FDownload e PBundle, disk'))"
| "apply_step ou req PBundle disk =
     (if SkipEnabled (aoEnv ou) then ((PSha, []), disk)
      else case download ou (aqUrl req @ ''.cosign'') bundleDst disk of
        (e, disk') \<Rightarrow> (fail_if FBundle e PSha, disk'))"
| "apply_step ou req PSha disk =
     (if aqSha256 req = '''' then ((PVerify, []), disk)
      else case sha256File ou dst disk of
        Inl e \<Rightarrow> ((PDone, [Failed (FSha e)]), disk)
      | Inr got \<Rightarrow>
          if got \<noteq> aqSha256 req then ((PDone, [Failed (FMismatch got (aqSha256 req))]), disk)
          else ((PVerify, []), disk))"
| "apply_step ou req PVerify disk =
     (fail_if FVerify (sigstore_Verify (aoEnv ou) (aoSigstore ou) disk dst bundleDst) PSwupdate, disk)"
| "apply_step ou req PSwupdate disk = ((PDone, runSwupdate ou (aqVersion req) disk), disk)"
| "apply_step ou req PDone disk = ((PDone, []), disk)"

text \<open>A run alone: there are six phases before the end.\<close>

fun run_phases ::
  "nat \<Rightarrow> 'b apply_outside \<Rightarrow> apply_request \<Rightarrow> apply_phase \<Rightarrow> bytes disk \<Rightarrow> (apply_phase \<times> apply_action list) \<times> bytes disk" where
  "run_phases 0 ou req p disk = ((p, []), disk)"
| "run_phases (Suc n) ou req p disk =
     (case apply_step ou req p disk of ((p1, as1), disk1) \<Rightarrow>
      case run_phases n ou req p1 disk1 of ((p2, as2), disk2) \<Rightarrow> ((p2, as1 @ as2), disk2))"

definition fetchVerifyApply :: "'b apply_outside \<Rightarrow> apply_request \<Rightarrow> bytes disk \<Rightarrow> apply_action list \<times> bytes disk" where
  "fetchVerifyApply ou req disk = (case run_phases 6 ou req PMkdir disk of ((_, acts), disk') \<Rightarrow> (acts, disk'))"

text \<open>The handler: the reply and the request whose run it starts. \<open>reply\<close> is the reply subject.\<close>

datatype apply_reply = Accepted | ErrorReply string

definition apply_onMessage ::
  "(bytes \<Rightarrow> string + apply_request) \<Rightarrow> string \<Rightarrow> bytes \<Rightarrow> (string \<times> apply_reply) list \<times> apply_request option" where
  "apply_onMessage dec reply data =
     (let respond = (\<lambda>x. if reply = '''' then [] else [(reply, x)]) in
      case dec data of
        Inl e \<Rightarrow> (respond (ErrorReply (''bad request: '' @ e)), None)
      | Inr req \<Rightarrow>
          if aqUrl req = '''' then (respond (ErrorReply ''missing url''), None)
          else (respond Accepted, Some req))"

text \<open>Several runs at once: each has its outside, request and phase; a schedule says whose turn it is.\<close>

type_synonym 'b apply_job = "('b apply_outside \<times> apply_request) \<times> apply_phase"

fun run_schedule :: "nat list \<Rightarrow> 'b apply_job list \<Rightarrow> bytes disk \<Rightarrow> apply_action list \<times> 'b apply_job list \<times> bytes disk" where
  "run_schedule [] jobs disk = ([], jobs, disk)"
| "run_schedule (i # is) jobs disk =
     (if i < length jobs then
        (case apply_step (fst (fst (jobs ! i))) (snd (fst (jobs ! i))) (snd (jobs ! i)) disk of ((p, acts), disk1) \<Rightarrow>
         case run_schedule is (jobs[i := (fst (jobs ! i), p)]) disk1 of (acts', jobs', disk') \<Rightarrow> (acts @ acts', jobs', disk'))
      else run_schedule is jobs disk)"


section \<open>The image state\<close>

record image_state =
  imVersion :: string
  imVariant :: string
  imPartition :: string
  imBuiltAt :: string
  imBootcount :: int

definition TrimSpace :: "string \<Rightarrow> string" where
  "TrimSpace s = trim_set s [CHR '' '', CHR 0x09, CHR 0x0A, CHR 0x0B, CHR 0x0C, CHR 0x0D]"

text \<open>\<open>present\<close> says whether the metadata file exists; \<open>boot\<close> is the outcome of reading the boot count.\<close>

definition image_Load :: "string + string \<Rightarrow> bool \<Rightarrow> string + image_toml \<Rightarrow> string + string \<Rightarrow> string + image_state" where
  "image_Load cmdline present toml boot =
     (let runtime = Active cmdline in
      if \<not> present then
        Inr \<lparr>imVersion = ''0.0.0-dev'', imVariant = ''dev'',
             imPartition = (case runtime of Inl e \<Rightarrow> ''A'' | Inr p \<Rightarrow> p), imBuiltAt = '''', imBootcount = 0\<rparr>
      else case toml of
        Inl e \<Rightarrow> Inl e
      | Inr t \<Rightarrow>
          Inr \<lparr>imVersion = itVersion t, imVariant = itVariant t,
               imPartition = (case runtime of Inl e \<Rightarrow> itPartition t | Inr p \<Rightarrow> p), imBuiltAt = itBuiltAt t,
               imBootcount = (case boot of Inl e \<Rightarrow> 0 | Inr b \<Rightarrow> (case Atoi (TrimSpace b) of None \<Rightarrow> 0 | Some n \<Rightarrow> n))\<rparr>)"

record image_message =
  igState :: image_state
  igBootcount :: "32 word"

definition publish_image ::
  "(image_message \<Rightarrow> string + bytes) \<Rightarrow> string \<Rightarrow> string + image_state \<Rightarrow> string option \<times> (string \<times> bytes) list" where
  "publish_image enc rover st =
     (case st of
        Inl e \<Rightarrow> (Some e, [])
      | Inr s \<Rightarrow>
          (case enc \<lparr>igState = s, igBootcount = word_of_int (imBootcount s)\<rparr> of
             Inl e \<Rightarrow> (Some e, [])
           | Inr body \<Rightarrow> (None, [(platform_subject rover ''infra.system.image'', body)])))"


section \<open>What a request alone may install\<close>

lemma paths_differ: "dst \<noteq> bundleDst" "bundleDst \<noteq> dst"
  by (simp_all add: bundleDst_def)

lemma download_ok:
  assumes "download ou url path disk = (None, disk')"
  shows "\<exists>body. aoGet ou url = Inr (200, body, None) \<and> disk' = disk(path := Some body)"
  using assms by (auto simp: download_def split: sum.splits if_splits option.splits)

lemma fail_if_cases: "fail_if what err k = (p, acts) \<Longrightarrow> (p = PDone \<and> (\<exists>f. acts = [Failed f])) \<or> (p = k \<and> acts = [] \<and> err = None)"
  by (auto simp: fail_if_def split: option.splits)

text \<open>What is known when a run that nobody disturbs is in a phase.\<close>

definition fetched :: "'b apply_outside \<Rightarrow> apply_request \<Rightarrow> bytes disk \<Rightarrow> bool" where
  "fetched ou req disk \<longleftrightarrow> (\<exists>img. aoGet ou (aqUrl req) = Inr (200, img, None) \<and> disk dst = Some img)"

definition bundled :: "'b apply_outside \<Rightarrow> apply_request \<Rightarrow> bytes disk \<Rightarrow> bool" where
  "bundled ou req disk \<longleftrightarrow> SkipEnabled (aoEnv ou) \<or>
     (\<exists>bs. aoGet ou (aqUrl req @ ''.cosign'') = Inr (200, bs, None) \<and> disk bundleDst = Some bs)"

definition digest_ok :: "'b apply_outside \<Rightarrow> apply_request \<Rightarrow> bytes disk \<Rightarrow> bool" where
  "digest_ok ou req disk \<longleftrightarrow> aqSha256 req = '''' \<or> (\<exists>img. disk dst = Some img \<and> hex_encode (aoSha ou img) = aqSha256 req)"

definition verified :: "'b apply_outside \<Rightarrow> bytes disk \<Rightarrow> bool" where
  "verified ou disk \<longleftrightarrow> sigstore_Verify (aoEnv ou) (aoSigstore ou) disk dst bundleDst = None"

fun phase_inv :: "'b apply_outside \<Rightarrow> apply_request \<Rightarrow> apply_phase \<Rightarrow> bytes disk \<Rightarrow> bool" where
  "phase_inv ou req PBundle disk = fetched ou req disk"
| "phase_inv ou req PSha disk = (fetched ou req disk \<and> bundled ou req disk)"
| "phase_inv ou req PVerify disk = (fetched ou req disk \<and> bundled ou req disk \<and> digest_ok ou req disk)"
| "phase_inv ou req PSwupdate disk = (fetched ou req disk \<and> bundled ou req disk \<and> digest_ok ou req disk \<and> verified ou disk)"
| "phase_inv ou req p disk = True"

lemma apply_step_inv:
  assumes "phase_inv ou req p disk" "apply_step ou req p disk = ((p', acts), disk')"
  shows "phase_inv ou req p' disk'"
proof (cases p)
  case PDownload
  obtain e d where d: "download ou (aqUrl req) dst disk = (e, d)" by fastforce
  show ?thesis
    using assms(2) PDownload d download_ok [of ou "aqUrl req" dst disk d]
    by (cases e) (auto simp: fail_if_def fetched_def)
next
  case PBundle
  show ?thesis
  proof (cases "SkipEnabled (aoEnv ou)")
    case False
    obtain e d where d: "download ou (aqUrl req @ ''.cosign'') bundleDst disk = (e, d)" by fastforce
    show ?thesis
      using assms PBundle False d download_ok [of ou "aqUrl req @ ''.cosign''" bundleDst disk d] paths_differ
      by (cases e) (auto simp: fail_if_def fetched_def bundled_def)
  qed (use assms PBundle in \<open>auto simp: bundled_def\<close>)
next
  case PSha
  with assms show ?thesis
    by (auto simp: digest_ok_def sha256File_def split: if_splits option.splits sum.splits)
next
  case PVerify
  with assms show ?thesis by (auto simp: fail_if_def verified_def split: option.splits)
qed (use assms in \<open>auto simp: fail_if_def split: option.splits sum.splits\<close>)

text \<open>What may be given to \<^verbatim>\<open>swupdate\<close>: the image that was served, with the requested digest, accepted by
  the signature check against the bundle served beside it, and the selector of the other slot.\<close>

definition install_ok :: "'b apply_outside \<Rightarrow> apply_request \<Rightarrow> string \<Rightarrow> bytes option \<Rightarrow> bool" where
  "install_ok ou req selector content \<longleftrightarrow>
     (\<exists>img variant active. content = Some img \<and> aoGet ou (aqUrl req) = Inr (200, img, None) \<and>
       (aqSha256 req \<noteq> '''' \<longrightarrow> hex_encode (aoSha ou img) = aqSha256 req) \<and>
       (\<not> SkipEnabled (aoEnv ou) \<longrightarrow> sigstore_init (aoSigstore ou) = None \<and>
         (\<exists>bs b. aoGet ou (aqUrl req @ ''.cosign'') = Inr (200, bs, None) \<and> sgLoad (aoSigstore ou) bs = Inr b \<and>
           sgCheck (aoSigstore ou) b img = None)) \<and>
       Active (aoCmdline ou) = Inr active \<and> readVariant (aoToml ou) = Inr variant \<and>
       selector = variant @ (if active = ''B'' then '',copy-1'' else '',copy-2''))"

lemma apply_step_action:
  assumes "phase_inv ou req p disk" "apply_step ou req p disk = ((p', acts), disk')" "Swupdate sel content \<in> set acts"
  shows "p = PSwupdate \<and> p' = PDone \<and> install_ok ou req sel content"
proof -
  have p: "p = PSwupdate"
    using assms(2,3) by (cases p) (auto simp: fail_if_def runSwupdate_def split: option.splits prod.splits sum.splits if_splits)
  with assms(2,3) obtain active variant where sel: "content = disk dst" "Active (aoCmdline ou) = Inr active" "readVariant (aoToml ou) = Inr variant"
      "sel = variant @ '','' @ (if active = ''B'' then ''copy-1'' else ''copy-2'')" "p' = PDone"
    by (auto simp: runSwupdate_def swupdateSelector_def split: sum.splits option.splits)
  from assms(1) p obtain img where img: "aoGet ou (aqUrl req) = Inr (200, img, None)" "disk dst = Some img" by (auto simp: fetched_def)
  have "sigstore_init (aoSigstore ou) = None \<and>
      (\<exists>bs b. aoGet ou (aqUrl req @ ''.cosign'') = Inr (200, bs, None) \<and> sgLoad (aoSigstore ou) bs = Inr b \<and>
        sgCheck (aoSigstore ou) b img = None)" if "\<not> SkipEnabled (aoEnv ou)"
    using assms(1) p that img(2) by (auto simp: bundled_def verified_def sigstore_Verify_def split: option.splits sum.splits)
  moreover have "aqSha256 req \<noteq> '''' \<longrightarrow> hex_encode (aoSha ou img) = aqSha256 req"
    using assms(1) p img(2) by (auto simp: digest_ok_def)
  ultimately show ?thesis using p sel img unfolding install_ok_def by auto
qed

fun phases_left :: "apply_phase \<Rightarrow> nat" where
  "phases_left PMkdir = 6" | "phases_left PDownload = 5" | "phases_left PBundle = 4" | "phases_left PSha = 3"
| "phases_left PVerify = 2" | "phases_left PSwupdate = 1" | "phases_left PDone = 0"

definition is_swupdate :: "apply_action \<Rightarrow> bool" where
  "is_swupdate a \<longleftrightarrow> (case a of Swupdate _ _ \<Rightarrow> True | _ \<Rightarrow> False)"

lemma apply_step_left:
  assumes "apply_step ou req p disk = ((p', acts), disk')"
  shows "phases_left p' \<le> phases_left p - 1 \<and> (p \<noteq> PDone \<and> p' = PDone \<longrightarrow> acts \<noteq> []) \<and>
    length (filter is_swupdate acts) \<le> phases_left p - phases_left p' \<and>
    (acts \<noteq> [] \<longrightarrow> p' = PDone) \<and> length (filter is_swupdate acts) \<le> 1 \<and>
    (\<forall>q. q \<noteq> dst \<and> q \<noteq> bundleDst \<longrightarrow> disk' q = disk q)"
  using assms
  by (cases p) (auto simp: fail_if_def runSwupdate_def download_def is_swupdate_def split: option.splits sum.splits if_splits prod.splits)

lemma run_phases_run:
  assumes "phase_inv ou req p disk" "phases_left p \<le> n" "run_phases n ou req p disk = ((p', acts), disk')"
  shows "p' = PDone \<and> (\<forall>sel content. Swupdate sel content \<in> set acts \<longrightarrow> install_ok ou req sel content) \<and>
    (p \<noteq> PDone \<longrightarrow> acts \<noteq> []) \<and> (p = PDone \<longrightarrow> acts = []) \<and> length (filter is_swupdate acts) \<le> 1 \<and>
    (\<forall>q. q \<noteq> dst \<and> q \<noteq> bundleDst \<longrightarrow> disk' q = disk q)"
  using assms
proof (induction n arbitrary: p disk acts)
  case 0
  then show ?case by (cases p) auto
next
  case (Suc n)
  obtain p1 as1 disk1 where s: "apply_step ou req p disk = ((p1, as1), disk1)" by (metis surj_pair)
  obtain as2 where r: "run_phases n ou req p1 disk1 = ((p', as2), disk')" "acts = as1 @ as2"
    using Suc.prems(3) s by (auto split: prod.splits)
  note left = apply_step_left [OF s]
  have "phases_left p1 \<le> n" using left Suc.prems(2) by linarith
  note IH = Suc.IH [OF apply_step_inv [OF Suc.prems(1) s] this r(1)]
  have first: "\<forall>sel content. Swupdate sel content \<in> set as1 \<longrightarrow> install_ok ou req sel content"
    using apply_step_action [OF Suc.prems(1) s] by blast
  have one: "length (filter is_swupdate (as1 @ as2)) \<le> 1"
    using left IH by (cases "as1 = []") auto
  have fin: "p = PDone \<Longrightarrow> as1 = [] \<and> p1 = PDone" using s by simp
  show ?case
    using IH first one left fin r(2) by (cases "as1 = []"; cases "p1 = PDone") auto
qed


text \<open>A rover with two images on offer, of which the signature check accepts only the first.\<close>

definition demo_sigstore :: "bytes sigstore" where
  "demo_sigstore = \<lparr>sgRoot = None, sgVerifier = None, sgIdentity = None, sgLoad = Inr,
     sgCheck = (\<lambda>b img. if img = [1] then None else Some ''bad'')\<rparr>"

definition demo_apply :: "bytes apply_outside" where
  "demo_apply =
     \<lparr>aoEnv = '''', aoMkdir = None,
      aoGet = (\<lambda>url. if url = ''good'' then Inr (200, [1], None) else if url = ''evil'' then Inr (200, [2], None) else Inr (200, [9], None)),
      aoCreate = None, aoSha = id, aoSigstore = demo_sigstore,
      aoCmdline = Inr (''root=PARTUUID='' @ BUUID), aoToml = Inr \<lparr>itVersion = ''1'', itVariant = ''prod'', itPartition = ''A'', itBuiltAt = ''''\<rparr>,
      aoSwupdate = (\<lambda>_. None)\<rparr>"

definition demo_request :: "string \<Rightarrow> apply_request" where
  "demo_request url = \<lparr>aqUrl = url, aqVersion = ''1'', aqSha256 = ''''\<rparr>"

lemma demo_fields:
  "aoEnv demo_apply = ''''" "aoMkdir demo_apply = None" "aoCreate demo_apply = None" "aoSigstore demo_apply = demo_sigstore"
  "aoGet demo_apply url = (if url = ''good'' then Inr (200, [1], None) else if url = ''evil'' then Inr (200, [2], None) else Inr (200, [9], None))"
  "aoSwupdate demo_apply sel = None"
  by (simp_all add: demo_apply_def)

lemma demo_selector: "swupdateSelector (aoCmdline demo_apply) (aoToml demo_apply) = Inr ''prod,copy-1''"
  by code_simp



text \<open>Any occurrence of a slot's id counts, not only the one after \<^verbatim>\<open>root=\<close>.\<close>

lemma active_ignores_root:
  "Active (Inr (''resume=PARTUUID='' @ AUUID @ '' root=PARTUUID='' @ BUUID)) = Inr ''A''"
  by code_simp

end
