(* ===== verification/Episode.thy ===== *)
theory Episode
  imports Descriptor NetText "HOL-Library.List_Lexorder" "HOL-Library.Char_ord"
begin

text \<open>
  Episode files of the recorder, \<^verbatim>\<open>agent/internal/recorder\<close>: the recording set (\<^verbatim>\<open>set.go\<close>), the writer of
  one container (\<^verbatim>\<open>episode.go\<close>), the metadata beside it (\<^verbatim>\<open>sidecar.go\<close>) and the recovery after a crash
  (\<^verbatim>\<open>recover.go\<close>). The recording directory is a map from entry names to files. Of the MCAP library the
  records it accepts are kept; which calls fail, the bytes it has written for them and where the lexer
  stops are arguments. Channel, schema and sequence numbers wrap at their width. The lemmas show that
  every container is well formed at every moment, so that recovery salvages what reached the disk.
\<close>

section \<open>The recording set\<close>

record stream_spec =
  ssSubject :: string
  ssMessage :: string

definition altitudeCommands :: "(string \<times> stream_spec) list" where
  "altitudeCommands =
     [(''body_twist'', \<lparr>ssSubject = ''cmd.drive'', ssMessage = ''waypoint.v1.DriveCommand''\<rparr>),
      (''joint_position'', \<lparr>ssSubject = ''cmd.servo'', ssMessage = ''waypoint.v1.ServoControl''\<rparr>)]"

text \<open>Per class the leaves with their messages; the template \<^verbatim>\<open>module.%s.\<close> is filled in \<open>class_specs\<close>.\<close>

definition componentStreams :: "(string \<times> (string \<times> string) list) list" where
  "componentStreams =
     [(''arm'', [(''arm.state'', ''waypoint.v1.ArmState''), (''arm.cmd'', ''waypoint.v1.ArmCommand'')]),
      (''sensor'', [(''sensor.state'', ''waypoint.v1.SensorReadings'')]),
      (''base'', [(''base.state'', ''waypoint.v1.BaseState''), (''base.cmd'', ''waypoint.v1.BaseCommand'')])]"

definition class_specs :: "string \<Rightarrow> string \<Rightarrow> stream_spec list" where
  "class_specs i class =
     (if class = '''' then []
      else map (\<lambda>(leaf, msg). \<lparr>ssSubject = ''module.'' @ i @ ''.'' @ leaf, ssMessage = msg\<rparr>)
        (case map_of componentStreams class of
           Some tpls \<Rightarrow> tpls
         | None \<Rightarrow> [(class @ ''.state'', ''''), (class @ ''.cmd'', '''')]))"

text \<open>\<open>add\<close>: the first spec of a subject wins.\<close>

definition add_spec :: "stream_spec \<Rightarrow> stream_spec list \<Rightarrow> stream_spec list" where
  "add_spec s out = (if ssSubject s \<in> ssSubject ` set out then out else out @ [s])"

definition ResolveSet :: "descriptor option \<Rightarrow> (string \<times> string list) list \<Rightarrow> stream_spec list" where
  "ResolveSet d components =
     (let obs = (case d of None \<Rightarrow> [] | Some d \<Rightarrow>
            (case dObservations d of None \<Rightarrow> []
             | Some sts \<Rightarrow> map (\<lambda>st. \<lparr>ssSubject = stSubject st, ssMessage = stMessage st\<rparr>) sts));
          acts = (case d of None \<Rightarrow> [] | Some d \<Rightarrow>
            (case dActions d of None \<Rightarrow> [] | Some alts \<Rightarrow> List.map_filter (map_of altitudeCommands) alts));
          mods = concat (map (\<lambda>i. concat (map (class_specs i) (the (map_of components i)))) (sort (map fst components)))
      in foldl (\<lambda>out s. add_spec s out) [] (obs @ acts @ mods))"


section \<open>Sidecars and files\<close>

record sidecar_stream =
  skSubject :: string
  skMessage :: string
  skCount :: nat

record sidecar =
  scFormatVersion :: int
  scEpisodeID :: string
  scPlatformID :: string
  scRoverID :: string
  scTaskLabel :: string
  scStart :: time
  scEnd :: time
  scDuration :: duration
  scSuccess :: "bool option"
  scNotes :: string
  scCrashed :: bool
  scBytes :: nat
  scVideoFramesDropped :: nat
  scStreams :: "sidecar_stream list"

definition FormatVersion :: int where "FormatVersion = 1"

definition empty_sidecar :: sidecar where
  "empty_sidecar =
     \<lparr>scFormatVersion = 0, scEpisodeID = '''', scPlatformID = '''', scRoverID = '''', scTaskLabel = '''', scStart = 0, scEnd = 0,
      scDuration = 0, scSuccess = None, scNotes = '''', scCrashed = False, scBytes = 0, scVideoFramesDropped = 0, scStreams = []\<rparr>"

datatype mcap_record =
    MSchema "16 word" string bytes
  | MChannel "16 word" "16 word" string
  | MMessage "16 word" "32 word" time bytes
  | MMetadata sidecar

text \<open>A container with its records and whether it has a footer, the JSON of a sidecar, or another file.\<close>

datatype rec_file = FMcap "mcap_record list" bool | FSidecar sidecar | FOther

type_synonym rec_dir = "(string \<times> rec_file) list"

datatype fs_call = FsCreate string | FsOpen string | FsWrite string | FsRename string string | FsRemove string
  | FsStat string | FsReadDir

text \<open>The error that \<^verbatim>\<open>os.IsNotExist\<close> recognises.\<close>

definition not_exist :: string where "not_exist = ''not exist''"

definition partialName :: "string \<Rightarrow> string" where "partialName i = i @ ''.mcap.partial''"
definition finalName :: "string \<Rightarrow> string" where "finalName i = i @ ''.mcap''"
definition sidecarName :: "string \<Rightarrow> string" where "sidecarName i = i @ ''.json''"
definition recoveringName :: "string \<Rightarrow> string" where "recoveringName i = i @ ''.mcap.recovering''"

definition write_sidecar :: "(fs_call \<Rightarrow> string option) \<Rightarrow> sidecar \<Rightarrow> rec_dir \<Rightarrow> string option \<times> rec_dir" where
  "write_sidecar fs sc dir =
     (let name = sidecarName (scEpisodeID sc) in
      case fs (FsWrite name) of Some e \<Rightarrow> (Some e, dir) | None \<Rightarrow> (None, map_set name (FSidecar sc) dir))"

definition has_suffix :: "string \<Rightarrow> string \<Rightarrow> bool" where
  "has_suffix s p \<longleftrightarrow> length p \<le> length s \<and> drop (length s - length p) s = p"

text \<open>A sidecar that cannot be read or parsed is skipped; newest first.\<close>

definition listSidecars :: "(fs_call \<Rightarrow> string option) \<Rightarrow> rec_dir \<Rightarrow> string + sidecar list" where
  "listSidecars fs dir =
     (case fs FsReadDir of
        Some e \<Rightarrow> if e = not_exist then Inr [] else Inl e
      | None \<Rightarrow> Inr (rev (sort_key scEpisodeID (List.map_filter
          (\<lambda>(name, f). if has_suffix name ''.json'' \<and> fs (FsOpen name) = None
             then (case f of FSidecar sc \<Rightarrow> Some sc | _ \<Rightarrow> None) else None) dir))))"


section \<open>The episode writer\<close>

record channel_state =
  chId :: "16 word"
  chMessage :: string
  chCount :: nat

record episode_writer =
  ewId :: string
  ewCalls :: nat
  ewRecords :: "mcap_record list"
  ewChannels :: "(string \<times> channel_state) list"
  ewSchemas :: "(string \<times> 16 word) list"
  ewNextChan :: "16 word"
  ewNextSchema :: "16 word"
  ewSeq :: "32 word"

definition mcap_put ::
  "(nat \<Rightarrow> mcap_record \<Rightarrow> string option) \<Rightarrow> mcap_record \<Rightarrow> episode_writer \<Rightarrow> string option \<times> episode_writer" where
  "mcap_put fails r ew =
     (case fails (ewCalls ew) r of
        Some e \<Rightarrow> (Some e, ew \<lparr>ewCalls := Suc (ewCalls ew)\<rparr>)
      | None \<Rightarrow> (None, ew \<lparr>ewCalls := Suc (ewCalls ew), ewRecords := ewRecords ew @ [r]\<rparr>))"

text \<open>\<open>fds\<close> is \<^verbatim>\<open>fileDescriptorSetFor\<close>: the schema of a known message.\<close>

definition schema_for ::
  "(string \<Rightarrow> bytes option) \<Rightarrow> (nat \<Rightarrow> mcap_record \<Rightarrow> string option) \<Rightarrow> string \<Rightarrow> episode_writer \<Rightarrow>
    (string + 16 word) \<times> episode_writer" where
  "schema_for fds fails message ew =
     (if message = '''' then (Inr 0, ew)
      else case map_of (ewSchemas ew) message of
        Some i \<Rightarrow> (Inr i, ew)
      | None \<Rightarrow>
          (case fds message of
             None \<Rightarrow> (Inr 0, ew)
           | Some data \<Rightarrow>
               let ew1 = ew \<lparr>ewNextSchema := ewNextSchema ew + 1\<rparr>;
                   i = ewNextSchema ew1
               in case mcap_put fails (MSchema i message data) ew1 of
                    (Some e, ew2) \<Rightarrow> (Inl e, ew2)
                  | (None, ew2) \<Rightarrow> (Inr i, ew2 \<lparr>ewSchemas := map_set message i (ewSchemas ew2)\<rparr>)))"

definition addChannel ::
  "(string \<Rightarrow> bytes option) \<Rightarrow> (nat \<Rightarrow> mcap_record \<Rightarrow> string option) \<Rightarrow> string \<Rightarrow> string \<Rightarrow> episode_writer \<Rightarrow>
    string option \<times> episode_writer" where
  "addChannel fds fails topic message ew =
     (case map_of (ewChannels ew) topic of
        Some ch \<Rightarrow> (None, ew)
      | None \<Rightarrow>
          (case schema_for fds fails message ew of
             (Inl e, ew1) \<Rightarrow> (Some e, ew1)
           | (Inr schemaID, ew1) \<Rightarrow>
               let i = ewNextChan ew1;
                   ew2 = ew1 \<lparr>ewNextChan := i + 1\<rparr>
               in case mcap_put fails (MChannel i schemaID topic) ew2 of
                    (Some e, ew3) \<Rightarrow> (Some e, ew3)
                  | (None, ew3) \<Rightarrow>
                      (None, ew3 \<lparr>ewChannels := map_set topic \<lparr>chId = i, chMessage = message, chCount = 0\<rparr> (ewChannels ew3)\<rparr>)))"

fun add_channels ::
  "(string \<Rightarrow> bytes option) \<Rightarrow> (nat \<Rightarrow> mcap_record \<Rightarrow> string option) \<Rightarrow> stream_spec list \<Rightarrow> episode_writer \<Rightarrow>
    string option \<times> episode_writer" where
  "add_channels fds fails [] ew = (None, ew)"
| "add_channels fds fails (s # ss) ew =
     (case addChannel fds fails (ssSubject s) (ssMessage s) ew of
        (Some e, ew') \<Rightarrow> (Some e, ew')
      | (None, ew') \<Rightarrow> add_channels fds fails ss ew')"

text \<open>\<open>lib\<close> is the outcome of creating the library's writer and its header. The file is created only if
  there is none, and an error leaves it behind.\<close>

definition newEpisodeWriter ::
  "(fs_call \<Rightarrow> string option) \<Rightarrow> string option \<Rightarrow> (string \<Rightarrow> bytes option) \<Rightarrow> (nat \<Rightarrow> mcap_record \<Rightarrow> string option) \<Rightarrow>
    string \<Rightarrow> stream_spec list \<Rightarrow> rec_dir \<Rightarrow> (string + episode_writer) \<times> rec_dir" where
  "newEpisodeWriter fs lib fds fails i specs dir =
     (case fs (FsCreate (partialName i)) of
        Some e \<Rightarrow> (Inl e, dir)
      | None \<Rightarrow>
          if map_of dir (partialName i) \<noteq> None then (Inl ''file exists'', dir)
          else let dir1 = map_set (partialName i) (FMcap [] False) dir in
            (case lib of
               Some e \<Rightarrow> (Inl e, dir1)
             | None \<Rightarrow>
                 (case add_channels fds fails specs
                     \<lparr>ewId = i, ewCalls = 0, ewRecords = [], ewChannels = [], ewSchemas = [], ewNextChan = 0,
                      ewNextSchema = 0, ewSeq = 0\<rparr> of
                    (Some e, ew) \<Rightarrow> (Inl e, dir1)
                  | (None, ew) \<Rightarrow> (Inr ew, dir1))))"

definition video_topic :: "string \<Rightarrow> string" where
  "video_topic camID = ''camera.'' @ camID @ ''/h264''"

definition addVideoChannel ::
  "(string \<Rightarrow> bytes option) \<Rightarrow> (nat \<Rightarrow> mcap_record \<Rightarrow> string option) \<Rightarrow> string \<Rightarrow> episode_writer \<Rightarrow>
    string option \<times> episode_writer" where
  "addVideoChannel fds fails camID ew = addChannel fds fails (video_topic camID) ''foxglove.CompressedVideo'' ew"

definition ew_write ::
  "(nat \<Rightarrow> mcap_record \<Rightarrow> string option) \<Rightarrow> string \<Rightarrow> bytes \<Rightarrow> time \<Rightarrow> episode_writer \<Rightarrow> string option \<times> episode_writer" where
  "ew_write fails topic data now ew =
     (case map_of (ewChannels ew) topic of
        None \<Rightarrow> (Some (''no channel for topic '' @ topic), ew)
      | Some ch \<Rightarrow>
          let ew1 = ew \<lparr>ewSeq := ewSeq ew + 1\<rparr> in
          case mcap_put fails (MMessage (chId ch) (ewSeq ew1) now data) ew1 of
            (Some e, ew2) \<Rightarrow> (Some e, ew2)
          | (None, ew2) \<Rightarrow> (None, ew2 \<lparr>ewChannels := map_set topic (ch \<lparr>chCount := Suc (chCount ch)\<rparr>) (ewChannels ew2)\<rparr>))"

text \<open>\<open>enc\<close> marshals a frame with its camera and time.\<close>

definition writeVideo ::
  "(string \<times> bytes \<times> time \<Rightarrow> string + bytes) \<Rightarrow> (nat \<Rightarrow> mcap_record \<Rightarrow> string option) \<Rightarrow> string \<Rightarrow> bytes \<Rightarrow> time \<Rightarrow>
    episode_writer \<Rightarrow> string option \<times> episode_writer" where
  "writeVideo enc fails camID au now ew =
     (case enc (camID, au, now) of
        Inl e \<Rightarrow> (Some e, ew)
      | Inr b \<Rightarrow> ew_write fails (video_topic camID) b now ew)"

definition sidecar_streams :: "episode_writer \<Rightarrow> sidecar_stream list" where
  "sidecar_streams ew =
     sort_key skSubject (map (\<lambda>(topic, ch). \<lparr>skSubject = topic, skMessage = chMessage ch, skCount = chCount ch\<rparr>) (ewChannels ew))"

text \<open>\<open>written rs b\<close> are the bytes the library has written for the records \<open>rs\<close>, before and after the close;
  \<open>close\<close> is the outcome of the close.\<close>

definition finalize ::
  "(fs_call \<Rightarrow> string option) \<Rightarrow> (nat \<Rightarrow> mcap_record \<Rightarrow> string option) \<Rightarrow> string option \<Rightarrow> (mcap_record list \<Rightarrow> bool \<Rightarrow> nat) \<Rightarrow>
    sidecar \<Rightarrow> episode_writer \<Rightarrow> rec_dir \<Rightarrow> string option \<times> sidecar \<times> rec_dir" where
  "finalize fs fails close written sc ew dir =
     (let sc1 = sc \<lparr>scStreams := sidecar_streams ew, scBytes := written (ewRecords ew) False\<rparr>;
          ew1 = snd (mcap_put fails (MMetadata sc1) ew);
          sc2 = sc1 \<lparr>scBytes := written (ewRecords ew1) True\<rparr>
      in case close of
           Some e \<Rightarrow> (Some e, sc2, dir)
         | None \<Rightarrow>
             let dir1 = map_set (partialName (ewId ew)) (FMcap (ewRecords ew1) True) dir in
             case fs (FsRename (partialName (ewId ew)) (finalName (ewId ew))) of
               Some e \<Rightarrow> (Some e, sc2, dir1)
             | None \<Rightarrow>
                 let dir2 = map_set (finalName (ewId ew)) (FMcap (ewRecords ew1) True) (map_del (partialName (ewId ew)) dir1)
                 in case write_sidecar fs sc2 dir2 of (e, dir3) \<Rightarrow> (e, sc2, dir3))"


section \<open>Recovery\<close>

text \<open>How the lexer ends: at the end of the file, in a truncated record, or with another error.\<close>

datatype lex_end = LexEOF | LexTruncated | LexError string

definition is_core :: "mcap_record \<Rightarrow> bool" where
  "is_core r \<longleftrightarrow> (case r of MMetadata _ \<Rightarrow> False | _ \<Rightarrow> True)"

text \<open>The records copied so far are the accumulator; \<open>parse\<close> says which records cannot be parsed.\<close>

fun copyRecords ::
  "(mcap_record \<Rightarrow> string option) \<Rightarrow> (nat \<Rightarrow> mcap_record \<Rightarrow> string option) \<Rightarrow> lex_end \<Rightarrow> mcap_record list \<Rightarrow> mcap_record list \<Rightarrow>
    string option \<times> mcap_record list" where
  "copyRecords parse fails fin out [] =
     (case fin of LexEOF \<Rightarrow> (None, out) | LexTruncated \<Rightarrow> (None, out) | LexError e \<Rightarrow> (Some e, out))"
| "copyRecords parse fails fin out (r # rs) =
     (if \<not> is_core r then copyRecords parse fails fin out rs
      else case parse r of
        Some e \<Rightarrow> (Some e, out)
      | None \<Rightarrow>
          (case fails (length out) r of
             Some e \<Rightarrow> (Some e, out)
           | None \<Rightarrow> copyRecords parse fails fin (out @ [r]) rs))"

definition recoverPartial ::
  "(fs_call \<Rightarrow> string option) \<Rightarrow> string option \<Rightarrow> (mcap_record \<Rightarrow> string option) \<Rightarrow> (nat \<Rightarrow> mcap_record \<Rightarrow> string option) \<Rightarrow>
    lex_end \<Rightarrow> string option \<Rightarrow> string \<Rightarrow> rec_dir \<Rightarrow> string option \<times> rec_dir" where
  "recoverPartial fs lib parse fails fin close i dir =
     (case fs (FsOpen (partialName i)) of
        Some e \<Rightarrow> (Some e, dir)
      | None \<Rightarrow>
     (case fs (FsCreate (recoveringName i)) of
        Some e \<Rightarrow> (Some e, dir)
      | None \<Rightarrow>
        if map_of dir (recoveringName i) \<noteq> None then (Some ''file exists'', dir)
        else
        let rs = (case map_of dir (partialName i) of Some (FMcap rs _) \<Rightarrow> rs | _ \<Rightarrow> []);
            remove_tmp = (case fs (FsRemove (recoveringName i)) of
                None \<Rightarrow> dir | Some _ \<Rightarrow> map_set (recoveringName i) (FMcap [] False) dir)
        in case lib of
             Some e \<Rightarrow> (Some e, remove_tmp)
           | None \<Rightarrow>
               (case copyRecords parse fails fin [] rs of
                  (Some e, _) \<Rightarrow> (Some e, remove_tmp)
                | (None, out) \<Rightarrow>
                    (case close of
                       Some e \<Rightarrow> (Some e, remove_tmp)
                     | None \<Rightarrow>
                         (case fs (FsRename (recoveringName i) (finalName i)) of
                            Some e \<Rightarrow> (Some e, remove_tmp)
                          | None \<Rightarrow>
                              let dir1 = map_set (finalName i) (FMcap out True) dir
                              in (case fs (FsRemove (partialName i)) of
                                    Some e \<Rightarrow> (Some e, dir1)
                                  | None \<Rightarrow> (None, map_del (partialName i) dir1)))))))"

text \<open>\<open>outside i\<close> is how library and lexer behave for the partial file \<open>i\<close>; \<open>stat\<close> gives size and
  modification time of a file.\<close>

record recovery_outside =
  roLib :: "string option"
  roParse :: "mcap_record \<Rightarrow> string option"
  roFails :: "nat \<Rightarrow> mcap_record \<Rightarrow> string option"
  roEnd :: lex_end
  roClose :: "string option"

definition recovered_sidecar :: "(rec_file \<Rightarrow> (nat \<times> time) option) \<Rightarrow> string \<Rightarrow> rec_dir \<Rightarrow> sidecar" where
  "recovered_sidecar stat i dir =
     (let sc = empty_sidecar \<lparr>scFormatVersion := FormatVersion, scEpisodeID := i, scCrashed := True,
            scNotes := ''recovered after unclean shutdown; re-footered from partial''\<rparr>
      in case Option.bind (map_of dir (finalName i)) stat of
           None \<Rightarrow> sc
         | Some (n, mtime) \<Rightarrow> sc \<lparr>scBytes := n, scEnd := mtime\<rparr>)"

definition recover_entry ::
  "(fs_call \<Rightarrow> string option) \<Rightarrow> (string \<Rightarrow> recovery_outside) \<Rightarrow> (rec_file \<Rightarrow> (nat \<times> time) option) \<Rightarrow> string \<Rightarrow> rec_dir \<Rightarrow> rec_dir" where
  "recover_entry fs outside stat name dir =
     (if \<not> has_suffix name ''.mcap.partial'' then dir
      else let i = trim_suffix name ''.mcap.partial''; ou = outside i in
        case recoverPartial fs (roLib ou) (roParse ou) (roFails ou) (roEnd ou) (roClose ou) i dir of
          (Some e, dir1) \<Rightarrow> dir1
        | (None, dir1) \<Rightarrow> snd (write_sidecar fs (recovered_sidecar stat i dir1) dir1))"

definition RecoverPartials ::
  "(fs_call \<Rightarrow> string option) \<Rightarrow> (string \<Rightarrow> recovery_outside) \<Rightarrow> (rec_file \<Rightarrow> (nat \<times> time) option) \<Rightarrow> rec_dir \<Rightarrow>
    string option \<times> rec_dir" where
  "RecoverPartials fs outside stat dir =
     (case fs FsReadDir of
        Some e \<Rightarrow> (if e = not_exist then None else Some e, dir)
      | None \<Rightarrow> (None, foldl (\<lambda>d name. recover_entry fs outside stat name d) dir (map fst dir)))"


section \<open>Containers are well formed\<close>

text \<open>Every message belongs to a channel declared before it, every channel to a schema declared before it
  or to none.\<close>

fun mcap_from :: "16 word set \<Rightarrow> 16 word set \<Rightarrow> mcap_record list \<Rightarrow> bool" where
  "mcap_from S C [] = True"
| "mcap_from S C (MSchema i n d # rs) = mcap_from (insert i S) C rs"
| "mcap_from S C (MChannel i s t # rs) = ((s = 0 \<or> s \<in> S) \<and> mcap_from S (insert i C) rs)"
| "mcap_from S C (MMessage c q t d # rs) = (c \<in> C \<and> mcap_from S C rs)"
| "mcap_from S C (MMetadata sc # rs) = mcap_from S C rs"

definition mcap_ok :: "mcap_record list \<Rightarrow> bool" where
  "mcap_ok rs \<longleftrightarrow> mcap_from {} {} rs"

fun schema_ids :: "mcap_record list \<Rightarrow> 16 word set" where
  "schema_ids [] = {}"
| "schema_ids (r # rs) = (case r of MSchema i _ _ \<Rightarrow> {i} | _ \<Rightarrow> {}) \<union> schema_ids rs"

fun channel_ids :: "mcap_record list \<Rightarrow> 16 word set" where
  "channel_ids [] = {}"
| "channel_ids (r # rs) = (case r of MChannel i _ _ \<Rightarrow> {i} | _ \<Rightarrow> {}) \<union> channel_ids rs"

definition messages_on :: "16 word \<Rightarrow> mcap_record list \<Rightarrow> nat" where
  "messages_on c rs = length (filter (\<lambda>r. case r of MMessage c' _ _ _ \<Rightarrow> c' = c | _ \<Rightarrow> False) rs)"

lemma schema_ids_append [simp]: "schema_ids (rs @ ss) = schema_ids rs \<union> schema_ids ss"
  by (induction rs) auto

lemma channel_ids_append [simp]: "channel_ids (rs @ ss) = channel_ids rs \<union> channel_ids ss"
  by (induction rs) auto

lemma messages_on_snoc [simp]:
  "messages_on c (rs @ [r]) = messages_on c rs + (case r of MMessage c' _ _ _ \<Rightarrow> if c' = c then 1 else 0 | _ \<Rightarrow> 0)"
  by (simp add: messages_on_def split: mcap_record.split)

lemma mcap_from_append [simp]:
  "mcap_from S C (rs @ ss) \<longleftrightarrow> mcap_from S C rs \<and> mcap_from (S \<union> schema_ids rs) (C \<union> channel_ids rs) ss"
  by (induction S C rs rule: mcap_from.induct) (auto simp: Un_assoc insert_commute)

lemma mcap_ok_snoc:
  "mcap_ok (rs @ [r]) \<longleftrightarrow> mcap_ok rs \<and>
     (case r of MChannel _ s _ \<Rightarrow> s = 0 \<or> s \<in> schema_ids rs | MMessage c _ _ _ \<Rightarrow> c \<in> channel_ids rs | _ \<Rightarrow> True)"
  by (cases r) (simp_all add: mcap_ok_def)

lemma mcap_ok_prefix: "mcap_ok rs \<Longrightarrow> prefix ss rs \<Longrightarrow> mcap_ok ss"
  by (auto simp: mcap_ok_def prefix_def)

lemma mcap_ok_core: "mcap_ok rs \<Longrightarrow> mcap_ok (filter is_core rs)"
proof -
  have "mcap_from S C rs \<Longrightarrow> mcap_from S C (filter is_core rs)" for S C
    by (induction S C rs rule: mcap_from.induct) (auto simp: is_core_def)
  then show "mcap_ok rs \<Longrightarrow> mcap_ok (filter is_core rs)" by (simp add: mcap_ok_def)
qed

text \<open>The writer's tables agree with what it wrote.\<close>

definition ew_ids :: "episode_writer \<Rightarrow> 16 word list" where
  "ew_ids ew = map (\<lambda>e. chId (snd e)) (ewChannels ew)"

definition ew_ok :: "episode_writer \<Rightarrow> bool" where
  "ew_ok ew \<longleftrightarrow> mcap_ok (ewRecords ew) \<and> wf_map (ewChannels ew) \<and>
     (\<forall>m i. map_of (ewSchemas ew) m = Some i \<longrightarrow> i \<in> schema_ids (ewRecords ew)) \<and>
     set (ew_ids ew) \<subseteq> channel_ids (ewRecords ew) \<and>
     (\<forall>c. messages_on c (ewRecords ew) > 0 \<longrightarrow> c \<in> set (ew_ids ew)) \<and>
     (distinct (ew_ids ew) \<longrightarrow>
       (\<forall>t ch. map_of (ewChannels ew) t = Some ch \<longrightarrow> chCount ch = messages_on (chId ch) (ewRecords ew)))"

lemma ew_okI:
  assumes "mcap_ok (ewRecords ew)" "wf_map (ewChannels ew)"
    and "\<And>m i. map_of (ewSchemas ew) m = Some i \<Longrightarrow> i \<in> schema_ids (ewRecords ew)"
    and "set (ew_ids ew) \<subseteq> channel_ids (ewRecords ew)"
    and "\<And>c. messages_on c (ewRecords ew) > 0 \<Longrightarrow> c \<in> set (ew_ids ew)"
    and "\<And>t ch. distinct (ew_ids ew) \<Longrightarrow> map_of (ewChannels ew) t = Some ch \<Longrightarrow>
      chCount ch = messages_on (chId ch) (ewRecords ew)"
  shows "ew_ok ew"
  using assms unfolding ew_ok_def by blast

lemma ew_okD:
  assumes "ew_ok ew"
  shows "mcap_ok (ewRecords ew)" "wf_map (ewChannels ew)"
    and "\<And>m i. map_of (ewSchemas ew) m = Some i \<Longrightarrow> i \<in> schema_ids (ewRecords ew)"
    and "set (ew_ids ew) \<subseteq> channel_ids (ewRecords ew)"
    and "\<And>c. messages_on c (ewRecords ew) > 0 \<Longrightarrow> c \<in> set (ew_ids ew)"
    and "\<And>t ch. distinct (ew_ids ew) \<Longrightarrow> map_of (ewChannels ew) t = Some ch \<Longrightarrow>
      chCount ch = messages_on (chId ch) (ewRecords ew)"
  using assms unfolding ew_ok_def by blast+

lemma ew_ok_counters [simp]:
  "ew_ok (ew \<lparr>ewNextChan := a\<rparr>) = ew_ok ew" "ew_ok (ew \<lparr>ewCalls := n\<rparr>) = ew_ok ew"
  "ew_ok (ew \<lparr>ewSeq := q\<rparr>) = ew_ok ew" "ew_ok (ew \<lparr>ewNextSchema := b\<rparr>) = ew_ok ew"
  by (simp_all add: ew_ok_def ew_ids_def)

lemma new_schema_ok:
  assumes "ew_ok ew"
  shows "ew_ok (ew \<lparr>ewRecords := ewRecords ew @ [MSchema i m d], ewSchemas := map_set m i (ewSchemas ew)\<rparr>)" (is "ew_ok ?ew")
proof -
  have [simp]: "ew_ids ?ew = ew_ids ew" by (simp add: ew_ids_def)
  show ?thesis
    by (rule ew_okI) (use ew_okD [OF assms] in \<open>auto simp: mcap_ok_snoc split: if_splits\<close>)
qed

lemma schema_for_ok:
  assumes "ew_ok ew" "schema_for fds fails m ew = (r, ew')"
  shows "ew_ok ew' \<and> ewChannels ew' = ewChannels ew \<and> (\<forall>i. r = Inr i \<longrightarrow> i = 0 \<or> i \<in> schema_ids (ewRecords ew'))"
proof -
  let ?ew = "ew \<lparr>ewNextSchema := ewNextSchema ew + 1, ewCalls := Suc (ewCalls ew)\<rparr>"
  let ?i = "ewNextSchema ew + 1"
  show ?thesis
  proof (cases "m = '''' \<or> map_of (ewSchemas ew) m \<noteq> None \<or> fds m = None")
    case True
    then have "ew' = ew" and "\<forall>i. r = Inr i \<longrightarrow> i = 0 \<or> map_of (ewSchemas ew) m = Some i"
      using assms(2) by (auto simp: schema_for_def split: if_splits option.splits)
    with assms(1) ew_okD(3) [OF assms(1), of m] show ?thesis by auto
  next
    case False
    then obtain d where d: "fds m = Some d" "map_of (ewSchemas ew) m = None" "m \<noteq> ''''" by auto
    have ok: "ew_ok ?ew" using assms(1) by simp
    show ?thesis
    proof (cases "fails (ewCalls ew) (MSchema ?i m d)")
      case (Some e)
      with d assms(2) have "r = Inl e" "ew' = ?ew" by (simp_all add: schema_for_def mcap_put_def Let_def)
      with ok show ?thesis by simp
    next
      case None
      with d assms(2) have "r = Inr ?i"
        "ew' = ?ew \<lparr>ewRecords := ewRecords ?ew @ [MSchema ?i m d], ewSchemas := map_set m ?i (ewSchemas ?ew)\<rparr>"
        by (simp_all add: schema_for_def mcap_put_def Let_def)
      with new_schema_ok [OF ok, where i = ?i and m = m and d = d] show ?thesis by simp
    qed
  qed
qed

lemma addChannel_ok:
  assumes "ew_ok ew" "addChannel fds fails t m ew = (e, ew')"
  shows "ew_ok ew'"
proof (cases "map_of (ewChannels ew) t")
  case None
  obtain r ew1 where s: "schema_for fds fails m ew = (r, ew1)" by fastforce
  note ok1 = schema_for_ok [OF assms(1) s]
  then have ids1: "ew_ids ew1 = ew_ids ew" by (simp add: ew_ids_def)
  show ?thesis
  proof (cases r)
    case (Inl x)
    with assms(2) None s ok1 ids1 show ?thesis by (simp add: addChannel_def)
  next
    case (Inr i)
    let ?ch = "\<lparr>chId = ewNextChan ew1, chMessage = m, chCount = 0\<rparr>"
    let ?r = "MChannel (ewNextChan ew1) i t"
    show ?thesis
    proof (cases "fails (ewCalls ew1) ?r")
      case (Some x)
      with assms(2) None s Inr have "ew' = ew1 \<lparr>ewNextChan := ewNextChan ew1 + 1, ewCalls := Suc (ewCalls ew1)\<rparr>"
        by (simp add: addChannel_def mcap_put_def Let_def)
      with ok1 show ?thesis by simp
    next
      case f: None
      have new: "t \<notin> fst ` set (ewChannels ew1)" using ok1 None by (simp add: map_of_eq_None_iff)
      have ew': "ew' = ew1 \<lparr>ewNextChan := ewNextChan ew1 + 1, ewCalls := Suc (ewCalls ew1),
          ewRecords := ewRecords ew1 @ [?r], ewChannels := ewChannels ew1 @ [(t, ?ch)]\<rparr>"
        using assms(2) None s Inr f map_set_new [OF new] by (simp add: addChannel_def mcap_put_def Let_def)
      have i: "i = 0 \<or> i \<in> schema_ids (ewRecords ew1)" and w: "ew_ok ew1" using ok1 Inr by simp_all
      note ok = ew_okD [OF w]
      have new': "ewRecords ew' = ewRecords ew1 @ [?r]" "ewChannels ew' = ewChannels ew1 @ [(t, ?ch)]"
        "ewSchemas ew' = ewSchemas ew1" "ew_ids ew' = ew_ids ew1 @ [ewNextChan ew1]"
        by (simp_all add: ew' ew_ids_def)
      show ?thesis
      proof (rule ew_okI)
        show "wf_map (ewChannels ew')"
          using wf_map_set [OF ok(2), of t ?ch] map_set_new [OF new, of ?ch] by (simp add: new')
        show "c \<in> set (ew_ids ew')" if "messages_on c (ewRecords ew') > 0" for c
          using that ok(5) [of c] by (simp add: new')
        show "chCount c = messages_on (chId c) (ewRecords ew')"
          if d: "distinct (ew_ids ew')" and m: "map_of (ewChannels ew') u = Some c" for u c
        proof (cases "map_of (ewChannels ew1) u")
          case None
          with m have c: "c = ?ch" by (auto simp: new' map_add_def split: if_splits)
          have "ewNextChan ew1 \<notin> set (ew_ids ew1)" using d new' by simp
          then have "messages_on (ewNextChan ew1) (ewRecords ew1) = 0" using ok(5) by blast
          with c show ?thesis by (simp add: new')
        next
          case (Some c')
          then have u: "map_of (ewChannels ew1 @ [(t, ?ch)]) u = Some c'"
            using new by (auto simp: map_add_def)
          with m have "c = c'" by (simp add: new')
          with ok(6) [OF _ Some] d new' show ?thesis by (simp add: new')
        qed
      qed (use ok i in \<open>auto simp: new' mcap_ok_snoc\<close>)
    qed
  qed
qed (use assms in \<open>simp add: addChannel_def\<close>)

lemma map_fst_map_set: "map_of m k = Some v \<Longrightarrow> map fst (map_set k w m) = map fst m"
  by (induction m) (auto split: if_splits)

lemma ids_map_set:
  "map_of m k = Some v \<Longrightarrow> chId w = chId v \<Longrightarrow> map (\<lambda>e. chId (snd e)) (map_set k w m) = map (\<lambda>e. chId (snd e)) m"
  by (induction m) (auto split: if_splits)

lemma distinct_ids_same:
  assumes "distinct (map (\<lambda>e. f (snd e)) m)" "map_of m k = Some v" "map_of m k' = Some v'" "f v = f v'"
  shows "k = k'"
proof -
  have "(k, v) \<in> set m" "(k', v') \<in> set m" using assms(2,3) by (auto dest: map_of_SomeD)
  moreover have "inj_on (\<lambda>e. f (snd e)) (set m)" using assms(1) by (simp add: distinct_map)
  ultimately have "(k, v) = (k', v')" using assms(4) inj_onD [of "\<lambda>e. f (snd e)" "set m" "(k, v)" "(k', v')"] by simp
  then show ?thesis by simp
qed

lemma ew_write_ok:
  assumes "ew_ok ew" "ew_write fails t d now ew = (e, ew')"
  shows "ew_ok ew'"
proof (cases "map_of (ewChannels ew) t")
  case (Some ch)
  let ?r = "MMessage (chId ch) (ewSeq ew + 1) now d"
  show ?thesis
  proof (cases "fails (ewCalls ew) ?r")
    case (Some x)
    with assms \<open>map_of (ewChannels ew) t = Some ch\<close> show ?thesis
      by (auto simp: ew_write_def mcap_put_def Let_def)
  next
    case None
    let ?ch = "ch \<lparr>chCount := Suc (chCount ch)\<rparr>"
    have ew': "ew' = ew \<lparr>ewSeq := ewSeq ew + 1, ewCalls := Suc (ewCalls ew), ewRecords := ewRecords ew @ [?r],
        ewChannels := map_set t ?ch (ewChannels ew)\<rparr>"
      using assms(2) Some None by (simp add: ew_write_def mcap_put_def Let_def)
    have new': "ewRecords ew' = ewRecords ew @ [?r]" "ewChannels ew' = map_set t ?ch (ewChannels ew)"
      "ewSchemas ew' = ewSchemas ew" "ew_ids ew' = ew_ids ew"
      using ids_map_set [OF Some, of ?ch] by (simp_all add: ew' ew_ids_def)
    have in_ids: "chId ch \<in> set (ew_ids ew)"
      using map_of_SomeD [OF Some] by (force simp: ew_ids_def)
    note ok = ew_okD [OF assms(1)]
    have counts: "chCount c = messages_on (chId c) (ewRecords ew')"
      if "distinct (ew_ids ew)" "map_of (ewChannels ew') u = Some c" for u c
    proof (cases "u = t")
      case True
      with that Some ok(6) [OF that(1) Some] show ?thesis by (auto simp: new')
    next
      case False
      with that(2) have c: "map_of (ewChannels ew) u = Some c" by (simp add: new')
      have "chId c \<noteq> chId ch"
      proof
        assume "chId c = chId ch"
        from distinct_ids_same [OF that(1) [unfolded ew_ids_def] c Some this] False show False by simp
      qed
      with ok(6) [OF that(1) c] show ?thesis by (simp add: new')
    qed
    show ?thesis
    proof (rule ew_okI)
      show "mcap_ok (ewRecords ew')" using ok(1,4) in_ids by (auto simp: new' mcap_ok_snoc)
      show "wf_map (ewChannels ew')" unfolding new' using ok(2) by (rule wf_map_set)
      show "i \<in> schema_ids (ewRecords ew')" if "map_of (ewSchemas ew') m = Some i" for m i
        using ok(3) that by (simp add: new')
      show "set (ew_ids ew') \<subseteq> channel_ids (ewRecords ew')" using ok(4) by (auto simp: new')
      show "c \<in> set (ew_ids ew')" if "messages_on c (ewRecords ew') > 0" for c
        using that ok(5) [of c] in_ids by (auto simp: new' split: if_splits)
      show "chCount c = messages_on (chId c) (ewRecords ew')"
        if "distinct (ew_ids ew')" "map_of (ewChannels ew') u = Some c" for u c
        using that by (intro counts) (simp_all add: new'(4))
    qed
  qed
qed (use assms in \<open>simp add: ew_write_def\<close>)

text \<open>What an episode's writer is asked to do.\<close>

datatype ew_op = OpChannel string string | OpWrite string bytes time

fun ew_step ::
  "(string \<Rightarrow> bytes option) \<Rightarrow> (nat \<Rightarrow> mcap_record \<Rightarrow> string option) \<Rightarrow> ew_op \<Rightarrow> episode_writer \<Rightarrow> episode_writer" where
  "ew_step fds fails (OpChannel t m) ew = snd (addChannel fds fails t m ew)"
| "ew_step fds fails (OpWrite t d now) ew = snd (ew_write fails t d now ew)"

lemma ew_step_ok: "ew_ok ew \<Longrightarrow> ew_ok (ew_step fds fails op ew)"
  by (cases op) (auto intro: addChannel_ok ew_write_ok prod.collapse [symmetric])

lemma add_channels_ok: "ew_ok ew \<Longrightarrow> add_channels fds fails ss ew = (e, ew') \<Longrightarrow> ew_ok ew'"
proof (induction ss arbitrary: ew)
  case (Cons s ss)
  obtain e1 ew1 where a: "addChannel fds fails (ssSubject s) (ssMessage s) ew = (e1, ew1)" by fastforce
  from addChannel_ok [OF Cons.prems(1) a] have "ew_ok ew1" .
  with Cons a show ?case by (cases e1) auto
qed simp

lemma newEpisodeWriter_ok:
  assumes "newEpisodeWriter fs lib fds fails i specs dir = (Inr ew, dir')"
  shows "ew_ok ew \<and> ewId ew = i \<and> map_of dir (partialName i) = None \<and> dir' = map_set (partialName i) (FMcap [] False) dir"
proof -
  let ?ew = "\<lparr>ewId = i, ewCalls = 0, ewRecords = [], ewChannels = [], ewSchemas = [], ewNextChan = 0, ewNextSchema = 0, ewSeq = 0\<rparr>"
  have ok: "ew_ok ?ew" by (simp add: ew_ok_def mcap_ok_def ew_ids_def messages_on_def)
  have keep: "ewId (snd (add_channels fds fails ss w)) = ewId w" for ss w
  proof (induction ss arbitrary: w)
    case (Cons s ss)
    have "ewId (snd (addChannel fds fails t m w)) = ewId w" for t m w
      by (auto simp: addChannel_def schema_for_def mcap_put_def Let_def split: option.splits prod.splits if_splits)
    with Cons show ?case
      by (auto split: prod.splits option.splits) (metis snd_conv)+
  qed simp
  from assms have "add_channels fds fails specs ?ew = (None, ew)" and rest: "map_of dir (partialName i) = None"
    "dir' = map_set (partialName i) (FMcap [] False) dir"
    by (auto simp: newEpisodeWriter_def Let_def split: option.splits if_splits prod.splits)
  with add_channels_ok [OF ok] keep [of specs ?ew] show ?thesis by simp
qed


section \<open>Recovery salvages what reached the disk\<close>

lemma copyRecords_result:
  "copyRecords parse fails fin out rs = (None, out') \<Longrightarrow> out' = out @ filter is_core rs"
  by (induction parse fails fin out rs rule: copyRecords.induct) (auto split: if_splits option.splits lex_end.splits)

lemma copyRecords_succeeds:
  assumes "\<And>r. parse r = None" "\<And>n r. fails n r = None" "\<And>e. fin \<noteq> LexError e"
  shows "copyRecords parse fails fin out rs = (None, out @ filter is_core rs)"
  by (induction rs arbitrary: out) (use assms in \<open>auto split: lex_end.splits\<close>)

text \<open>The entries of one episode.\<close>

definition entries_of :: "string \<Rightarrow> string set" where
  "entries_of i = {partialName i, finalName i, sidecarName i, recoveringName i}"

lemmas entry_names = partialName_def finalName_def sidecarName_def recoveringName_def

lemma entry_names_inj:
  "partialName i = partialName j \<longleftrightarrow> i = j" "finalName i = finalName j \<longleftrightarrow> i = j"
  "sidecarName i = sidecarName j \<longleftrightarrow> i = j" "recoveringName i = recoveringName j \<longleftrightarrow> i = j"
  by (simp_all add: entry_names)

lemma last_char_neq: "last s \<noteq> last t \<Longrightarrow> s \<noteq> t" by auto

lemma entry_names_neq:
  "partialName i \<noteq> finalName j" "partialName i \<noteq> sidecarName j" "partialName i \<noteq> recoveringName j"
  "finalName i \<noteq> sidecarName j" "finalName i \<noteq> recoveringName j" "sidecarName i \<noteq> recoveringName j"
  by (rule last_char_neq, simp add: entry_names)+

lemmas entry_simps = entry_names_inj entry_names_neq entry_names_neq [symmetric]

lemma entries_disjoint: "i \<noteq> j \<Longrightarrow> entries_of i \<inter> entries_of j = {}"
  by (auto simp: entries_of_def entry_simps)

lemma recoverPartial_frame:
  "recoverPartial fs lib parse fails fin close i dir = (e, dir') \<Longrightarrow> n \<notin> entries_of i \<Longrightarrow> map_of dir' n = map_of dir n"
  by (auto simp: recoverPartial_def entries_of_def Let_def split: option.splits if_splits prod.splits)

lemma recoverPartial_success:
  assumes "recoverPartial fs lib parse fails fin close i dir = (None, dir')" "map_of dir (partialName i) = Some (FMcap rs b)"
  shows "map_of dir' (finalName i) = Some (FMcap (filter is_core rs) True) \<and> map_of dir' (partialName i) = None \<and>
    map_of dir' (recoveringName i) = None"
  using assms copyRecords_result [of parse fails fin "[]" rs]
  by (auto simp: recoverPartial_def Let_def entry_simps split: option.splits if_splits prod.splits)

lemma recoverPartial_failure:
  assumes "recoverPartial fs lib parse fails fin close i dir = (Some e, dir')"
  shows "map_of dir' (partialName i) = map_of dir (partialName i)"
  using assms
  by (auto simp: recoverPartial_def Let_def entry_simps split: option.splits if_splits prod.splits)

lemma recoverPartial_succeeds:
  assumes "\<And>c. fs c = None" "lib = None" "\<And>r. parse r = None" "\<And>n r. fails n r = None" "\<And>e. fin \<noteq> LexError e"
    "close = None" "map_of dir (recoveringName i) = None"
  shows "fst (recoverPartial fs lib parse fails fin close i dir) = None"
  using copyRecords_succeeds [of parse fails fin, OF assms(3,4,5)] assms(1,2,6,7)
  by (simp add: recoverPartial_def Let_def)

lemma has_suffix_iff: "has_suffix s p \<longleftrightarrow> (\<exists>i. s = i @ p)"
  unfolding has_suffix_def by (metis append_take_drop_id append_eq_conv_conj diff_add_inverse2 le_add2 length_append)

lemma trim_partial: "trim_suffix (partialName i) ''.mcap.partial'' = i"
  by (simp add: trim_suffix_def partialName_def has_prefix_def)

lemma recover_entry_cases:
  obtains (other) "\<And>i. name \<noteq> partialName i" "recover_entry fs outside stat name dir = dir"
  | (partial) i where "name = partialName i"
proof (cases "has_suffix name ''.mcap.partial''")
  case True
  then show thesis using partial by (auto simp: has_suffix_iff partialName_def)
next
  case False
  then show thesis using other by (auto simp: has_suffix_iff partialName_def recover_entry_def)
qed

lemma recover_entry_frame:
  assumes "name \<noteq> partialName i" "n \<in> entries_of i"
  shows "map_of (recover_entry fs outside stat name dir) n = map_of dir n"
proof (cases rule: recover_entry_cases [of name fs outside stat dir])
  case (partial j)
  then have j: "j \<noteq> i" using assms(1) by blast
  then have n: "n \<notin> entries_of j" using assms(2) entries_disjoint by blast
  obtain e dir1 where r: "recoverPartial fs (roLib (outside j)) (roParse (outside j)) (roFails (outside j)) (roEnd (outside j))
      (roClose (outside j)) j dir = (e, dir1)" by fastforce
  have suf: "has_suffix (partialName j) ''.mcap.partial''" by (auto simp: has_suffix_iff partialName_def)
  have "scEpisodeID (recovered_sidecar stat j d) = j" for d
    by (auto simp: recovered_sidecar_def Let_def split: option.splits)
  then have "map_of (snd (write_sidecar fs (recovered_sidecar stat j dir1) dir1)) n = map_of dir1 n"
    using n by (auto simp: write_sidecar_def Let_def entries_of_def split: option.splits)
  with recoverPartial_frame [OF r n] show ?thesis
    by (simp add: recover_entry_def partial suf trim_partial r Let_def split: option.split)
qed simp

lemma recover_fold_frame:
  assumes "partialName i \<notin> set names" "n \<in> entries_of i"
  shows "map_of (foldl (\<lambda>d name. recover_entry fs outside stat name d) dir names) n = map_of dir n"
  using assms(1)
proof (induction names arbitrary: dir)
  case (Cons name names)
  from Cons.prems have "name \<noteq> partialName i" "partialName i \<notin> set names" by auto
  with Cons.IH [of "recover_entry fs outside stat name dir"] recover_entry_frame [OF _ assms(2)] show ?case by simp
qed simp

text \<open>The run of \<^verbatim>\<open>RecoverPartials\<close> seen by one episode: only its own entry counts.\<close>

lemma RecoverPartials_one:
  assumes "wf_map dir" "map_of dir (partialName i) \<noteq> None" "fs FsReadDir = None" "RecoverPartials fs outside stat dir = (e, dir')"
  obtains d where "\<And>n. n \<in> entries_of i \<Longrightarrow> map_of d n = map_of dir n"
    and "\<And>n. n \<in> entries_of i \<Longrightarrow> map_of dir' n = map_of (recover_entry fs outside stat (partialName i) d) n"
proof -
  have "partialName i \<in> set (map fst dir)" using assms(2) by (auto simp: map_of_eq_None_iff)
  then obtain xs ys where split: "map fst dir = xs @ partialName i # ys" by (auto simp: in_set_conv_decomp)
  have "distinct (map fst dir)" using assms(1) by (simp add: wf_map_def)
  then have notin: "partialName i \<notin> set xs" "partialName i \<notin> set ys" unfolding split by auto
  let ?run = "foldl (\<lambda>d name. recover_entry fs outside stat name d)"
  have dir': "dir' = ?run (recover_entry fs outside stat (partialName i) (?run dir xs)) ys"
    using assms(3,4) by (simp add: RecoverPartials_def split)
  show thesis
  proof
    show "map_of (?run dir xs) n = map_of dir n" if "n \<in> entries_of i" for n
      using notin(1) that by (rule recover_fold_frame)
    show "map_of dir' n = map_of (recover_entry fs outside stat (partialName i) (?run dir xs)) n" if "n \<in> entries_of i" for n
      unfolding dir' using notin(2) that by (rule recover_fold_frame)
  qed
qed

lemma recover_entry_self:
  "recover_entry fs outside stat (partialName i) d =
     (case recoverPartial fs (roLib (outside i)) (roParse (outside i)) (roFails (outside i)) (roEnd (outside i)) (roClose (outside i)) i d of
        (Some e, dir1) \<Rightarrow> dir1
      | (None, dir1) \<Rightarrow> snd (write_sidecar fs (recovered_sidecar stat i dir1) dir1))"
proof -
  have "has_suffix (partialName i) ''.mcap.partial''" by (auto simp: has_suffix_iff partialName_def)
  then show ?thesis by (simp add: recover_entry_def trim_partial Let_def)
qed

lemma recovered_sidecar_id [simp]:
  "scEpisodeID (recovered_sidecar stat i d) = i" "scCrashed (recovered_sidecar stat i d)" "scSuccess (recovered_sidecar stat i d) = None"
  by (auto simp: recovered_sidecar_def empty_sidecar_def Let_def split: option.splits)

lemma write_sidecar_other: "n \<noteq> sidecarName (scEpisodeID sc) \<Longrightarrow> map_of (snd (write_sidecar fs sc d)) n = map_of d n"
  by (auto simp: write_sidecar_def Let_def split: option.splits)

definition outside_ok :: "recovery_outside \<Rightarrow> bool" where
  "outside_ok ou \<longleftrightarrow> roLib ou = None \<and> (\<forall>r. roParse ou r = None) \<and> (\<forall>n r. roFails ou n r = None) \<and>
     (\<forall>e. roEnd ou \<noteq> LexError e) \<and> roClose ou = None"


text \<open>An interrupted recovery leaves its temporary file, and from then on the episode is skipped.\<close>

lemma stale_recovery_file:
  assumes "map_of dir (recoveringName i) \<noteq> None"
  shows "\<exists>x. recoverPartial fs lib parse fails fin close i dir = (Some x, dir)"
  using assms by (auto simp: recoverPartial_def split: option.splits)


end
