(* ===== verification/Video.thy ===== *)
theory Video
  imports Prelude
begin

text \<open>
  The path of a camera's video through the agent: the Annex-B reader that splits the encoder's byte
  stream into NAL units (\<^verbatim>\<open>agent/internal/cameras/h264/annexb.go\<close>), the pump that moves them into a
  channel (\<^verbatim>\<open>pipeline/gst_proc.go\<close>), and the part of \<^verbatim>\<open>camera.go\<close> that groups them into access units
  and restarts a pipeline that died. The stream is the sequence of answers of \<^verbatim>\<open>ReadByte\<close>; whether the
  channel has room for the n-th unit is an argument. The lemmas show that the pump always ends, what
  the reader makes of a well-formed stream, and that regrouping the units loses nothing.
\<close>

section \<open>The Annex-B reader\<close>

datatype read_error = EOF | ReadError string

text \<open>What the buffered reader answers to successive \<^verbatim>\<open>ReadByte\<close> calls; after the last one it is at
  the end of the stream.\<close>

datatype read_event = RByte "8 word" | RErr read_error

fun ReadByte :: "read_event list \<Rightarrow> (read_error + 8 word) \<times> read_event list" where
  "ReadByte [] = (Inl EOF, [])"
| "ReadByte (RByte b # s) = (Inr b, s)"
| "ReadByte (RErr e # s) = (Inl e, s)"

text \<open>\<open>rdBuf\<close> says that \<^verbatim>\<open>buf\<close> is not nil: the first start code has been read.\<close>

record nal_reader =
  rdStream :: "read_event list"
  rdBuf :: bool
  rdEofd :: bool

definition NewReader :: "read_event list \<Rightarrow> nal_reader" where
  "NewReader s = \<lparr>rdStream = s, rdBuf = False, rdEofd = False\<rparr>"

fun skip_loop ::
  "8 word \<times> 8 word \<times> 8 word \<times> 8 word \<Rightarrow> read_event list \<Rightarrow> read_error option \<times> read_event list" where
  "skip_loop w [] = (Some EOF, [])"
| "skip_loop w (RErr e # s) = (Some e, s)"
| "skip_loop (w0, w1, w2, w3) (RByte b # s) =
     (if w2 = 0 \<and> w3 = 0 \<and> b = 1 then (None, s)
      else if w1 = 0 \<and> w2 = 0 \<and> w3 = 0 \<and> b = 1 then (None, s)
      else skip_loop (w1, w2, w3, b) s)"

definition skipToStart :: "read_event list \<Rightarrow> read_error option \<times> read_event list" where
  "skipToStart s = skip_loop (0, 0, 0, 0) s"

definition hasTrailingStart :: "bytes \<Rightarrow> bool" where
  "hasTrailingStart p =
     (if length p < 3 then False
      else let tail3 = drop (length p - 3) p in
        if tail3 ! 0 = 0 \<and> tail3 ! 1 = 0 \<and> tail3 ! 2 = 1 then True
        else if length p \<ge> 4 then
          (let tail4 = drop (length p - 4) p in
             tail4 ! 0 = 0 \<and> tail4 ! 1 = 0 \<and> tail4 ! 2 = 0 \<and> tail4 ! 3 = 1)
        else False)"

definition trimTrailingStart :: "bytes \<Rightarrow> bytes \<times> nat" where
  "trimTrailingStart p =
     (if length p \<ge> 4 \<and> drop (length p - 4) p = [0, 0, 0, 1] then (take (length p - 4) p, 4)
      else (take (length p - 3) p, 3))"

text \<open>The loop of \<^verbatim>\<open>ReadNAL\<close>, with the new value of \<^verbatim>\<open>eofd\<close>.\<close>

fun nal_loop :: "bytes \<Rightarrow> read_event list \<Rightarrow> bool \<times> (read_error + bytes) \<times> read_event list" where
  "nal_loop payload [] = (if payload \<noteq> [] then (True, Inr payload, []) else (False, Inl EOF, []))"
| "nal_loop payload (RErr e # s) =
     (if e = EOF \<and> payload \<noteq> [] then (True, Inr payload, s) else (False, Inl e, s))"
| "nal_loop payload (RByte b # s) =
     (let p = payload @ [b] in
      if hasTrailingStart p then (False, Inr (fst (trimTrailingStart p)), s) else nal_loop p s)"

definition ReadNAL :: "nal_reader \<Rightarrow> (read_error + bytes) \<times> nal_reader" where
  "ReadNAL r =
     (if rdEofd r then (Inl EOF, r)
      else case (if rdBuf r then (None, rdStream r) else skipToStart (rdStream r)) of
        (Some e, s) \<Rightarrow> (Inl e, r \<lparr>rdStream := s\<rparr>)
      | (None, s) \<Rightarrow>
          (case nal_loop [] s of (eofd, res, s') \<Rightarrow>
             (res, r \<lparr>rdStream := s', rdBuf := True, rdEofd := eofd\<rparr>)))"


section \<open>The pump\<close>

text \<open>The loop of \<^verbatim>\<open>gstProc.pump\<close>: \<open>room n\<close> says whether the channel can take the unit of the n-th
  round; one that does not fit is dropped. The result is the error that ended the loop, the units
  sent and the reader.\<close>

partial_function (option) pump_loop ::
  "(nat \<Rightarrow> bool) \<Rightarrow> nat \<Rightarrow> nal_reader \<Rightarrow> bytes list \<Rightarrow> (read_error \<times> bytes list \<times> nal_reader) option" where
  "pump_loop room n nr out =
     (case ReadNAL nr of
        (Inl err, nr') \<Rightarrow> Some (err, out, nr')
      | (Inr nal, nr') \<Rightarrow>
          pump_loop room (Suc n) nr' (if nal \<noteq> [] \<and> room n then out @ [nal] else out))"

definition pump :: "(nat \<Rightarrow> bool) \<Rightarrow> read_event list \<Rightarrow> (read_error \<times> bytes list \<times> nal_reader) option" where
  "pump room s = pump_loop room 0 (NewReader s) []"


section \<open>Access units\<close>

definition nalTypeAUD :: "8 word" where "nalTypeAUD = 9"
definition nalTypeIDR :: "8 word" where "nalTypeIDR = 5"

definition startCode4 :: bytes where "startCode4 = [0, 0, 0, 1]"

definition nal_type :: "bytes \<Rightarrow> 8 word" where
  "nal_type nal = and (hd nal) 0x1f"

record fanout_state =
  fsAu :: bytes
  fsKeyframe :: bool

definition fanout_init :: fanout_state where
  "fanout_init = \<lparr>fsAu = [], fsKeyframe = False\<rparr>"

text \<open>\<open>flush\<close>: the access unit handed to every track and tap, with its keyframe flag, if there is one.\<close>

definition fanout_flush :: "fanout_state \<Rightarrow> (bytes \<times> bool) list \<times> fanout_state" where
  "fanout_flush f =
     (if length (fsAu f) = 0 then ([], f)
      else ([(fsAu f, fsKeyframe f)], f \<lparr>fsAu := [], fsKeyframe := False\<rparr>))"

text \<open>The body of the select for one unit.\<close>

definition fanout_nal :: "bytes \<Rightarrow> fanout_state \<Rightarrow> (bytes \<times> bool) list \<times> fanout_state" where
  "fanout_nal nal f =
     (if length nal = 0 then ([], f)
      else case (if nal_type nal = nalTypeAUD then fanout_flush f else ([], f)) of
        (out, f1) \<Rightarrow>
          let f2 = (if nal_type nal = nalTypeIDR then f1 \<lparr>fsKeyframe := True\<rparr> else f1)
          in (out, f2 \<lparr>fsAu := (fsAu f2 @ startCode4) @ nal\<rparr>))"

text \<open>What the select may receive: the context is done, the channel is closed, or a unit arrives.\<close>

datatype frame_event = FrameDone | FrameClosed | FrameNal bytes

fun fanout :: "fanout_state \<Rightarrow> frame_event list \<Rightarrow> (bytes \<times> bool) list" where
  "fanout f [] = []"
| "fanout f (FrameDone # es) = []"
| "fanout f (FrameClosed # es) = fst (fanout_flush f)"
| "fanout f (FrameNal nal # es) = (case fanout_nal nal f of (out, f') \<Rightarrow> out @ fanout f' es)"


section \<open>Restarting a pipeline\<close>

definition pipelineRestartMin :: duration where "pipelineRestartMin = 1000000000"
definition pipelineRestartMax :: duration where "pipelineRestartMax = 15 * 1000000000"
definition pipelineHealthyRun :: duration where "pipelineHealthyRun = 30 * 1000000000"

text \<open>One round of \<^verbatim>\<open>supervise\<close> after a run that lasted \<open>took\<close>: the delay before the next start, and the
  new \<^verbatim>\<open>backoff\<close>.\<close>

definition supervise_round :: "duration \<Rightarrow> duration \<Rightarrow> duration \<times> duration" where
  "supervise_round took backoff =
     (let b = (if took \<ge> pipelineHealthyRun then pipelineRestartMin else backoff);
          b' = (if b < pipelineRestartMax
                then (let d = b * 2 in if d > pipelineRestartMax then pipelineRestartMax else d)
                else b)
      in (b, b'))"

text \<open>The delays over a sequence of runs.\<close>

fun supervise :: "duration \<Rightarrow> duration list \<Rightarrow> duration list" where
  "supervise backoff [] = []"
| "supervise backoff (took # rs) =
     (case supervise_round took backoff of (d, backoff') \<Rightarrow> d # supervise backoff' rs)"


section \<open>The reader ends\<close>

text \<open>What is left to read, counting the end of the stream.\<close>

definition reader_left :: "nal_reader \<Rightarrow> nat" where
  "reader_left r = length (rdStream r) + (if rdEofd r then 0 else 1)"

fun stream_bytes :: "read_event list \<Rightarrow> nat" where
  "stream_bytes [] = 0"
| "stream_bytes (RByte b # s) = Suc (stream_bytes s)"
| "stream_bytes (RErr e # s) = stream_bytes s"

lemma skip_loop_left:
  "skip_loop w s = (e, s') \<Longrightarrow> length s' \<le> length s \<and> stream_bytes s' \<le> stream_bytes s"
  by (induction w s arbitrary: e s' rule: skip_loop.induct) (fastforce split: if_splits)+

lemma trimTrailingStart_length: "length (fst (trimTrailingStart p)) \<le> length p"
  by (simp add: trimTrailingStart_def)

lemma nal_loop_left:
  "nal_loop p s = (eofd, Inr nal, s') \<Longrightarrow>
     (\<not> eofd \<longrightarrow> length s' < length s) \<and> length s' \<le> length s \<and>
     length nal + stream_bytes s' \<le> length p + stream_bytes s"
proof (induction p s arbitrary: eofd nal s' rule: nal_loop.induct)
  case (3 p b s)
  show ?case
  proof (cases "hasTrailingStart (p @ [b])")
    case True
    with 3(2) trimTrailingStart_length [of "p @ [b]"] show ?thesis by auto
  next
    case False
    with 3 show ?thesis by (fastforce simp: Let_def)
  qed
qed (auto split: if_splits)

lemma ReadNAL_left:
  assumes "ReadNAL r = (Inr nal, r')"
  shows "reader_left r' < reader_left r \<and>
    length nal + stream_bytes (rdStream r') \<le> stream_bytes (rdStream r)"
proof -
  from assms have eofd: "\<not> rdEofd r" by (auto simp: ReadNAL_def)
  obtain s where s: "(if rdBuf r then (None, rdStream r) else skipToStart (rdStream r)) = (None, s)"
    using assms by (auto simp: ReadNAL_def split: if_splits prod.splits option.splits)
  have s_le: "length s \<le> length (rdStream r) \<and> stream_bytes s \<le> stream_bytes (rdStream r)"
    using s skip_loop_left by (auto simp: skipToStart_def split: if_splits)
  obtain e s' where n: "nal_loop [] s = (e, Inr nal, s')"
      "r' = r \<lparr>rdStream := s', rdBuf := True, rdEofd := e\<rparr>"
    using assms eofd s by (auto simp: ReadNAL_def split: prod.splits)
  show ?thesis
    using nal_loop_left [OF n(1)] n(2) s_le eofd by (auto simp: reader_left_def)
qed

lemma pump_loop_ends:
  "\<exists>err out' nr'. pump_loop room n nr out = Some (err, out', nr') \<and>
     length (concat out') \<le> length (concat out) + stream_bytes (rdStream nr) \<and> [] \<notin> set out' - set out"
proof (induction "reader_left nr" arbitrary: n nr out rule: less_induct)
  case less
  obtain res nr1 where r: "ReadNAL nr = (res, nr1)" by fastforce
  show ?case
  proof (cases res)
    case (Inl err)
    with r show ?thesis by (simp add: pump_loop.simps [of room n])
  next
    case (Inr nal)
    let ?out = "if nal \<noteq> [] \<and> room n then out @ [nal] else out"
    note left = ReadNAL_left [OF r [unfolded Inr]]
    obtain err out' nr' where *: "pump_loop room (Suc n) nr1 ?out = Some (err, out', nr')"
        "length (concat out') \<le> length (concat ?out) + stream_bytes (rdStream nr1)" "[] \<notin> set out' - set ?out"
      using less [of nr1 "Suc n" ?out] left by blast
    from r Inr have step: "pump_loop room n nr out = pump_loop room (Suc n) nr1 ?out"
      by (simp add: pump_loop.simps [of room n nr])
    have "length (concat ?out) \<le> length (concat out) + length nal" by auto
    with *(2) left have "length (concat out') \<le> length (concat out) + stream_bytes (rdStream nr)" by linarith
    moreover from *(3) have "[] \<notin> set out' - set out" by (auto split: if_splits)
    ultimately show ?thesis using step *(1) by auto
  qed
qed

lemma length_le_concat: "[] \<notin> set xs \<Longrightarrow> length xs \<le> length (concat xs)"
proof (induction xs)
  case (Cons x xs)
  then show ?case by (cases x) auto
qed simp



section \<open>Well-formed streams\<close>

text \<open>A NAL unit as an encoder emits it: not empty, without a start code inside, and not ending in a
  zero byte.\<close>

fun has_start :: "bytes \<Rightarrow> bool" where
  "has_start [] = False"
| "has_start (b # bs) = (take 3 (b # bs) = [0, 0, 1] \<or> has_start bs)"

definition nal_ok :: "bytes \<Rightarrow> bool" where
  "nal_ok n \<longleftrightarrow> n \<noteq> [] \<and> \<not> has_start n \<and> last n \<noteq> 0"

text \<open>Units with a start code of four or of three bytes before each.\<close>

definition start_code :: "bool \<Rightarrow> bytes" where
  "start_code four = (if four then [0, 0, 0, 1] else [0, 0, 1])"

definition annexb :: "(bool \<times> bytes) list \<Rightarrow> bytes" where
  "annexb us = concat (map (\<lambda>(four, n). start_code four @ n) us)"

lemma annexb_simps [simp]:
  "annexb [] = []" "annexb ((four, n) # us) = start_code four @ n @ annexb us"
  by (simp_all add: annexb_def)

lemma length_three: "length xs = 3 \<Longrightarrow> \<exists>x y z. xs = [x, y, z]"
  by (auto simp: numeral_3_eq_3 length_Suc_conv)

lemma hasTrailingStart_snoc3: "hasTrailingStart (q @ [x, y, z]) \<longleftrightarrow> x = 0 \<and> y = 0 \<and> z = 1"
proof (cases q rule: rev_cases)
  case (snoc q' v)
  have "Suc (length q') + 3 - 3 = Suc (length q')" by simp
  with snoc show ?thesis by (auto simp: hasTrailingStart_def numeral_3_eq_3 nth_append)
qed (auto simp: hasTrailingStart_def numeral_3_eq_3)

lemma hasTrailingStart_iff: "hasTrailingStart p \<longleftrightarrow> (\<exists>q. p = q @ [0, 0, 1])"
proof (cases "length p < 3")
  case False
  then have "length (drop (length p - 3) p) = 3" by simp
  from length_three [OF this] obtain x y z where "drop (length p - 3) p = [x, y, z]" by blast
  then have "p = take (length p - 3) p @ [x, y, z]" by (metis append_take_drop_id)
  then obtain q where p: "p = q @ [x, y, z]" by blast
  show ?thesis unfolding p hasTrailingStart_snoc3 by simp
qed (auto simp: hasTrailingStart_def)

lemma take_three: "take 3 l = [x, y, z] \<longleftrightarrow> (\<exists>ys. l = [x, y, z] @ ys)"
proof
  assume *: "take 3 l = [x, y, z]"
  have "l = take 3 l @ drop 3 l" by simp
  then show "\<exists>ys. l = [x, y, z] @ ys" unfolding * by blast
qed auto

lemma has_start_iff: "has_start n \<longleftrightarrow> (\<exists>xs ys. n = xs @ [0, 0, 1] @ ys)"
proof (induction n)
  case (Cons b bs)
  have "(\<exists>xs ys. b # bs = xs @ [0, 0, 1] @ ys) \<longleftrightarrow>
      (\<exists>ys. b # bs = [0, 0, 1] @ ys) \<or> (\<exists>xs ys. bs = xs @ [0, 0, 1] @ ys)"
    by (auto simp: Cons_eq_append_conv)
  with Cons show ?case by (simp only: has_start.simps take_three)
qed simp

lemma prefix_no_trailing:
  assumes "\<not> has_start n" "prefix q n"
  shows "\<not> hasTrailingStart q"
proof
  assume "hasTrailingStart q"
  then obtain q' where "q = q' @ [0, 0, 1]" by (auto simp: hasTrailingStart_iff)
  with assms(2) obtain ys where "n = q' @ [0, 0, 1] @ ys" by (auto simp: prefix_def)
  with assms(1) show False by (auto simp only: has_start_iff)
qed

lemma nal_loop_bytes:
  "(\<And>k. 0 < k \<Longrightarrow> k \<le> length bs \<Longrightarrow> \<not> hasTrailingStart (p @ take k bs)) \<Longrightarrow>
     nal_loop p (map RByte bs @ s) = nal_loop (p @ bs) s"
proof (induction bs arbitrary: p)
  case (Cons b bs)
  have "\<not> hasTrailingStart (p @ [b])" using Cons.prems [of 1] by simp
  moreover have "\<not> hasTrailingStart ((p @ [b]) @ take k bs)" if "0 < k" "k \<le> length bs" for k
    using Cons.prems [of "Suc k"] that by simp
  ultimately show ?case using Cons.IH [of "p @ [b]"] by simp
qed simp

lemma nal_loop_unit:
  assumes "nal_ok n"
  shows "nal_loop [] (map RByte n @ s) = nal_loop n s"
  using nal_loop_bytes [of n "[]" s] prefix_no_trailing [of n "take _ n"] assms
  by (simp add: nal_ok_def take_is_prefix)

lemma not_trailing_zero: "\<not> hasTrailingStart (q @ [0])"
  by (auto simp: hasTrailingStart_iff)

lemma trim_three: "v \<noteq> 0 \<Longrightarrow> fst (trimTrailingStart (q @ [v, 0, 0, 1])) = q @ [v]"
  by (simp add: trimTrailingStart_def)

lemma trim_four: "fst (trimTrailingStart (q @ [0, 0, 0, 1])) = q"
  by (simp add: trimTrailingStart_def)

lemma nal_loop_start:
  assumes "nal_ok n"
  shows "nal_loop n (map RByte (start_code four) @ s) = (False, Inr n, s)"
proof -
  from assms obtain m v where n: "n = m @ [v]" "v \<noteq> 0"
    by (cases n rule: rev_cases) (auto simp: nal_ok_def)
  have "\<not> hasTrailingStart (n @ [0])" "\<not> hasTrailingStart (n @ [0, 0])" "\<not> hasTrailingStart (n @ [0, 0, 0])"
    using not_trailing_zero [of n] not_trailing_zero [of "n @ [0]"] not_trailing_zero [of "n @ [0, 0]"] by simp_all
  moreover have "hasTrailingStart (n @ [0, 0, 1])" "hasTrailingStart (n @ [0, 0, 0, 1])"
    using hasTrailingStart_snoc3 [of n 0 0 1] hasTrailingStart_snoc3 [of "n @ [0]" 0 0 1] by simp_all
  moreover have "fst (trimTrailingStart (n @ [0, 0, 1])) = n" using trim_three [of v m] n by simp
  ultimately show ?thesis using trim_four [of n] by (simp add: start_code_def)
qed

lemma skipToStart_code: "skipToStart (map RByte (start_code four) @ s) = (None, s)"
  by (simp add: skipToStart_def start_code_def)

text \<open>Inside the stream: the first start code is read and the current unit is \<open>n\<close>.\<close>

lemma pump_loop_units:
  assumes "nal_ok n" "list_all (\<lambda>(four, n). nal_ok n) us"
  shows "pump_loop room i \<lparr>rdStream = map RByte (n @ annexb us), rdBuf = True, rdEofd = False\<rparr> out =
    Some (EOF, out @ map snd (filter (\<lambda>(k, _). room k) (enumerate i (n # map snd us))),
      \<lparr>rdStream = [], rdBuf = True, rdEofd = True\<rparr>)"
  using assms
proof (induction us arbitrary: n i out)
  case Nil
  have "nal_loop [] (map RByte n) = (True, Inr n, [])"
    using nal_loop_unit [of n "[]"] Nil by (simp add: nal_ok_def)
  with Nil show ?case
    by (simp add: pump_loop.simps [of room i] pump_loop.simps [of room "Suc i"] ReadNAL_def nal_ok_def)
next
  case (Cons u us)
  obtain four m where u: "u = (four, m)" by fastforce
  let ?rest = "map RByte (m @ annexb us)"
  have "nal_loop [] (map RByte (n @ annexb (u # us))) = (False, Inr n, ?rest)"
    using nal_loop_unit [of n "map RByte (start_code four) @ ?rest"] nal_loop_start [of n four ?rest] Cons.prems
    by (simp add: u)
  then have "ReadNAL \<lparr>rdStream = map RByte (n @ annexb (u # us)), rdBuf = True, rdEofd = False\<rparr> =
      (Inr n, \<lparr>rdStream = ?rest, rdBuf = True, rdEofd = False\<rparr>)"
    by (simp add: ReadNAL_def)
  moreover have "nal_ok m" "list_all (\<lambda>(four, n). nal_ok n) us" using Cons.prems(2) u by auto
  ultimately show ?case
    using Cons.IH [of m "Suc i"] Cons.prems(1) by (simp add: pump_loop.simps [of room i] nal_ok_def u)
qed

text \<open>The reader returns the units of a well-formed stream in order, less those the channel had no
  room for.\<close>

lemma pump_splits:
  assumes "list_all (\<lambda>(four, n). nal_ok n) us"
  shows "\<exists>nr. pump room (map RByte (annexb us)) =
    Some (EOF, map snd (filter (\<lambda>(k, _). room k) (enumerate 0 (map snd us))), nr)"
proof (cases us)
  case Nil
  then show ?thesis
    by (simp add: pump_def NewReader_def pump_loop.simps [of room 0] ReadNAL_def skipToStart_def)
next
  case (Cons u us')
  obtain four n where u: "u = (four, n)" by fastforce
  let ?r = "\<lparr>rdStream = map RByte (n @ annexb us'), rdBuf = True, rdEofd = False\<rparr>"
  have skip: "skipToStart (map RByte (annexb us)) = (None, map RByte (n @ annexb us'))"
    using skipToStart_code [of four] by (simp add: Cons u)
  have "ReadNAL (NewReader (map RByte (annexb us))) = ReadNAL ?r"
    by (simp add: ReadNAL_def NewReader_def skip split: prod.split)
  then have "pump room (map RByte (annexb us)) = pump_loop room 0 ?r []"
    unfolding pump_def by (subst (1 2) pump_loop.simps) (simp only:)
  also have "\<dots> = Some (EOF, map snd (filter (\<lambda>(k, _). room k) (enumerate 0 (n # map snd us'))),
      \<lparr>rdStream = [], rdBuf = True, rdEofd = True\<rparr>)"
    using pump_loop_units [of n us' room 0 "[]"] assms by (simp add: Cons u)
  finally show ?thesis by (simp add: Cons u)
qed

lemma pump_all:
  assumes "list_all (\<lambda>(four, n). nal_ok n) us"
  shows "\<exists>nr. pump (\<lambda>_. True) (map RByte (annexb us)) = Some (EOF, map snd us, nr)"
  using pump_splits [OF assms, of "\<lambda>_. True"] by simp


section \<open>Access units lose nothing\<close>

text \<open>What \<^verbatim>\<open>fanout\<close> hands on for a group of units.\<close>

definition access_unit :: "bytes list \<Rightarrow> bytes \<times> bool" where
  "access_unit g = (annexb (map (Pair True) g), \<exists>n \<in> set g. nal_type n = nalTypeIDR)"

text \<open>A split into access units: only the first unit of a group is a delimiter, and every group but
  the first starts with one.\<close>

definition au_split :: "bytes list \<Rightarrow> bytes list list \<Rightarrow> bool" where
  "au_split ns gs \<longleftrightarrow> concat gs = ns \<and> [] \<notin> set gs \<and>
     (\<forall>g \<in> set gs. \<forall>n \<in> set (tl g). nal_type n \<noteq> nalTypeAUD) \<and>
     (\<forall>g \<in> set (tl gs). nal_type (hd g) = nalTypeAUD)"

lemma annexb_append [simp]: "annexb (us @ vs) = annexb us @ annexb vs"
  by (simp add: annexb_def)

lemma annexb_concat: "annexb (concat uss) = concat (map annexb uss)"
  by (induction uss) auto

definition group_state :: "bytes list \<Rightarrow> fanout_state" where
  "group_state g = \<lparr>fsAu = fst (access_unit g), fsKeyframe = snd (access_unit g)\<rparr>"

lemma group_state_Nil: "group_state [] = fanout_init"
  by (simp add: group_state_def access_unit_def fanout_init_def)

lemma fanout_flush_group:
  "g \<noteq> [] \<Longrightarrow> fanout_flush (group_state g) = ([access_unit g], group_state [])"
  "fanout_flush (group_state []) = ([], group_state [])"
  by (cases g; auto simp: fanout_flush_def group_state_def access_unit_def start_code_def)+

lemma group_state_snoc:
  "(let f = (if nal_type n = nalTypeIDR then group_state g \<lparr>fsKeyframe := True\<rparr> else group_state g)
    in f \<lparr>fsAu := (fsAu f @ startCode4) @ n\<rparr>) = group_state (g @ [n])"
  by (auto simp: group_state_def access_unit_def startCode4_def start_code_def)

lemma fanout_nal_group:
  assumes "n \<noteq> []"
  shows "fanout_nal n (group_state g) =
    (if nal_type n = nalTypeAUD \<and> g \<noteq> [] then ([access_unit g], group_state [n]) else ([], group_state (g @ [n])))"
  using assms group_state_snoc [of n g] group_state_snoc [of n "[]"]
  by (cases "g = []") (auto simp: fanout_nal_def fanout_flush_group Let_def)

lemma fanout_groups:
  assumes "[] \<notin> set ns" "\<forall>n \<in> set (tl g). nal_type n \<noteq> nalTypeAUD"
  shows "\<exists>gs. fanout (group_state g) (map FrameNal ns @ [FrameClosed]) = map access_unit gs \<and>
    au_split (g @ ns) gs \<and> (g \<noteq> [] \<longrightarrow> gs \<noteq> [] \<and> prefix g (hd gs))"
  using assms
proof (induction ns arbitrary: g)
  case Nil
  show ?case
    by (rule exI [of _ "if g = [] then [] else [g]"])
      (use Nil in \<open>simp add: fanout_flush_group au_split_def\<close>)
next
  case (Cons n ns)
  from Cons.prems have n: "n \<noteq> []" by auto
  show ?case
  proof (cases "nal_type n = nalTypeAUD \<and> g \<noteq> []")
    case True
    from Cons.IH [of "[n]"] Cons.prems obtain gs where gs:
      "fanout (group_state [n]) (map FrameNal ns @ [FrameClosed]) = map access_unit gs"
      "au_split (n # ns) gs" "gs \<noteq> []" "prefix [n] (hd gs)" by auto
    from gs(3,4) True have "nal_type (hd (hd gs)) = nalTypeAUD" by (auto simp: prefix_def)
    with gs(2,3) True Cons.prems have "au_split (g @ n # ns) (g # gs)"
      by (cases gs) (auto simp: au_split_def)
    with gs(1) True Cons.prems show ?thesis
      by (intro exI [of _ "g # gs"]) (simp add: fanout_nal_group [OF n])
  next
    case False
    then have tl: "\<forall>m \<in> set (tl (g @ [n])). nal_type m \<noteq> nalTypeAUD"
      using Cons.prems(2) by (cases g) auto
    from Cons.IH [OF _ tl] Cons.prems obtain gs where
      "fanout (group_state (g @ [n])) (map FrameNal ns @ [FrameClosed]) = map access_unit gs"
      "au_split (g @ n # ns) gs" "gs \<noteq> []" "prefix (g @ [n]) (hd gs)" by auto
    with False Cons.prems show ?thesis
      by (intro exI [of _ gs]) (auto simp: fanout_nal_group [OF n] dest: append_prefixD)
  qed
qed

text \<open>
  C16. Video survives the agent. Of a well-formed stream, read while the channel has room, every unit
  arrives; the access units handed to tracks and taps split the units exactly at the delimiters, each
  marked as a keyframe if and only if it has an IDR slice; and reading the access units again, one
  after the other as they are recorded, gives back the same units.
\<close>

theorem video_roundtrip:
  assumes "list_all (\<lambda>(four, n). nal_ok n) us"
    and "pump (\<lambda>_. True) (map RByte (annexb us)) = Some (err, nals, nr)"
    and "aus = fanout fanout_init (map FrameNal nals @ [FrameClosed])"
  shows "nals = map snd us \<and>
    (\<exists>gs. au_split nals gs \<and> aus = map access_unit gs) \<and>
    (\<exists>nr'. pump (\<lambda>_. True) (map RByte (concat (map fst aus))) = Some (EOF, nals, nr'))"
proof -
  from pump_all [OF assms(1)] assms(2) have nals: "nals = map snd us" by auto
  with assms(1) have ok: "list_all (\<lambda>(four, n). nal_ok n) (map (Pair True) nals)"
    by (auto simp: list_all_iff)
  then have "[] \<notin> set nals" by (auto simp: list_all_iff nal_ok_def)
  then obtain gs where gs: "aus = map access_unit gs" "au_split nals gs"
    using fanout_groups [of nals "[]"] assms(3) by (auto simp: group_state_Nil)
  have "concat (map fst aus) = annexb (map (Pair True) (concat gs))"
    by (simp add: gs(1) access_unit_def map_concat annexb_concat comp_def)
  also have "concat gs = nals" using gs(2) by (simp add: au_split_def)
  finally have "concat (map fst aus) = annexb (map (Pair True) nals)" .
  with pump_all [OF ok] have "\<exists>nr'. pump (\<lambda>_. True) (map RByte (concat (map fst aus))) = Some (EOF, nals, nr')"
    by (simp add: comp_def)
  with nals gs show ?thesis by blast
qed

theorem video_roundtrip_witness:
  "\<exists>nr gs. pump (\<lambda>_. True) (map RByte (annexb [(True, [9, 16]), (False, [101, 7]), (True, [9, 48]), (False, [65])])) =
      Some (EOF, [[9, 16], [101, 7], [9, 48], [65]], nr) \<and>
    au_split [[9, 16], [101, 7], [9, 48], [65]] gs \<and>
    fanout fanout_init (map FrameNal [[9, 16], [101, 7], [9, 48], [65]] @ [FrameClosed]) = map access_unit gs"
proof -
  let ?us = "[(True, [9, 16]), (False, [101, 7]), (True, [9, 48]), (False, [65])] :: (bool \<times> bytes) list"
  have ok: "list_all (\<lambda>(four, n). nal_ok n) ?us" by (simp add: nal_ok_def)
  obtain nr where *: "pump (\<lambda>_. True) (map RByte (annexb ?us)) = Some (EOF, map snd ?us, nr)"
    using pump_all [OF ok] by blast
  from video_roundtrip [OF ok * refl] * show ?thesis by auto
qed

text \<open>A stream that starts in the middle of a unit: the window of \<^verbatim>\<open>skipToStart\<close> starts with zeros, so
  a first byte 1 is taken for a start code and what follows for a unit.\<close>

lemma false_start_code:
  "fst (ReadNAL (NewReader (map RByte (1 # [7, 7] @ start_code False @ n)))) = Inr [7, 7]"
  by (simp add: ReadNAL_def NewReader_def skipToStart_def start_code_def hasTrailingStart_def
      trimTrailingStart_def nth_append numeral_3_eq_3)


section \<open>Restart delays\<close>

lemma supervise_round_bounds:
  assumes "pipelineRestartMin \<le> b" "b \<le> pipelineRestartMax" "supervise_round took b = (d, b')"
  shows "pipelineRestartMin \<le> d \<and> d \<le> pipelineRestartMax \<and> pipelineRestartMin \<le> b' \<and> b' \<le> pipelineRestartMax \<and>
    b' = min (2 * d) pipelineRestartMax \<and> (took \<ge> pipelineHealthyRun \<longrightarrow> d = pipelineRestartMin) \<and>
    (took < pipelineHealthyRun \<longrightarrow> d = b)"
  using assms
  by (auto simp: supervise_round_def Let_def pipelineRestartMin_def pipelineRestartMax_def split: if_splits)

text \<open>Between one second and fifteen, from one second on doubled after every short run and reset by a
  long one.\<close>

theorem restart_delays:
  assumes "supervise pipelineRestartMin runs = ds"
  shows "length ds = length runs \<and>
    (\<forall>i < length runs. pipelineRestartMin \<le> ds ! i \<and> ds ! i \<le> pipelineRestartMax \<and>
      ds ! i = (if i = 0 \<or> runs ! i \<ge> pipelineHealthyRun then pipelineRestartMin
                else min (2 * ds ! (i - 1)) pipelineRestartMax))"
proof -
  have gen: "length ds = length runs \<and>
    (\<forall>i < length runs. pipelineRestartMin \<le> ds ! i \<and> ds ! i \<le> pipelineRestartMax \<and>
      ds ! i = (if runs ! i \<ge> pipelineHealthyRun then pipelineRestartMin
                else if i = 0 then b else min (2 * ds ! (i - 1)) pipelineRestartMax))"
    if "supervise b runs = ds" "pipelineRestartMin \<le> b" "b \<le> pipelineRestartMax" for b
    using that
  proof (induction runs arbitrary: b ds)
    case (Cons took runs)
    obtain d b' where r: "supervise_round took b = (d, b')" by fastforce
    note bd = supervise_round_bounds [OF Cons.prems(2,3) r]
    define es where "es = supervise b' runs"
    from r Cons.prems(1) have ds: "ds = d # es" by (simp add: es_def)
    have b': "pipelineRestartMin \<le> b'" "b' \<le> pipelineRestartMax" using bd by blast+
    note I = Cons.IH [OF es_def [symmetric] b']
    have IH: "length es = length runs"
      "i < length runs \<Longrightarrow> pipelineRestartMin \<le> es ! i \<and> es ! i \<le> pipelineRestartMax \<and>
        es ! i = (if runs ! i \<ge> pipelineHealthyRun then pipelineRestartMin
                  else if i = 0 then b' else min (2 * es ! (i - 1)) pipelineRestartMax)" for i
      by (rule conjunct1 [OF I]) (rule mp [OF spec [OF conjunct2 [OF I]]])
    have "pipelineRestartMin \<le> ds ! i \<and> ds ! i \<le> pipelineRestartMax \<and>
        ds ! i = (if (took # runs) ! i \<ge> pipelineHealthyRun then pipelineRestartMin
                  else if i = 0 then b else min (2 * ds ! (i - 1)) pipelineRestartMax)"
      if "i < length (took # runs)" for i
    proof (cases i)
      case 0
      with bd show ?thesis by (simp add: ds)
    next
      case (Suc j)
      with that have j: "j < length runs" by simp
      have prev: "(if j = 0 then b' else min (2 * es ! (j - 1)) pipelineRestartMax) = min (2 * ds ! j) pipelineRestartMax"
        using bd by (cases j) (simp_all add: ds)
      have ne: "(Suc j = 0) = False" by simp
      show ?thesis
        unfolding Suc ds nth_Cons_Suc diff_Suc_1 ne if_False by (rule IH(2) [OF j, unfolded prev ds])
    qed
    then show ?case by (intro conjI allI impI) (simp add: ds IH(1), blast+)
  qed simp
  have le: "pipelineRestartMin \<le> pipelineRestartMax"
    by (simp add: pipelineRestartMin_def pipelineRestartMax_def)
  have if_if: "(if p then m else if q then m else x) = (if q \<or> p then m else x)" for p q and m x :: int
    by simp
  show ?thesis by (rule gen [OF assms order_refl le, unfolded if_if])
qed

end
