(* ===== verification/Cameras.thy ===== *)
theory Cameras
  imports Video NetText Brokers
begin

text \<open>
  The cameras of the agent, \<^verbatim>\<open>agent/internal/cameras\<close>: the choice of a pipeline, the viewers and taps of
  one camera (\<^verbatim>\<open>camera.go\<close>), discovery and the manager that keeps a camera running per device
  (\<^verbatim>\<open>discover.go\<close>, \<^verbatim>\<open>manager.go\<close>), the HTTP offers (\<^verbatim>\<open>whep/handler.go\<close>) and the relay servers
  (\<^verbatim>\<open>ice\<close>). Peer connections are numbered; which calls of the WebRTC library fail, the answer it gives,
  the platform and the discovered devices are arguments. The lemmas show that the running cameras
  follow the devices without restarting the ones that stay, and when viewers leak.
\<close>

section \<open>Pipelines\<close>

datatype os_platform = LinuxArm64 | Darwin | OtherPlatform

record pipe_config =
  pcWidth :: int
  pcHeight :: int
  pcFPS :: int
  pcBitrateBps :: int
  pcDevice :: string

definition DefaultConfig :: pipe_config where
  "DefaultConfig = \<lparr>pcWidth = 1280, pcHeight = 720, pcFPS = 30, pcBitrateBps = 1500000, pcDevice = ''''\<rparr>"

datatype pipeline = Synthetic pipe_config | Mac pipe_config | Pi5 pipe_config

fun pipeline_Name :: "pipeline \<Rightarrow> string" where
  "pipeline_Name (Synthetic cfg) = ''synthetic''"
| "pipeline_Name (Mac cfg) = ''mac''"
| "pipeline_Name (Pi5 cfg) = ''pi5''"

datatype camera_error = NotSupported string | UnknownPipeline string | NameRequired | CameraStart string camera_error
  | PublishList string | SubscribeOffer string

definition newMacOrErr :: "os_platform \<Rightarrow> pipe_config \<Rightarrow> camera_error + pipeline" where
  "newMacOrErr pf cfg = (if pf = Darwin then Inr (Mac cfg) else Inl (NotSupported ''mac''))"

definition newPi5OrErr :: "os_platform \<Rightarrow> pipe_config \<Rightarrow> camera_error + pipeline" where
  "newPi5OrErr pf cfg = (if pf = LinuxArm64 then Inr (Pi5 cfg) else Inl (NotSupported ''pi5''))"

definition Pick :: "os_platform \<Rightarrow> string \<Rightarrow> string \<Rightarrow> pipe_config \<Rightarrow> camera_error + pipeline" where
  "Pick pf name device cfg0 =
     (let cfg = cfg0 \<lparr>pcDevice := device\<rparr> in
      if name = ''synthetic'' then Inr (Synthetic cfg)
      else if name = ''mac'' then newMacOrErr pf cfg
      else if name = ''pi5'' then newPi5OrErr pf cfg
      else if name = '''' then
        (if pf = LinuxArm64 then newPi5OrErr pf cfg
         else if pf = Darwin then newMacOrErr pf cfg
         else Inr (Synthetic cfg))
      else Inl (UnknownPipeline name))"

text \<open>The arguments of \<^verbatim>\<open>gst-launch\<close>.\<close>

definition x264_args :: "int \<Rightarrow> string list" where
  "x264_args bitrate =
     [''!'', ''x264enc'', ''tune=zerolatency'', ''speed-preset=ultrafast'', ''key-int-max=60'',
      ''bitrate='' @ print_int (if bitrate < 0 then - (- bitrate div 1000) else bitrate div 1000),
      ''!'', ''video/x-h264,stream-format=byte-stream,profile=baseline'',
      ''!'', ''h264parse'', ''config-interval=-1'', ''!'', ''fdsink'', ''fd=1'']"

definition caps :: "string \<Rightarrow> pipe_config \<Rightarrow> string" where
  "caps kind cfg = kind @ '',width='' @ print_int (pcWidth cfg) @ '',height='' @ print_int (pcHeight cfg) @
     '',framerate='' @ print_int (pcFPS cfg) @ ''/1''"

fun gst_args :: "pipeline \<Rightarrow> string list" where
  "gst_args (Pi5 cfg) =
     (let dev = (if pcDevice cfg = '''' then ''/dev/video0'' else pcDevice cfg);
          bitrate = (if pcBitrateBps cfg = 0 then 1500000 else pcBitrateBps cfg)
      in [''v4l2src'', ''device='' @ dev, ''!'', caps ''image/jpeg'' cfg, ''!'', ''jpegdec'', ''!'', ''videoconvert'']
         @ x264_args bitrate)"
| "gst_args (Synthetic cfg) =
     [''videotestsrc'', ''is-live=true'', ''!'', caps ''video/x-raw'' cfg] @ x264_args (pcBitrateBps cfg)"
| "gst_args (Mac cfg) =
     (let devIdx = (if pcDevice cfg = '''' then ''0'' else pcDevice cfg)
      in [''avfvideosrc'', ''device-index='' @ devIdx, ''!'', ''videoconvert'', ''!'', caps ''video/x-raw'' cfg]
         @ x264_args (pcBitrateBps cfg))"


section \<open>One camera\<close>

text \<open>A viewer: its peer connection and its track. Taps are callbacks of other components.\<close>

record subscriber =
  suPc :: nat
  suTrack :: nat

record 'f camera =
  cmName :: string
  cmPipeline :: pipeline
  cmSubs :: "(string \<times> subscriber) list"
  cmTracks :: "nat list"
  cmTaps :: "(nat \<times> 'f) list"
  cmNextTap :: nat
  cmRunning :: bool
  cmHooks :: "(nat \<times> string) list"

text \<open>The WebRTC library: the number of the next connection and the open ones.\<close>

record rtc =
  rtNext :: nat
  rtOpen :: "nat list"

datatype rtc_call = RtcPeer | RtcTrack | RtcAddTrack | RtcRemote string | RtcAnswer | RtcLocal

definition camera_New :: "string \<Rightarrow> pipeline \<Rightarrow> camera_error + 'f camera" where
  "camera_New name p =
     (if name = '''' then Inl NameRequired
      else Inr \<lparr>cmName = name, cmPipeline = p, cmSubs = [], cmTracks = [], cmTaps = [], cmNextTap = 0,
                cmRunning = False, cmHooks = []\<rparr>)"

text \<open>\<^verbatim>\<open>Start\<close> launches the goroutines \<^verbatim>\<open>supervise\<close> and \<^verbatim>\<open>fanout\<close> once.\<close>

definition camera_Start :: "'f camera \<Rightarrow> 'f camera" where
  "camera_Start c = (if cmRunning c then c else c \<lparr>cmRunning := True\<rparr>)"

definition pc_close :: "nat \<Rightarrow> rtc \<Rightarrow> rtc" where
  "pc_close p rt = rt \<lparr>rtOpen := filter (\<lambda>q. q \<noteq> p) (rtOpen rt)\<rparr>"

definition camera_Stop :: "'f camera \<times> rtc \<Rightarrow> 'f camera \<times> rtc" where
  "camera_Stop cr =
     (case cr of (c, rt) \<Rightarrow>
        (c \<lparr>cmRunning := False, cmSubs := []\<rparr>, foldl (\<lambda>r e. pc_close (suPc (snd e)) r) rt (cmSubs c)))"

definition AddTap :: "'f \<Rightarrow> 'f camera \<Rightarrow> nat \<times> 'f camera" where
  "AddTap fn c =
     (cmNextTap c, c \<lparr>cmNextTap := Suc (cmNextTap c), cmTaps := map_set (cmNextTap c) fn (cmTaps c)\<rparr>)"

definition remove_tap :: "nat \<Rightarrow> 'f camera \<Rightarrow> 'f camera" where
  "remove_tap i c = c \<lparr>cmTaps := map_del i (cmTaps c)\<rparr>"

text \<open>What a flushed access unit reaches: a sample of fixed duration on every track, and every tap.\<close>

definition frameDur :: duration where
  "frameDur = 1000000000 div 30"

definition deliver :: "bytes \<times> bool \<Rightarrow> 'f camera \<Rightarrow> (nat \<times> bytes \<times> duration) list \<times> ('f \<times> bytes \<times> bool) list" where
  "deliver auk c =
     (map (\<lambda>t. (t, fst auk, frameDur)) (cmTracks c), map (\<lambda>e. (snd e, fst auk, snd auk)) (cmTaps c))"

text \<open>\<open>fails\<close> says which call of the library fails, \<open>sdp\<close> is its local description. Every error after
  the connection was made closes it.\<close>

definition NewSubscriber ::
  "(rtc_call \<Rightarrow> string option) \<Rightarrow> string \<Rightarrow> string \<Rightarrow> string \<Rightarrow> 'f camera \<times> rtc \<Rightarrow>
    (string + string) \<times> 'f camera \<times> rtc" where
  "NewSubscriber fails sdp sessionID offer cr =
     (case cr of (c, rt) \<Rightarrow>
      case fails RtcPeer of
        Some e \<Rightarrow> (Inl e, c, rt)
      | None \<Rightarrow>
          let pc = rtNext rt;
              rt1 = rt \<lparr>rtNext := Suc pc, rtOpen := rtOpen rt @ [pc]\<rparr>
          in case first_error [fails RtcTrack, fails RtcAddTrack, fails (RtcRemote offer), fails RtcAnswer, fails RtcLocal] of
               Some e \<Rightarrow> (Inl e, c, pc_close pc rt1)
             | None \<Rightarrow>
                 (Inr sdp,
                  c \<lparr>cmTracks := cmTracks c @ [pc],
                     cmSubs := map_set sessionID \<lparr>suPc = pc, suTrack = pc\<rparr> (cmSubs c),
                     cmHooks := map_set pc sessionID (cmHooks c)\<rparr>, rt1))"

definition removeSubscriber :: "string \<Rightarrow> 'f camera \<times> rtc \<Rightarrow> 'f camera \<times> rtc" where
  "removeSubscriber i cr =
     (case cr of (c, rt) \<Rightarrow>
      case map_of (cmSubs c) i of
        None \<Rightarrow> (c, rt)
      | Some sub \<Rightarrow>
          (c \<lparr>cmSubs := map_del i (cmSubs c), cmTracks := remove1 (suTrack sub) (cmTracks c)\<rparr>,
           pc_close (suPc sub) rt))"

definition EndSubscriber :: "string \<Rightarrow> 'f camera \<times> rtc \<Rightarrow> 'f camera \<times> rtc" where
  "EndSubscriber i cr = removeSubscriber i cr"

text \<open>The callback of a connection that failed, was closed or lost its peer.\<close>

definition connection_lost :: "nat \<Rightarrow> 'f camera \<times> rtc \<Rightarrow> 'f camera \<times> rtc" where
  "connection_lost pc cr =
     (case map_of (cmHooks (fst cr)) pc of None \<Rightarrow> cr | Some sessionID \<Rightarrow> removeSubscriber sessionID cr)"


section \<open>Discovery\<close>

record camera_spec =
  spName :: string
  spDevice :: string
  spPipeline :: string

definition trailing_digits :: "string \<Rightarrow> string" where
  "trailing_digits path = rev (takeWhile is_digit_char (rev path))"

definition deviceIndex :: "string \<Rightarrow> int" where
  "deviceIndex path = (case Atoi (trailing_digits path) of None \<Rightarrow> 2 ^ 30 | Some n \<Rightarrow> n)"

definition assembleSpecs :: "string list \<Rightarrow> camera_spec list" where
  "assembleSpecs paths =
     map (\<lambda>p. \<lparr>spName = ''camera-'' @ print_int (deviceIndex p), spDevice = p, spPipeline = ''''\<rparr>)
       (sort_key deviceIndex paths)"

text \<open>\<open>nodes\<close> are the video nodes; \<open>hasCaptureFormat\<close> asks the driver of one.\<close>

definition discoverCameras :: "os_platform \<Rightarrow> (string \<Rightarrow> bool) \<Rightarrow> string list \<Rightarrow> camera_spec list" where
  "discoverCameras pf hasCaptureFormat nodes =
     (if pf = LinuxArm64 then assembleSpecs (filter hasCaptureFormat nodes) else [])"


section \<open>The manager\<close>

record camera_cfg =
  ccCameras :: "camera_spec list"
  ccRover :: string

record 'f cam_manager =
  cgAuto :: bool
  cgCams :: "(string \<times> 'f camera) list"

definition NewManager :: "'f cam_manager" where
  "NewManager = \<lparr>cgAuto = False, cgCams = []\<rparr>"

definition manager_Camera :: "'f cam_manager \<Rightarrow> string \<Rightarrow> 'f camera option" where
  "manager_Camera m name = map_of (cgCams m) name"

definition manager_List :: "'f cam_manager \<Rightarrow> string list" where
  "manager_List m = map fst (cgCams m)"

text \<open>\<^verbatim>\<open>Tap\<close> puts the callback on every camera that runs now; \<open>remove_taps\<close> is the function it returns.\<close>

definition manager_Tap :: "(string \<Rightarrow> 'f) \<Rightarrow> 'f cam_manager \<Rightarrow> (string \<times> nat) list \<times> 'f cam_manager" where
  "manager_Tap fn m =
     (map (\<lambda>(name, c). (name, fst (AddTap (fn name) c))) (cgCams m),
      m \<lparr>cgCams := map (\<lambda>(name, c). (name, snd (AddTap (fn name) c))) (cgCams m)\<rparr>)"

definition remove_taps :: "(string \<times> nat) list \<Rightarrow> 'f cam_manager \<Rightarrow> 'f cam_manager" where
  "remove_taps rs m =
     m \<lparr>cgCams := map (\<lambda>(name, c). (name, foldl (\<lambda>c r. if fst r = name then remove_tap (snd r) c else c) c rs)) (cgCams m)\<rparr>"

definition startCamera :: "os_platform \<Rightarrow> camera_spec \<Rightarrow> 'f cam_manager \<Rightarrow> camera_error option \<times> 'f cam_manager" where
  "startCamera pf spec m =
     (case Pick pf (spPipeline spec) (spDevice spec) DefaultConfig of
        Inl e \<Rightarrow> (Some (CameraStart (spName spec) e), m)
      | Inr p \<Rightarrow>
          (case camera_New (spName spec) p of
             Inl e \<Rightarrow> (Some (CameraStart (spName spec) e), m)
           | Inr cam \<Rightarrow> (None, m \<lparr>cgCams := map_set (spName spec) (camera_Start cam) (cgCams m)\<rparr>)))"

text \<open>\<open>specs\<close> is the result of \<^verbatim>\<open>Discover\<close>; \<open>rw\<close> and \<open>rh\<close> are the iteration orders of the maps.\<close>

definition want_specs :: "camera_spec list \<Rightarrow> (string \<times> camera_spec) list" where
  "want_specs specs = foldl (\<lambda>w s. map_set (spName s) s w) [] specs"

text \<open>The bodies of the two loops: start what appeared, stop what is gone.\<close>

definition start_appeared :: "os_platform \<Rightarrow> string list \<Rightarrow> 'f cam_manager \<Rightarrow> string \<times> camera_spec \<Rightarrow> 'f cam_manager" where
  "start_appeared pf have_names m ns =
     (if fst ns \<in> set have_names then m else snd (startCamera pf (snd ns) m))"

definition stop_gone :: "(string \<times> camera_spec) list \<Rightarrow> 'f cam_manager \<times> rtc \<Rightarrow> string \<Rightarrow> 'f cam_manager \<times> rtc" where
  "stop_gone want mr name =
     (case mr of (m, rt) \<Rightarrow>
      if map_of want name \<noteq> None then (m, rt)
      else (m \<lparr>cgCams := map_del name (cgCams m)\<rparr>,
            case map_of (cgCams m) name of None \<Rightarrow> rt | Some cam \<Rightarrow> snd (camera_Stop (cam, rt))))"

definition reconcile_cameras ::
  "os_platform \<Rightarrow> ((string \<times> camera_spec) list \<Rightarrow> (string \<times> camera_spec) list) \<Rightarrow> (string list \<Rightarrow> string list) \<Rightarrow>
    camera_spec list \<Rightarrow> 'f cam_manager \<times> rtc \<Rightarrow> 'f cam_manager \<times> rtc" where
  "reconcile_cameras pf rw rh specs mr =
     (case mr of (m, rt) \<Rightarrow>
      let want = want_specs specs;
          have_names = map fst (cgCams m);
          m1 = foldl (start_appeared pf have_names) m (rw want)
      in foldl (stop_gone want) (m1, rt) (rh have_names))"

text \<open>\<open>enc\<close> marshals the list, \<open>pub\<close> is the outcome of the publish call; the result is the error and the
  message sent.\<close>

definition publishCameraList ::
  "((string \<times> string) list \<Rightarrow> string + bytes) \<Rightarrow> (string \<Rightarrow> bytes \<Rightarrow> string option) \<Rightarrow> string \<Rightarrow> 'f cam_manager \<Rightarrow>
    string option \<times> (string \<times> bytes) list" where
  "publishCameraList enc pub rover m =
     (case enc (map (\<lambda>(name, c). (name, pipeline_Name (cmPipeline c))) (cgCams m)) of
        Inl e \<Rightarrow> (Some e, [])
      | Inr body \<Rightarrow>
          let subj = platform_subject rover ''infra.camera.list'' in (pub subj body, [(subj, body)]))"

fun start_cameras :: "os_platform \<Rightarrow> camera_spec list \<Rightarrow> 'f cam_manager \<Rightarrow> camera_error option \<times> 'f cam_manager" where
  "start_cameras pf [] m = (None, m)"
| "start_cameras pf (spec # specs) m =
     (case startCamera pf spec m of (Some e, m') \<Rightarrow> (Some e, m') | (None, m') \<Rightarrow> start_cameras pf specs m')"

definition manager_Start ::
  "os_platform \<Rightarrow> ((string \<times> camera_spec) list \<Rightarrow> (string \<times> camera_spec) list) \<Rightarrow> (string list \<Rightarrow> string list) \<Rightarrow>
    camera_spec list \<Rightarrow> ((string \<times> string) list \<Rightarrow> string + bytes) \<Rightarrow> (string \<Rightarrow> bytes \<Rightarrow> string option) \<Rightarrow>
    (nat \<Rightarrow> string \<Rightarrow> string option) \<Rightarrow> camera_cfg \<Rightarrow> 'f cam_manager \<times> rtc \<times> conn \<Rightarrow>
    camera_error option \<times> 'f cam_manager \<times> rtc \<times> conn" where
  "manager_Start pf rw rh specs enc pub fails cfg w =
     (case w of (m0, rt, c) \<Rightarrow>
      let m = m0 \<lparr>cgAuto := (length (ccCameras cfg) = 0)\<rparr>;
          (err, m1, rt1) =
            (if cgAuto m then (case reconcile_cameras pf rw rh specs (m, rt) of (m', rt') \<Rightarrow> (None, m', rt'))
             else (case start_cameras pf (ccCameras cfg) m of (e, m') \<Rightarrow> (e, m', rt)))
      in case err of
           Some e \<Rightarrow> (Some e, m1, rt1, c)
         | None \<Rightarrow>
             (case publishCameraList enc pub (ccRover cfg) m1 of
                (Some e, _) \<Rightarrow> (Some (PublishList e), m1, rt1, c)
              | (None, _) \<Rightarrow>
                  let subj = platform_subject (ccRover cfg) ''rpc.camera_offer''
                  in (case nc_subscribe fails subj (Handler ''camera_offer'') c of
                        (Inl e, c') \<Rightarrow> (Some (SubscribeOffer e), m1, rt1, c')
                      | (Inr _, c') \<Rightarrow> (None, m1, rt1, c'))))"

text \<open>One round of \<^verbatim>\<open>reconcileLoop\<close>: a rescan (only with discovery) or a publication.\<close>

datatype tick_event = Rescan "camera_spec list" | Republish

fun camera_tick ::
  "os_platform \<Rightarrow> ((string \<times> camera_spec) list \<Rightarrow> (string \<times> camera_spec) list) \<Rightarrow> (string list \<Rightarrow> string list) \<Rightarrow>
    ((string \<times> string) list \<Rightarrow> string + bytes) \<Rightarrow> (string \<Rightarrow> bytes \<Rightarrow> string option) \<Rightarrow> string \<Rightarrow> tick_event \<Rightarrow>
    'f cam_manager \<times> rtc \<Rightarrow> ('f cam_manager \<times> rtc) \<times> (string \<times> bytes) list" where
  "camera_tick pf rw rh enc pub rover (Rescan specs) mr =
     (if cgAuto (fst mr)
      then (let mr' = reconcile_cameras pf rw rh specs mr in (mr', snd (publishCameraList enc pub rover (fst mr'))))
      else (mr, []))"
| "camera_tick pf rw rh enc pub rover Republish mr = (mr, snd (publishCameraList enc pub rover (fst mr)))"

definition manager_Stop :: "'f cam_manager \<times> rtc \<Rightarrow> 'f cam_manager \<times> rtc" where
  "manager_Stop mr =
     (case mr of (m, rt) \<Rightarrow>
        (m \<lparr>cgCams := []\<rparr>, foldl (\<lambda>r e. snd (camera_Stop (snd e, r))) rt (cgCams m)))"

text \<open>The camera an offer names, replaced by its new state.\<close>

definition with_camera ::
  "string \<Rightarrow> ('f camera \<times> rtc \<Rightarrow> 'r \<times> 'f camera \<times> rtc) \<Rightarrow> 'f cam_manager \<times> rtc \<Rightarrow> 'r option \<times> 'f cam_manager \<times> rtc" where
  "with_camera name op mr =
     (case mr of (m, rt) \<Rightarrow>
      case manager_Camera m name of
        None \<Rightarrow> (None, m, rt)
      | Some cam \<Rightarrow>
          (case op (cam, rt) of (r, cam', rt') \<Rightarrow> (Some r, m \<lparr>cgCams := map_set name cam' (cgCams m)\<rparr>, rt')))"

record offer_request =
  orCamera :: string
  orSession :: string
  orSdp :: string

text \<open>The answer of \<^verbatim>\<open>handleOfferRPC\<close> is an error text or the description.\<close>

definition handleOfferRPC ::
  "(bytes \<Rightarrow> string + offer_request) \<Rightarrow> (rtc_call \<Rightarrow> string option) \<Rightarrow> string \<Rightarrow> bytes \<Rightarrow> 'f cam_manager \<times> rtc \<Rightarrow>
    (string + string) \<times> 'f cam_manager \<times> rtc" where
  "handleOfferRPC dec fails sdp data mr =
     (case dec data of
        Inl e \<Rightarrow> (Inl (''bad request: '' @ e), mr)
      | Inr req \<Rightarrow>
          (case with_camera (orCamera req) (NewSubscriber fails sdp (orSession req) (orSdp req)) mr of
             (None, mr') \<Rightarrow> (Inl ''no such camera'', mr')
           | (Some (Inl e), mr') \<Rightarrow> (Inl (''subscribe: '' @ e), mr')
           | (Some (Inr answer), mr') \<Rightarrow> (Inr answer, mr')))"


section \<open>Offers over HTTP\<close>

record whep_response =
  whStatus :: int
  whLocation :: string
  whBody :: string

definition whep_error :: "int \<Rightarrow> string \<Rightarrow> whep_response" where
  "whep_error code msg = \<lparr>whStatus = code, whLocation = '''', whBody = msg\<rparr>"

text \<open>\<open>body\<close> is the outcome of reading the request, \<open>session\<close> the random session id.\<close>

definition postOffer ::
  "(rtc_call \<Rightarrow> string option) \<Rightarrow> string \<Rightarrow> string \<Rightarrow> string \<Rightarrow> string + string \<Rightarrow> 'f cam_manager \<times> rtc \<Rightarrow>
    whep_response \<times> 'f cam_manager \<times> rtc" where
  "postOffer fails sdp session name body mr =
     (if manager_Camera (fst mr) name = None then (whep_error 404 ''no such camera'', mr)
      else case body of
        Inl e \<Rightarrow> (whep_error 400 (''read body: '' @ e), mr)
      | Inr offer \<Rightarrow>
          (case with_camera name (NewSubscriber fails sdp session offer) mr of
             (Some (Inr answer), mr') \<Rightarrow>
               (\<lparr>whStatus = 201, whLocation = ''/camera/'' @ name @ ''/whep/'' @ session, whBody = answer\<rparr>, mr')
           | (Some (Inl e), mr') \<Rightarrow> (whep_error 500 (''subscribe: '' @ e), mr')
           | (None, mr') \<Rightarrow> (whep_error 404 ''no such camera'', mr')))"

definition deleteSession :: "string \<Rightarrow> string \<Rightarrow> 'f cam_manager \<times> rtc \<Rightarrow> whep_response \<times> 'f cam_manager \<times> rtc" where
  "deleteSession name session mr =
     (case with_camera name (\<lambda>cr. ((), EndSubscriber session cr)) mr of
        (None, mr') \<Rightarrow> (whep_error 404 ''no such camera'', mr')
      | (Some _, mr') \<Rightarrow> (\<lparr>whStatus = 204, whLocation = '''', whBody = ''''\<rparr>, mr'))"


section \<open>Relay servers\<close>

record ice_server =
  icURLs :: "string list"
  icUsername :: string
  icCredential :: string

definition envProvided :: "string \<Rightarrow> ice_server list" where
  "envProvided key =
     (if key = '''' then []
      else case cut key '':'' of
        None \<Rightarrow> []
      | Some (i, tok) \<Rightarrow>
          [\<lparr>icURLs = [''turns:turn.cloudflare.com:443?transport=tcp''], icUsername = i, icCredential = tok\<rparr>])"

definition ice_Resolve :: "string \<Rightarrow> ice_server list \<Rightarrow> ice_server list" where
  "ice_Resolve key proxyIce = envProvided key @ proxyIce"

record ice_message =
  imUrls :: "string list"
  imUsername :: "string option"
  imCredential :: "string option"

definition toWebRTC :: "ice_message list \<Rightarrow> ice_server list" where
  "toWebRTC ms = map (\<lambda>s. \<lparr>icURLs = imUrls s, icUsername = or_empty (imUsername s), icCredential = or_empty (imCredential s)\<rparr>) ms"

text \<open>\<open>resp\<close> is the outcome of the request; the result is the new proxy-provided list.\<close>

definition RequestFromProxy ::
  "(bytes \<Rightarrow> ice_message list option) \<Rightarrow> string + bytes \<Rightarrow> ice_server list \<Rightarrow> ice_server list" where
  "RequestFromProxy dec resp proxyIce =
     (case resp of
        Inl e \<Rightarrow> proxyIce
      | Inr data \<Rightarrow> (case dec data of None \<Rightarrow> proxyIce | Some servers \<Rightarrow> toWebRTC servers))"


section \<open>Running cameras follow the devices\<close>

definition new_camera :: "os_platform \<Rightarrow> camera_spec \<Rightarrow> 'f camera option" where
  "new_camera pf spec =
     (case Pick pf (spPipeline spec) (spDevice spec) DefaultConfig of
        Inl e \<Rightarrow> None
      | Inr p \<Rightarrow> (case camera_New (spName spec) p of Inl e \<Rightarrow> None | Inr cam \<Rightarrow> Some (camera_Start cam)))"

lemma startCamera_eq:
  "snd (startCamera pf spec m) =
     (case new_camera pf spec of None \<Rightarrow> m | Some cam \<Rightarrow> m \<lparr>cgCams := map_set (spName spec) cam (cgCams m)\<rparr>)"
  by (simp add: startCamera_def new_camera_def split: sum.split)

lemma want_specs_name: "map_of (want_specs specs) n = Some s \<Longrightarrow> spName s = n"
proof -
  have "map_of (foldl (\<lambda>w s. map_set (spName s) s w) w specs) n = Some s \<Longrightarrow> spName s = n"
    if "\<And>n s. map_of w n = Some s \<Longrightarrow> spName s = n" for w
    using that
  proof (induction specs arbitrary: w)
    case (Cons x xs)
    show ?case
      by (rule Cons.IH [of "map_set (spName x) x w"]) (use Cons.prems in \<open>auto split: if_splits\<close>)
  qed auto
  from this [of "[]"] show "map_of (want_specs specs) n = Some s \<Longrightarrow> spName s = n"
    by (simp add: want_specs_def)
qed

lemma want_specs_wf: "wf_map (want_specs specs)"
proof -
  have "wf_map w \<Longrightarrow> wf_map (foldl (\<lambda>w s. map_set (spName s) s w) w specs)" for w
    by (induction specs arbitrary: w) auto
  then show ?thesis by (simp add: want_specs_def)
qed

lemma start_appeared_all:
  fixes m :: "'f cam_manager"
  assumes "\<And>n s. (n, s) \<in> set xs \<Longrightarrow> map_of want n = Some s \<and> spName s = n"
  shows "(wf_map (cgCams m) \<longrightarrow> wf_map (cgCams (foldl (start_appeared pf H) m xs))) \<and>
    (\<forall>n. map_of (cgCams (foldl (start_appeared pf H) m xs)) n =
      (if n \<in> fst ` set xs \<and> n \<notin> set H \<and> new_camera pf (the (map_of want n)) \<noteq> (None :: 'f camera option)
       then new_camera pf (the (map_of want n)) else map_of (cgCams m) n))"
  using assms
proof (induction xs arbitrary: m)
  case (Cons x xs)
  obtain n s where x: "x = (n, s)" by fastforce
  then have "(n, s) \<in> set (x # xs)" by simp
  from Cons.prems [OF this] have s: "map_of want n = Some s" "spName s = n" by auto
  define m1 where "m1 = start_appeared pf H m x"
  have m1: "map_of (cgCams m1) k = (if k = n \<and> n \<notin> set H \<and> new_camera pf s \<noteq> (None :: 'f camera option)
      then new_camera pf s else map_of (cgCams m) k)" "wf_map (cgCams m) \<Longrightarrow> wf_map (cgCams m1)" for k
    by (auto simp: m1_def start_appeared_def startCamera_eq s(2) x split: option.splits)
  have "\<And>n s. (n, s) \<in> set xs \<Longrightarrow> map_of want n = Some s \<and> spName s = n"
    by (rule Cons.prems) simp
  note IH = Cons.IH [of m1, OF this]
  have run: "foldl (start_appeared pf H) m (x # xs) = foldl (start_appeared pf H) m1 xs" by (simp add: m1_def)
  have "wf_map (cgCams m) \<longrightarrow> wf_map (cgCams (foldl (start_appeared pf H) m (x # xs)))"
    unfolding run using IH m1(2) by blast
  moreover have "map_of (cgCams (foldl (start_appeared pf H) m (x # xs))) k =
      (if k \<in> fst ` set (x # xs) \<and> k \<notin> set H \<and> new_camera pf (the (map_of want k)) \<noteq> (None :: 'f camera option)
       then new_camera pf (the (map_of want k)) else map_of (cgCams m) k)" for k
    unfolding run using conjunct2 [OF IH, rule_format, of k] m1(1) [of k] s(1) x by (cases "k = n") auto
  ultimately show ?case by blast
qed simp

definition viewer_pcs :: "'f camera \<Rightarrow> nat set" where
  "viewer_pcs c = (\<lambda>e. suPc (snd e)) ` set (cmSubs c)"

lemma camera_Stop_open:
  "set (rtOpen (snd (camera_Stop (c, rt)))) = set (rtOpen rt) - viewer_pcs c"
proof -
  have "set (rtOpen (foldl (\<lambda>r e. pc_close (suPc (snd e)) r) rt xs)) =
      set (rtOpen rt) - (\<lambda>e. suPc (snd e)) ` set xs" for xs :: "(string \<times> subscriber) list"
    by (induction xs arbitrary: rt) (auto simp: pc_close_def)
  then show ?thesis by (simp add: camera_Stop_def viewer_pcs_def)
qed

lemma stop_gone_all:
  assumes "foldl (stop_gone want) (m, rt) names = (m', rt')"
  shows "(wf_map (cgCams m) \<longrightarrow> wf_map (cgCams m')) \<and>
    (\<forall>n. map_of (cgCams m') n = (if n \<in> set names \<and> map_of want n = None then None else map_of (cgCams m) n)) \<and>
    set (rtOpen rt') = set (rtOpen rt) -
      {p. \<exists>n cam. n \<in> set names \<and> map_of want n = None \<and> map_of (cgCams m) n = Some cam \<and> p \<in> viewer_pcs cam}"
  using assms
proof (induction names arbitrary: m rt)
  case (Cons name names)
  show ?case
  proof (cases "map_of want name")
    case (Some s)
    then have "stop_gone want (m, rt) name = (m, rt)" by (simp add: stop_gone_def)
    with Some Cons.IH [of m rt] Cons.prems show ?thesis by auto
  next
    case None
    let ?m = "m \<lparr>cgCams := map_del name (cgCams m)\<rparr>"
    let ?rt = "case map_of (cgCams m) name of None \<Rightarrow> rt | Some cam \<Rightarrow> snd (camera_Stop (cam, rt))"
    have "stop_gone want (m, rt) name = (?m, ?rt)" using None by (simp add: stop_gone_def)
    with Cons.prems have "foldl (stop_gone want) (?m, ?rt) names = (m', rt')" by simp
    note IH = Cons.IH [OF this]
    have rt: "set (rtOpen ?rt) = set (rtOpen rt) -
        {p. \<exists>cam. map_of (cgCams m) name = Some cam \<and> p \<in> viewer_pcs cam}"
      by (simp add: camera_Stop_open split: option.split)
    from IH None show ?thesis unfolding rt by auto
  qed
qed auto

text \<open>
  C29. After a scan exactly the discovered devices have a camera, as far as a pipeline for them can be
  made. A camera that was running and is still there is the same one, with its viewers; the
  connections of cameras that are gone are closed, and no others.
\<close>

theorem cameras_follow_devices:
  fixes m :: "'f cam_manager"
  assumes "reconcile_cameras pf rw rh specs (m, rt) = (m', rt')"
    and "wf_map (cgCams m)" and "\<And>xs. set (rw xs) = set xs" and "\<And>xs. set (rh xs) = set xs"
  shows "wf_map (cgCams m') \<and>
    (\<forall>n. manager_Camera m' n =
      (case map_of (want_specs specs) n of
         None \<Rightarrow> None
       | Some spec \<Rightarrow> (case manager_Camera m n of Some cam \<Rightarrow> Some cam | None \<Rightarrow> new_camera pf spec))) \<and>
    set (rtOpen rt') = set (rtOpen rt) -
      {p. \<exists>n cam. manager_Camera m n = Some cam \<and> map_of (want_specs specs) n = None \<and> p \<in> viewer_pcs cam}"
proof -
  let ?want = "want_specs specs"
  let ?H = "set (map fst (cgCams m))"
  define m1 where "m1 = foldl (start_appeared pf (map fst (cgCams m))) m (rw ?want)"
  have in_want: "map_of ?want n = Some s \<and> spName s = n" if "(n, s) \<in> set (rw ?want)" for n s
    using that assms(3) want_specs_wf [of specs] want_specs_name [of specs n s] by (simp add: wf_map_lookup)
  note 1 = start_appeared_all [OF in_want, of "rw ?want" m pf "map fst (cgCams m)", folded m1_def]
  have keys: "n \<in> fst ` set (rw ?want) \<longleftrightarrow> map_of ?want n \<noteq> None" for n
    using assms(3) by (simp add: map_of_eq_None_iff)
  have H: "n \<in> ?H \<longleftrightarrow> map_of (cgCams m) n \<noteq> None" for n by (simp add: map_of_eq_None_iff)
  have cams1: "map_of (cgCams m1) n = (case map_of (cgCams m) n of Some cam \<Rightarrow> Some cam | None \<Rightarrow>
      (case map_of ?want n of None \<Rightarrow> None | Some s \<Rightarrow> new_camera pf s))" for n
    using 1 keys [of n] H [of n] by (auto split: option.splits)
  have "foldl (stop_gone ?want) (m1, rt) (rh (map fst (cgCams m))) = (m', rt')"
    using assms(1) by (simp add: reconcile_cameras_def Let_def m1_def)
  note 2 = stop_gone_all [OF this]
  have "wf_map (cgCams m')" using 1 2 assms(2) by blast
  moreover have "manager_Camera m' n =
      (case map_of ?want n of None \<Rightarrow> None
       | Some spec \<Rightarrow> (case manager_Camera m n of Some cam \<Rightarrow> Some cam | None \<Rightarrow> new_camera pf spec))" for n
    using conjunct1 [OF conjunct2 [OF 2], rule_format, of n] cams1 [of n] H [of n] assms(4)
    unfolding manager_Camera_def by (auto split: option.splits)
  moreover have "set (rtOpen rt') = set (rtOpen rt) -
      {p. \<exists>n cam. manager_Camera m n = Some cam \<and> map_of ?want n = None \<and> p \<in> viewer_pcs cam}"
  proof -
    have "{p. \<exists>n cam. n \<in> set (rh (map fst (cgCams m))) \<and> map_of ?want n = None \<and> map_of (cgCams m1) n = Some cam \<and>
        p \<in> viewer_pcs cam} =
      {p. \<exists>n cam. manager_Camera m n = Some cam \<and> map_of ?want n = None \<and> p \<in> viewer_pcs cam}"
      unfolding assms(4) H manager_Camera_def using cams1 by (auto split: option.splits)
    with 2 show ?thesis by simp
  qed
  ultimately show ?thesis by blast
qed

definition demo_camera :: "string \<Rightarrow> nat \<Rightarrow> unit camera" where
  "demo_camera name pc =
     \<lparr>cmName = name, cmPipeline = Synthetic DefaultConfig, cmSubs = [(''s'', \<lparr>suPc = pc, suTrack = pc\<rparr>)], cmTracks = [pc],
      cmTaps = [], cmNextTap = 0, cmRunning = True, cmHooks = [(pc, ''s'')]\<rparr>"

definition demo_cameras :: "unit cam_manager" where
  "demo_cameras = \<lparr>cgAuto = True, cgCams = [(''a'', demo_camera ''a'' 0), (''b'', demo_camera ''b'' 1)]\<rparr>"

theorem cameras_follow_devices_witness:
  "\<exists>m' rt'. reconcile_cameras OtherPlatform id id [\<lparr>spName = ''a'', spDevice = ''0'', spPipeline = ''''\<rparr>]
      (demo_cameras, \<lparr>rtNext = 2, rtOpen = [0, 1]\<rparr>) = (m', rt') \<and>
    manager_Camera m' ''a'' = Some (demo_camera ''a'' 0) \<and> manager_Camera m' ''b'' = None \<and> set (rtOpen rt') = {0}"
proof -
  let ?specs = "[\<lparr>spName = ''a'', spDevice = ''0'', spPipeline = ''''\<rparr>]"
  obtain m' rt' where run: "reconcile_cameras OtherPlatform id id ?specs (demo_cameras, \<lparr>rtNext = 2, rtOpen = [0, 1]\<rparr>) = (m', rt')"
    by (rule prod.exhaust)
  have want: "map_of (want_specs ?specs) n = (if n = ''a'' then Some (hd ?specs) else None)" for n
    by (simp add: want_specs_def)
  have cams: "manager_Camera demo_cameras n =
      (if n = ''a'' then Some (demo_camera ''a'' 0) else if n = ''b'' then Some (demo_camera ''b'' 1) else None)" for n
    by (simp add: manager_Camera_def demo_cameras_def)
  have wf: "wf_map (cgCams demo_cameras)" by (simp add: wf_map_def demo_cameras_def)
  have pcs: "viewer_pcs (demo_camera n p) = {p}" for n p by (simp add: viewer_pcs_def demo_camera_def)
  have gone: "{p. \<exists>n cam. manager_Camera demo_cameras n = Some cam \<and> map_of (want_specs ?specs) n = None \<and> p \<in> viewer_pcs cam} = {1}"
    unfolding want cams by (auto simp: pcs split: if_splits)
  have *: "wf_map (cgCams m') \<and>
    (\<forall>n. manager_Camera m' n =
      (case map_of (want_specs ?specs) n of None \<Rightarrow> None
       | Some spec \<Rightarrow> (case manager_Camera demo_cameras n of Some cam \<Rightarrow> Some cam | None \<Rightarrow> new_camera OtherPlatform spec))) \<and>
    set (rtOpen rt') = set (rtOpen \<lparr>rtNext = 2, rtOpen = [0, 1]\<rparr>) - {1}"
    by (rule cameras_follow_devices [OF run wf, unfolded gone]) simp_all
  note n = conjunct1 [OF conjunct2 [OF *], rule_format]
  have "manager_Camera m' ''a'' = Some (demo_camera ''a'' 0)" unfolding n want cams by simp
  moreover have "manager_Camera m' ''b'' = None" unfolding n want by simp
  moreover have "set (rtOpen rt') = {0}" unfolding conjunct2 [OF conjunct2 [OF *]] by auto
  ultimately show ?thesis using run by blast
qed


section \<open>Viewers\<close>

text \<open>What happens to one camera: offers, ends of sessions, lost connections, and connections that other
  cameras open.\<close>

datatype view_op = Offer "rtc_call \<Rightarrow> string option" string string string | EndSession string | Lost nat | OtherOpens

fun view_step :: "view_op \<Rightarrow> 'f camera \<times> rtc \<Rightarrow> 'f camera \<times> rtc" where
  "view_step (Offer fails sdp s offer) cr = snd (NewSubscriber fails sdp s offer cr)"
| "view_step (EndSession s) cr = EndSubscriber s cr"
| "view_step (Lost p) cr = connection_lost p cr"
| "view_step OtherOpens cr = (fst cr, snd cr \<lparr>rtNext := Suc (rtNext (snd cr)), rtOpen := rtOpen (snd cr) @ [rtNext (snd cr)]\<rparr>)"

definition view_run :: "view_op list \<Rightarrow> 'f camera \<times> rtc \<Rightarrow> 'f camera \<times> rtc" where
  "view_run ops cr = foldl (\<lambda>cr op. view_step op cr) cr ops"

text \<open>Every offer names a session that is not in use, as the random ids of the HTTP route do.\<close>

fun fresh_offers :: "view_op list \<Rightarrow> 'f camera \<times> rtc \<Rightarrow> bool" where
  "fresh_offers [] cr = True"
| "fresh_offers (op # ops) cr =
     ((case op of Offer fails sdp s offer \<Rightarrow> s \<notin> fst ` set (cmSubs (fst cr)) | _ \<Rightarrow> True) \<and>
      fresh_offers ops (view_step op cr))"

definition viewers_ok :: "'f camera \<times> rtc \<Rightarrow> bool" where
  "viewers_ok cr \<longleftrightarrow> (case cr of (c, rt) \<Rightarrow>
     wf_map (cmSubs c) \<and> distinct (cmTracks c) \<and> set (cmTracks c) = viewer_pcs c \<and>
     (\<forall>s sub. map_of (cmSubs c) s = Some sub \<longrightarrow> suTrack sub = suPc sub \<and> map_of (cmHooks c) (suPc sub) = Some s) \<and>
     dom (map_of (cmHooks c)) \<inter> set (rtOpen rt) = viewer_pcs c \<and> viewer_pcs c \<subseteq> set (rtOpen rt) \<and>
     (\<forall>p \<in> dom (map_of (cmHooks c)) \<union> set (rtOpen rt). p < rtNext rt))"

lemma viewer_pcs_lookup: "wf_map (cmSubs c) \<Longrightarrow> p \<in> viewer_pcs c \<longleftrightarrow> (\<exists>s sub. map_of (cmSubs c) s = Some sub \<and> suPc sub = p)"
proof -
  have "p \<in> viewer_pcs c \<longleftrightarrow> (\<exists>s sub. (s, sub) \<in> set (cmSubs c) \<and> suPc sub = p)" by (force simp: viewer_pcs_def)
  then show "wf_map (cmSubs c) \<Longrightarrow> p \<in> viewer_pcs c \<longleftrightarrow> (\<exists>s sub. map_of (cmSubs c) s = Some sub \<and> suPc sub = p)"
    by (simp add: wf_map_lookup)
qed

lemma removeSubscriber_ok:
  assumes "viewers_ok (c, rt)" "removeSubscriber s (c, rt) = (c', rt')"
  shows "viewers_ok (c', rt') \<and>
    viewer_pcs c' = viewer_pcs c - (case map_of (cmSubs c) s of None \<Rightarrow> {} | Some sub \<Rightarrow> {suPc sub})"
proof (cases "map_of (cmSubs c) s")
  case None
  with assms show ?thesis by (simp add: removeSubscriber_def)
next
  case (Some sub)
  have c': "c' = c \<lparr>cmSubs := map_del s (cmSubs c), cmTracks := remove1 (suTrack sub) (cmTracks c)\<rparr>"
    "rt' = pc_close (suPc sub) rt"
    using assms(2) Some by (simp_all add: removeSubscriber_def)
  from assms(1) have ok: "wf_map (cmSubs c)" "distinct (cmTracks c)" "set (cmTracks c) = viewer_pcs c"
    "\<And>s sub. map_of (cmSubs c) s = Some sub \<Longrightarrow> suTrack sub = suPc sub \<and> map_of (cmHooks c) (suPc sub) = Some s"
    "dom (map_of (cmHooks c)) \<inter> set (rtOpen rt) = viewer_pcs c" "viewer_pcs c \<subseteq> set (rtOpen rt)"
    "\<forall>p \<in> dom (map_of (cmHooks c)) \<union> set (rtOpen rt). p < rtNext rt"
    by (simp_all add: viewers_ok_def)
  have wf': "wf_map (cmSubs c')" using ok(1) by (simp add: c')
  have pcs: "viewer_pcs c' = viewer_pcs c - {suPc sub}"
  proof (rule set_eqI)
    fix p
    show "p \<in> viewer_pcs c' \<longleftrightarrow> p \<in> viewer_pcs c - {suPc sub}"
      unfolding viewer_pcs_lookup [OF wf'] Diff_iff viewer_pcs_lookup [OF ok(1)]
      using ok(4) Some by (auto simp: c'(1)) (metis option.inject)+
  qed
  have "viewers_ok (c', rt')"
    unfolding viewers_ok_def prod.case pcs
    using ok ok(4) [OF Some] wf' by (auto simp: c' pc_close_def split: if_splits)
  with pcs Some show ?thesis by simp
qed

lemma NewSubscriber_ok:
  assumes "viewers_ok (c, rt)" "s \<notin> fst ` set (cmSubs c)" "NewSubscriber fails sdp s offer (c, rt) = (r, c', rt')"
  shows "viewers_ok (c', rt')"
proof (cases "r = Inr sdp \<and> fails RtcPeer = None \<and>
    first_error [fails RtcTrack, fails RtcAddTrack, fails (RtcRemote offer), fails RtcAnswer, fails RtcLocal] = None")
  case True
  let ?sub = "\<lparr>suPc = rtNext rt, suTrack = rtNext rt\<rparr>"
  have c': "c' = c \<lparr>cmTracks := cmTracks c @ [rtNext rt], cmSubs := map_set s ?sub (cmSubs c),
      cmHooks := map_set (rtNext rt) s (cmHooks c)\<rparr>"
    "rt' = rt \<lparr>rtNext := Suc (rtNext rt), rtOpen := rtOpen rt @ [rtNext rt]\<rparr>"
    using assms(3) True by (simp_all add: NewSubscriber_def Let_def del: first_error_None)
  have new: "map_of (cmSubs c) s = None" using assms(2) by (simp add: map_of_eq_None_iff)
  from assms(1) have ok: "wf_map (cmSubs c)" "distinct (cmTracks c)" "set (cmTracks c) = viewer_pcs c"
    "\<And>s sub. map_of (cmSubs c) s = Some sub \<Longrightarrow> suTrack sub = suPc sub \<and> map_of (cmHooks c) (suPc sub) = Some s"
    "dom (map_of (cmHooks c)) \<inter> set (rtOpen rt) = viewer_pcs c" "viewer_pcs c \<subseteq> set (rtOpen rt)"
    "\<And>p. p \<in> dom (map_of (cmHooks c)) \<union> set (rtOpen rt) \<Longrightarrow> p < rtNext rt"
    by (auto simp: viewers_ok_def)
  have fresh: "rtNext rt \<notin> dom (map_of (cmHooks c))" "rtNext rt \<notin> set (rtOpen rt)" "rtNext rt \<notin> viewer_pcs c"
    using ok(6) ok(7) [of "rtNext rt"] by auto
  have wf': "wf_map (cmSubs c')" using ok(1) by (simp add: c')
  have pcs: "viewer_pcs c' = insert (rtNext rt) (viewer_pcs c)"
    by (simp add: viewer_pcs_def c'(1) map_set_new [OF assms(2)])
  have hooks: "suTrack sub = suPc sub \<and> map_of (cmHooks c') (suPc sub) = Some t" if "map_of (cmSubs c') t = Some sub" for t sub
  proof (cases "t = s")
    case False
    with that have "map_of (cmSubs c) t = Some sub" by (simp add: c')
    with ok(4) [OF this] fresh(1) show ?thesis by (auto simp: c')
  qed (use that in \<open>auto simp: c'\<close>)
  have "dom (map_of (cmHooks c')) = insert (rtNext rt) (dom (map_of (cmHooks c)))"
    by (auto simp: c' split: if_splits)
  moreover have "rtOpen rt' = rtOpen rt @ [rtNext rt]" "rtNext rt' = Suc (rtNext rt)" "cmTracks c' = cmTracks c @ [rtNext rt]"
    by (simp_all add: c')
  ultimately show ?thesis
    unfolding viewers_ok_def prod.case pcs
    using ok(2,3,5,6) fresh wf' hooks less_SucI [OF ok(7)] by auto
next
  case False
  then have c': "c' = c" "rt' = rt \<or> (rt' = pc_close (rtNext rt) (rt \<lparr>rtNext := Suc (rtNext rt), rtOpen := rtOpen rt @ [rtNext rt]\<rparr>))"
    using assms(3) by (auto simp: NewSubscriber_def Let_def simp del: first_error_None split: option.splits)
  have "rtNext rt \<notin> set (rtOpen rt)" using assms(1) by (auto simp: viewers_ok_def)
  then have "set (rtOpen rt') = set (rtOpen rt)" "rtNext rt \<le> rtNext rt'"
    using c'(2) by (auto simp: pc_close_def)
  with assms(1) c'(1) show ?thesis by (auto simp: viewers_ok_def intro: less_le_trans)
qed

lemma view_step_ok:
  assumes "viewers_ok cr" "fresh_offers [op] cr"
  shows "viewers_ok (view_step op cr)"
proof -
  obtain c rt where cr: "cr = (c, rt)" by fastforce
  obtain c' rt' where st: "view_step op cr = (c', rt')" by fastforce
  show ?thesis
  proof (cases op)
    case (Offer fails sdp s offer)
    obtain r where "NewSubscriber fails sdp s offer (c, rt) = (r, c', rt')"
      using st Offer cr by (cases "NewSubscriber fails sdp s offer (c, rt)") auto
    from NewSubscriber_ok [OF _ _ this] assms Offer cr st show ?thesis by simp
  next
    case (EndSession s)
    with removeSubscriber_ok [of c rt s c' rt'] assms(1) st cr show ?thesis by (simp add: EndSubscriber_def)
  next
    case (Lost p)
    show ?thesis
    proof (cases "map_of (cmHooks c) p")
      case None
      with Lost cr assms(1) show ?thesis by (simp add: connection_lost_def)
    next
      case (Some s)
      with Lost st cr have "removeSubscriber s (c, rt) = (c', rt')" by (simp add: connection_lost_def)
      with removeSubscriber_ok [of c rt s c' rt'] assms(1) st cr show ?thesis by simp
    qed
  next
    case OtherOpens
    from assms(1) cr have lt: "p < rtNext rt" if "p \<in> dom (map_of (cmHooks c)) \<union> set (rtOpen rt)" for p
      using that by (simp add: viewers_ok_def)
    then have "rtNext rt \<notin> dom (map_of (cmHooks c))" by blast
    with assms(1) cr OtherOpens less_SucI [OF lt] show ?thesis by (auto simp: viewers_ok_def)
  qed
qed

lemma view_run_ok: "viewers_ok cr \<Longrightarrow> fresh_offers ops cr \<Longrightarrow> viewers_ok (view_run ops cr)"
  unfolding view_run_def
proof (induction ops arbitrary: cr)
  case (Cons op ops)
  from Cons.prems have "viewers_ok (view_step op cr)" by (intro view_step_ok) simp_all
  with Cons show ?case by simp
qed simp

lemma viewers_ok_New: "camera_New name p = Inr c \<Longrightarrow> viewers_ok (c, \<lparr>rtNext = n, rtOpen = []\<rparr>)"
  by (auto simp: camera_New_def viewers_ok_def viewer_pcs_def split: if_splits)

lemma viewers_ok_count:
  assumes "viewers_ok (c, rt)"
  shows "length (cmTracks c) = length (cmSubs c)"
proof -
  from assms have *: "wf_map (cmSubs c)" "distinct (cmTracks c)" "set (cmTracks c) = viewer_pcs c"
    and hook: "\<And>s sub. map_of (cmSubs c) s = Some sub \<Longrightarrow> map_of (cmHooks c) (suPc sub) = Some s"
    by (auto simp: viewers_ok_def)
  have "inj_on (\<lambda>e. suPc (snd e)) (set (cmSubs c))"
  proof (rule inj_onI)
    fix x y
    assume xy: "x \<in> set (cmSubs c)" "y \<in> set (cmSubs c)" and pc: "suPc (snd x) = suPc (snd y)"
    have x: "map_of (cmSubs c) (fst x) = Some (snd x)" using wf_map_lookup [OF *(1), of "fst x" "snd x"] xy(1) by simp
    have y: "map_of (cmSubs c) (fst y) = Some (snd y)" using wf_map_lookup [OF *(1), of "fst y" "snd y"] xy(2) by simp
    from hook [OF x] hook [OF y] pc have "fst x = fst y" by simp
    with x y show "x = y" by (simp add: prod_eq_iff)
  qed
  then have "card (viewer_pcs c) = card (set (cmSubs c))" unfolding viewer_pcs_def by (rule card_image)
  moreover have "distinct (cmSubs c)" using *(1) by (simp add: wf_map_def distinct_map)
  ultimately show ?thesis
    using distinct_card [OF *(2)] distinct_card [of "cmSubs c"] *(3) by simp
qed

lemma viewers_ok_lost:
  assumes "viewers_ok (c, rt)" "p \<in> viewer_pcs c"
  shows "viewer_pcs (fst (connection_lost p (c, rt))) = viewer_pcs c - {p}"
proof -
  from assms(1) have wf: "wf_map (cmSubs c)"
    and hook: "\<And>s sub. map_of (cmSubs c) s = Some sub \<Longrightarrow> map_of (cmHooks c) (suPc sub) = Some s"
    by (auto simp: viewers_ok_def)
  obtain s sub where sub: "map_of (cmSubs c) s = Some sub" "suPc sub = p"
    using assms(2) viewer_pcs_lookup [OF wf, of p] by blast
  have lost: "connection_lost p (c, rt) = removeSubscriber s (c, rt)"
    using hook [OF sub(1)] sub(2) by (simp add: connection_lost_def)
  obtain c' rt' where rm: "removeSubscriber s (c, rt) = (c', rt')" by (rule prod.exhaust)
  from removeSubscriber_ok [OF assms(1) rm] sub show ?thesis unfolding lost rm by simp
qed



text \<open>An offer may repeat the session id of a viewer that is still connected: then the first track stays
  for good, the first connection is never closed, and losing it removes the second viewer.\<close>

lemma repeated_session_leaks:
  assumes "camera_New name pl = Inr c0"
    and "view_run [Offer (\<lambda>_. None) sdp ''s'' o1, Offer (\<lambda>_. None) sdp ''s'' o2, Lost 0]
      (c0, \<lparr>rtNext = 0, rtOpen = []\<rparr>) = (c, rt)"
  shows "cmSubs c = [] \<and> cmTracks c = [0] \<and> rtOpen rt = [0]"
  using assms
  by (auto simp: camera_New_def view_run_def NewSubscriber_def connection_lost_def removeSubscriber_def map_del_def pc_close_def
      split: if_splits)

end
