(* ===== verification/Recorder.thy ===== *)
theory Recorder
  imports Episode Cameras
begin

text \<open>
  The recorder of \<^verbatim>\<open>agent/internal/recorder\<close>: \<^verbatim>\<open>recorder.go\<close> and \<^verbatim>\<open>rpc.go\<close> over the episode files. The
  tap on the cameras, the goroutine that drains its channel, the ticks of the watcher, the stream
  callbacks and the requests are the steps; each runs under the recorder's lock or touches only the
  episode. Clock readings, the new episode id, the free space and everything behind the file system and
  the MCAP library are arguments. The lemmas show that at most one episode records and its
  subscriptions never leak, and which video frames reach the container.
\<close>

section \<open>State\<close>

definition defaultMinFree :: nat where "defaultMinFree = 500 * 2 ^ 20"

record rec_config =
  rgRover :: string
  rgPlatform :: string
  rgCameras :: bool
  rgMinFree :: nat

record video_frame =
  vfCam :: string
  vfAu :: bytes
  vfAt :: time

record active_episode =
  aeId :: string
  aeLabel :: string
  aeStart :: time
  aeW :: episode_writer
  aeSubs :: "nat list"
  aeTap :: bool
  aeStarted :: "string list"
  aeVid :: "video_frame list"
  aeVideoChannels :: "string list"
  aeDropped :: nat

record recorder =
  rrCfg :: rec_config
  rrEp :: "active_episode option"
  rrDir :: rec_dir

definition recorder_New :: "rec_config \<Rightarrow> rec_dir \<Rightarrow> recorder" where
  "recorder_New cfg dir =
     \<lparr>rrCfg = (if rgMinFree cfg = 0 then cfg \<lparr>rgMinFree := defaultMinFree\<rparr> else cfg), rrEp = None, rrDir = dir\<rparr>"

text \<open>The file system, the MCAP library, the schema registry and the frame marshaller.\<close>

record rec_outside =
  xoFs :: "fs_call \<Rightarrow> string option"
  xoLib :: "string option"
  xoFds :: "string \<Rightarrow> bytes option"
  xoFails :: "nat \<Rightarrow> mcap_record \<Rightarrow> string option"
  xoClose :: "string option"
  xoWritten :: "mcap_record list \<Rightarrow> bool \<Rightarrow> nat"
  xoEnc :: "string \<times> bytes \<times> time \<Rightarrow> string + bytes"


section \<open>Starting\<close>

text \<open>\<open>free\<close> is the answer of \<^verbatim>\<open>freeBytes\<close>. The result is the reason for a refusal.\<close>

definition canStart :: "string + nat \<Rightarrow> recorder \<Rightarrow> string option" where
  "canStart free r =
     (case rrEp r of
        Some ep \<Rightarrow> Some (''already recording '' @ aeId ep)
      | None \<Rightarrow>
          (case free of
             Inl e \<Rightarrow> None
           | Inr n \<Rightarrow>
               if n < rgMinFree (rrCfg r)
               then Some (''low disk: '' @ print_nat (n div 2 ^ 20) @ '' MiB free, '' @
                      print_nat (rgMinFree (rrCfg r) div 2 ^ 20) @ '' MiB required'')
               else None))"

fun subscribe_specs ::
  "(nat \<Rightarrow> string \<Rightarrow> string option) \<Rightarrow> string \<Rightarrow> stream_spec list \<Rightarrow> nat list \<Rightarrow> conn \<Rightarrow> string option \<times> nat list \<times> conn" where
  "subscribe_specs sub rover [] ids c = (None, ids, c)"
| "subscribe_specs sub rover (s # ss) ids c =
     (case nc_subscribe sub (platform_subject rover (ssSubject s)) (Handler (''record '' @ ssSubject s)) c of
        (Inl e, c') \<Rightarrow> (Some e, ids, c')
      | (Inr i, c') \<Rightarrow> subscribe_specs sub rover ss (ids @ [i]) c')"

text \<open>\<^verbatim>\<open>abort\<close>: the subscriptions made so far are closed and the partial file is removed.\<close>

definition rec_abort :: "(fs_call \<Rightarrow> string option) \<Rightarrow> string \<Rightarrow> nat list \<Rightarrow> rec_dir \<times> conn \<Rightarrow> rec_dir \<times> conn" where
  "rec_abort fs i ids dc =
     (case dc of (dir, c) \<Rightarrow>
        (case fs (FsRemove (partialName i)) of Some _ \<Rightarrow> dir | None \<Rightarrow> map_del (partialName i) dir, unsubscribe_all ids c))"

definition StartEpisode ::
  "rec_outside \<Rightarrow> (nat \<Rightarrow> string \<Rightarrow> string option) \<Rightarrow> string + nat \<Rightarrow> time \<Rightarrow> string \<Rightarrow> stream_spec list \<Rightarrow> string \<Rightarrow>
    recorder \<times> conn \<Rightarrow> (string + string) \<times> recorder \<times> conn" where
  "StartEpisode x sub free now i specs label rc =
     (case rc of (r, c) \<Rightarrow>
      case canStart free r of
        Some reason \<Rightarrow> (Inl reason, r, c)
      | None \<Rightarrow>
          (case newEpisodeWriter (xoFs x) (xoLib x) (xoFds x) (xoFails x) i specs (rrDir r) of
             (Inl e, dir) \<Rightarrow> (Inl e, r \<lparr>rrDir := dir\<rparr>, c)
           | (Inr w, dir) \<Rightarrow>
               (case subscribe_specs sub (rgRover (rrCfg r)) specs [] c of
                  (Some e, ids, c') \<Rightarrow>
                    (case rec_abort (xoFs x) i ids (dir, c') of (dir', c'') \<Rightarrow> (Inl e, r \<lparr>rrDir := dir'\<rparr>, c''))
                | (None, ids, c') \<Rightarrow>
                    (Inr i,
                     r \<lparr>rrDir := dir,
                        rrEp := Some \<lparr>aeId = i, aeLabel = label, aeStart = now, aeW = w, aeSubs = ids,
                          aeTap = rgCameras (rrCfg r), aeStarted = [], aeVid = [], aeVideoChannels = [], aeDropped = 0\<rparr>\<rparr>, c'))))"


section \<open>Recording\<close>

text \<open>The callback of a recorded stream.\<close>

definition on_stream :: "rec_outside \<Rightarrow> string \<Rightarrow> bytes \<Rightarrow> time \<Rightarrow> active_episode \<Rightarrow> active_episode" where
  "on_stream x topic data now ep = ep \<lparr>aeW := snd (ew_write (xoFails x) topic data now (aeW ep))\<rparr>"

definition vidCap :: nat where "vidCap = 32"

text \<open>The tap: frames of a camera are passed on from its first keyframe; one that finds the channel full
  is counted as dropped.\<close>

definition on_tap :: "string \<Rightarrow> bytes \<Rightarrow> bool \<Rightarrow> time \<Rightarrow> active_episode \<Rightarrow> active_episode" where
  "on_tap camID au keyframe now ep =
     (if camID \<notin> set (aeStarted ep) \<and> \<not> keyframe then ep
      else let ep1 = (if camID \<in> set (aeStarted ep) then ep else ep \<lparr>aeStarted := camID # aeStarted ep\<rparr>) in
        if length (aeVid ep1) < vidCap
        then ep1 \<lparr>aeVid := aeVid ep1 @ [\<lparr>vfCam = camID, vfAu = au, vfAt = now\<rparr>]\<rparr>
        else ep1 \<lparr>aeDropped := Suc (aeDropped ep1)\<rparr>)"

text \<open>One round of \<^verbatim>\<open>drainVideo\<close> for a frame taken from the channel; the frame is written or counted as
  dropped.\<close>

definition drain_frame :: "rec_outside \<Rightarrow> video_frame \<Rightarrow> active_episode \<Rightarrow> bool \<times> active_episode" where
  "drain_frame x f ep =
     (case (if vfCam f \<in> set (aeVideoChannels ep) then (None, aeW ep)
            else addVideoChannel (xoFds x) (xoFails x) (vfCam f) (aeW ep)) of
        (Some e, w) \<Rightarrow> (False, ep \<lparr>aeW := w, aeDropped := Suc (aeDropped ep)\<rparr>)
      | (None, w) \<Rightarrow>
          let ep1 = ep \<lparr>aeW := w, aeVideoChannels := List.insert (vfCam f) (aeVideoChannels ep)\<rparr> in
          (case writeVideo (xoEnc x) (xoFails x) (vfCam f) (vfAu f) (vfAt f) w of
             (Some e, w') \<Rightarrow> (False, ep1 \<lparr>aeW := w', aeDropped := Suc (aeDropped ep1)\<rparr>)
           | (None, w') \<Rightarrow> (True, ep1 \<lparr>aeW := w'\<rparr>)))"

definition drain_one :: "rec_outside \<Rightarrow> active_episode \<Rightarrow> video_frame list \<times> active_episode" where
  "drain_one x ep =
     (case aeVid ep of
        [] \<Rightarrow> ([], ep)
      | f # fs \<Rightarrow> (case drain_frame x f (ep \<lparr>aeVid := fs\<rparr>) of (wrote, ep') \<Rightarrow> (if wrote then [f] else [], ep')))"

text \<open>After the tap is removed and the channel closed the goroutine flushes what is left.\<close>

fun drain_frames :: "rec_outside \<Rightarrow> video_frame list \<Rightarrow> active_episode \<Rightarrow> active_episode" where
  "drain_frames x [] ep = ep"
| "drain_frames x (f # fs) ep = drain_frames x fs (snd (drain_frame x f ep))"

definition drainVideo :: "rec_outside \<Rightarrow> active_episode \<Rightarrow> active_episode" where
  "drainVideo x ep = drain_frames x (aeVid ep) (ep \<lparr>aeVid := []\<rparr>)"


section \<open>Stopping\<close>

text \<open>The result is the sidecar and the error of the finalization, or only an error.\<close>

definition stopLocked ::
  "rec_outside \<Rightarrow> time \<Rightarrow> bool option \<Rightarrow> string \<Rightarrow> recorder \<times> conn \<Rightarrow> (sidecar option \<times> string option) \<times> recorder \<times> conn" where
  "stopLocked x now success notes rc =
     (case rc of (r, c) \<Rightarrow>
      case rrEp r of
        None \<Rightarrow> ((None, Some ''not recording''), r, c)
      | Some ep0 \<Rightarrow>
          let c' = unsubscribe_all (aeSubs ep0) c;
              ep = (if aeTap ep0 then drainVideo x ep0 else ep0);
              sc = \<lparr>scFormatVersion = FormatVersion, scEpisodeID = aeId ep, scPlatformID = rgPlatform (rrCfg r),
                    scRoverID = rgRover (rrCfg r), scTaskLabel = aeLabel ep, scStart = aeStart ep, scEnd = now,
                    scDuration = now - aeStart ep, scSuccess = success, scNotes = notes, scCrashed = False, scBytes = 0,
                    scVideoFramesDropped = aeDropped ep, scStreams = []\<rparr>
          in (case finalize (xoFs x) (xoFails x) (xoClose x) (xoWritten x) sc (aeW ep) (rrDir r) of
                (err, sc', dir) \<Rightarrow> ((Some sc', err), r \<lparr>rrEp := None, rrDir := dir\<rparr>, c')))"

definition StopEpisode ::
  "rec_outside \<Rightarrow> time \<Rightarrow> bool \<Rightarrow> string \<Rightarrow> recorder \<times> conn \<Rightarrow> (sidecar option \<times> string option) \<times> recorder \<times> conn" where
  "StopEpisode x now success notes rc = stopLocked x now (Some success) notes rc"

text \<open>A tick of \<^verbatim>\<open>watch\<close> for the episode \<open>i\<close>: low disk stops it, if it is still the one recording. The
  flag says whether \<^verbatim>\<open>OnAutoStop\<close> is called.\<close>

definition autoStop :: "rec_outside \<Rightarrow> time \<Rightarrow> string \<Rightarrow> string \<Rightarrow> recorder \<times> conn \<Rightarrow> bool \<times> recorder \<times> conn" where
  "autoStop x now i reason rc =
     (if map_option aeId (rrEp (fst rc)) \<noteq> Some i then (False, rc)
      else (True, snd (stopLocked x now None (''auto-stopped: '' @ reason) rc)))"

definition watch_tick :: "rec_outside \<Rightarrow> string + nat \<Rightarrow> time \<Rightarrow> string \<Rightarrow> recorder \<times> conn \<Rightarrow> bool \<times> recorder \<times> conn" where
  "watch_tick x free now i rc =
     (case free of
        Inr n \<Rightarrow>
          if n < rgMinFree (rrCfg (fst rc))
          then autoStop x now i (''low disk: '' @ print_nat (n div 2 ^ 20) @ '' MiB free'') rc
          else (False, rc)
      | Inl e \<Rightarrow> (False, rc))"


section \<open>Episodes on disk\<close>

definition rec_List :: "rec_outside \<Rightarrow> recorder \<Rightarrow> string + sidecar list" where
  "rec_List x r = listSidecars (xoFs x) (rrDir r)"

text \<open>\<^verbatim>\<open>filepath.Base\<close> leaves an id alone if it has no separator, or is one. The entry of such an id.\<close>

definition is_base :: "string \<Rightarrow> bool" where
  "is_base i \<longleftrightarrow> i \<noteq> '''' \<and> (CHR ''/'' \<notin> set i \<or> i = ''/'')"

definition entry :: "string \<Rightarrow> string \<Rightarrow> string" where
  "entry i ext = (if i = ''/'' then ext else i @ ext)"

definition rec_Path :: "rec_outside \<Rightarrow> string \<Rightarrow> recorder \<Rightarrow> string + string" where
  "rec_Path x i r =
     (if i = '''' \<or> \<not> is_base i \<or> contains i ''..'' then Inl ''invalid episode id''
      else if map_option aeId (rrEp r) = Some i then Inl ''episode is recording''
      else let p = entry i ''.mcap'' in
        case xoFs x (FsStat p) of
          Some e \<Rightarrow> Inl e
        | None \<Rightarrow> if map_of (rrDir r) p = None then Inl not_exist else Inr p)"

definition rec_Delete :: "rec_outside \<Rightarrow> string \<Rightarrow> recorder \<Rightarrow> string option \<times> recorder" where
  "rec_Delete x i r =
     (case rec_Path x i r of
        Inl e \<Rightarrow> (Some e, r)
      | Inr p \<Rightarrow>
          (case xoFs x (FsRemove p) of
             Some e \<Rightarrow> (Some e, r)
           | None \<Rightarrow>
               let r1 = r \<lparr>rrDir := map_del p (rrDir r)\<rparr>;
                   sp = entry i ''.json''
               in case xoFs x (FsRemove sp) of
                    Some e \<Rightarrow> (Some e, r1)
                  | None \<Rightarrow> if map_of (rrDir r1) sp = None then (Some not_exist, r1)
                            else (None, r1 \<lparr>rrDir := map_del sp (rrDir r1)\<rparr>)))"


section \<open>Requests\<close>

record rec_event =
  reRecording :: bool
  reEpisode :: string
  reElapsed :: duration
  reBytes :: nat
  reCanStart :: bool
  reReason :: string

definition publishEvent :: "rec_outside \<Rightarrow> string + nat \<Rightarrow> time \<Rightarrow> string \<Rightarrow> recorder \<Rightarrow> rec_event" where
  "publishEvent x free now reason r =
     (let ev = \<lparr>reRecording = False, reEpisode = '''', reElapsed = 0, reBytes = 0, reCanStart = False, reReason = reason\<rparr> in
      case rrEp r of
        Some ep \<Rightarrow> ev \<lparr>reRecording := True, reEpisode := aeId ep, reElapsed := now - aeStart ep,
            reBytes := xoWritten x (ewRecords (aeW ep)) False\<rparr>
      | None \<Rightarrow>
          (case canStart free r of
             None \<Rightarrow> ev \<lparr>reCanStart := True\<rparr>
           | Some why \<Rightarrow> if reason = '''' then ev \<lparr>reReason := why\<rparr> else ev))"

datatype rec_reply = StartReply bool string string | StopReply bool string "sidecar option" | ListReply "sidecar list"

definition onStart ::
  "rec_outside \<Rightarrow> (nat \<Rightarrow> string \<Rightarrow> string option) \<Rightarrow> string + nat \<Rightarrow> time \<Rightarrow> string \<Rightarrow> stream_spec list \<Rightarrow> (bytes \<Rightarrow> string option) \<Rightarrow>
    bytes \<Rightarrow> recorder \<times> conn \<Rightarrow> rec_reply \<times> recorder \<times> conn" where
  "onStart x sub free now i specs dec data rc =
     (case dec data of
        None \<Rightarrow> (StartReply False '''' ''bad request'', rc)
      | Some label \<Rightarrow>
          (case StartEpisode x sub free now i specs label rc of
             (Inl e, rc') \<Rightarrow> (StartReply False '''' e, rc')
           | (Inr i', rc') \<Rightarrow> (StartReply True i' '''', rc')))"

definition onStop ::
  "rec_outside \<Rightarrow> time \<Rightarrow> (bytes \<Rightarrow> (bool \<times> string) option) \<Rightarrow> bytes \<Rightarrow> recorder \<times> conn \<Rightarrow> rec_reply \<times> recorder \<times> conn" where
  "onStop x now dec data rc =
     (case dec data of
        None \<Rightarrow> (StopReply False ''bad request'' None, rc)
      | Some (success, notes) \<Rightarrow>
          (case StopEpisode x now success notes rc of
             ((_, Some e), rc') \<Rightarrow> (StopReply False e None, rc')
           | ((sc, None), rc') \<Rightarrow> (StopReply True '''' sc, rc')))"

definition onList :: "rec_outside \<Rightarrow> recorder \<Rightarrow> rec_reply" where
  "onList x r = ListReply (case rec_List x r of Inl e \<Rightarrow> [] | Inr scs \<Rightarrow> scs)"


section \<open>Subscriptions do not leak\<close>

datatype rec_op =
    OpStart rec_outside "nat \<Rightarrow> string \<Rightarrow> string option" "string + nat" time string "stream_spec list" string
  | OpStop rec_outside time bool string
  | OpTick rec_outside "string + nat" time string

fun rec_step :: "rec_op \<Rightarrow> recorder \<times> conn \<Rightarrow> recorder \<times> conn" where
  "rec_step (OpStart x sub free now i specs label) rc = snd (StartEpisode x sub free now i specs label rc)"
| "rec_step (OpStop x now success notes) rc = snd (StopEpisode x now success notes rc)"
| "rec_step (OpTick x free now i) rc = snd (watch_tick x free now i rc)"

definition rec_owned :: "recorder \<Rightarrow> nat multiset" where
  "rec_owned r = (case rrEp r of None \<Rightarrow> {#} | Some ep \<Rightarrow> mset (aeSubs ep))"

lemma subscribe_specs_keeps:
  "subscribe_specs sub rover ss ids c = (e, ids', c') \<Longrightarrow> conn_inv c \<Longrightarrow> open_ids c = F + mset ids \<Longrightarrow>
     conn_inv c' \<and> open_ids c' = F + mset ids'"
proof (induction ss arbitrary: ids c)
  case (Cons s ss)
  obtain res c1 where n: "nc_subscribe sub (platform_subject rover (ssSubject s)) (Handler (''record '' @ ssSubject s)) c = (res, c1)"
    by fastforce
  show ?case
  proof (cases res)
    case (Inl x)
    with Cons.prems n nc_subscribe_Inl [OF n [unfolded Inl]] show ?thesis by auto
  next
    case (Inr i)
    note * = nc_subscribe_Inr [OF n [unfolded Inr] Cons.prems(2)]
    have "subscribe_specs sub rover ss (ids @ [i]) c1 = (e, ids', c')" using Cons.prems(1) n Inr by simp
    from Cons.IH [OF this] * Cons.prems(3) show ?thesis by auto
  qed
qed simp

lemma StartEpisode_keeps:
  assumes "conn_inv c" "open_ids c = F + rec_owned r" "StartEpisode x sub free now i specs label (r, c) = (res, r', c')"
  shows "conn_inv c' \<and> open_ids c' = F + rec_owned r'"
proof (cases "canStart free r")
  case None
  then have idle: "rrEp r = None" by (auto simp: canStart_def split: option.splits)
  with assms(2) have open0: "open_ids c = F + mset []" by (simp add: rec_owned_def)
  obtain nw dir where w: "newEpisodeWriter (xoFs x) (xoLib x) (xoFds x) (xoFails x) i specs (rrDir r) = (nw, dir)" by fastforce
  show ?thesis
  proof (cases nw)
    case (Inl e)
    with assms None w show ?thesis by (auto simp: StartEpisode_def rec_owned_def)
  next
    case (Inr ew)
    obtain e ids c1 where s: "subscribe_specs sub (rgRover (rrCfg r)) specs [] c = (e, ids, c1)"
      by (metis prod_cases3)
    note * = subscribe_specs_keeps [OF s assms(1) open0]
    with unsubscribe_all_open [of c1 ids] idle assms(3) None w Inr s show ?thesis
      by (cases e) (auto simp: StartEpisode_def rec_owned_def rec_abort_def)
  qed
qed (use assms in \<open>auto simp: StartEpisode_def\<close>)

lemma stopLocked_keeps:
  assumes "conn_inv c" "open_ids c = F + rec_owned r" "stopLocked x now success notes (r, c) = (res, r', c')"
  shows "conn_inv c' \<and> open_ids c' = F + rec_owned r'"
  using assms unsubscribe_all_open [OF assms(1)]
  by (auto simp: stopLocked_def rec_owned_def Let_def split: option.splits prod.splits)

interpretation rec_owner: subscription_owner rec_owned "\<lambda>_. True" rec_step
proof
  fix b c F op b' c'
  assume *: "conn_inv c" "open_ids c = F + rec_owned b" "rec_step op (b, c) = (b', c')"
  show "True \<and> conn_inv c' \<and> open_ids c' = F + rec_owned b'"
  proof (cases op)
    case (OpStart x sub free now i specs label)
    with *(3) have "StartEpisode x sub free now i specs label (b, c) = (fst (StartEpisode x sub free now i specs label (b, c)), b', c')"
      by (simp add: prod_eq_iff)
    from StartEpisode_keeps [OF *(1,2) this] show ?thesis by simp
  next
    case (OpStop x now success nt)
    with *(3) have "stopLocked x now (Some success) nt (b, c) = (fst (stopLocked x now (Some success) nt (b, c)), b', c')"
      by (simp add: StopEpisode_def prod_eq_iff)
    from stopLocked_keeps [OF *(1,2) this] show ?thesis by simp
  next
    case (OpTick x free now i)
    then consider "(b', c') = (b, c)" | reason res where "stopLocked x now None reason (b, c) = (res, b', c')"
      using *(3) by (auto simp: watch_tick_def autoStop_def prod_eq_iff split: sum.splits if_splits)
    then show ?thesis
      by cases (use * stopLocked_keeps [OF *(1,2)] in auto)
  qed
qed

lemma recorder_leaks_no_subscription:
  assumes "conn_inv c" "open_ids c = F" "foldl (\<lambda>rc op. rec_step op rc) (recorder_New cfg dir, c) ops = (r, c')"
  shows "open_ids c' = F + rec_owned r"
  using rec_owner.run_keeps [OF _ assms(1) _ assms(3), of F] assms(2) by (simp add: recorder_New_def rec_owned_def)


section \<open>Which frames are recorded\<close>

text \<open>What happens to an episode while it records: frames at the tap, rounds of the drain, stream messages.\<close>

datatype vid_op = TapFrame string bytes bool time | Drain rec_outside | Stream rec_outside string bytes time

fun vid_step :: "vid_op \<Rightarrow> active_episode \<Rightarrow> video_frame list \<times> active_episode" where
  "vid_step (TapFrame cam au kf now) ep = ([], on_tap cam au kf now ep)"
| "vid_step (Drain x) ep = drain_one x ep"
| "vid_step (Stream x topic data now) ep = ([], on_stream x topic data now ep)"

text \<open>The frames written to the container and the episode after a run.\<close>

fun vid_run :: "vid_op list \<Rightarrow> active_episode \<Rightarrow> video_frame list \<times> active_episode" where
  "vid_run [] ep = ([], ep)"
| "vid_run (op # ops) ep =
     (case vid_step op ep of (w, ep1) \<Rightarrow> (case vid_run ops ep1 of (ws, ep2) \<Rightarrow> (w @ ws, ep2)))"

text \<open>The frames that pass the gate, when the cameras in \<open>st\<close> have started.\<close>

fun gated :: "string list \<Rightarrow> vid_op list \<Rightarrow> video_frame list" where
  "gated st [] = []"
| "gated st (TapFrame cam au kf now # ops) =
     (if cam \<notin> set st \<and> \<not> kf then gated st ops
      else \<lparr>vfCam = cam, vfAu = au, vfAt = now\<rparr> # gated (if cam \<in> set st then st else cam # st) ops)"
| "gated st (op # ops) = gated st ops"

text \<open>The access units of a camera with their keyframe flags.\<close>

fun frames_of :: "string \<Rightarrow> vid_op list \<Rightarrow> (bytes \<times> bool) list" where
  "frames_of cam [] = []"
| "frames_of cam (TapFrame c au kf now # ops) = (if c = cam then (au, kf) # frames_of cam ops else frames_of cam ops)"
| "frames_of cam (op # ops) = frames_of cam ops"

lemma drain_frame_keeps:
  assumes "drain_frame x f ep = (wrote, ep')"
  shows "aeVid ep' = aeVid ep \<and> aeStarted ep' = aeStarted ep \<and> aeDropped ep' = aeDropped ep + (if wrote then 0 else 1)"
  using assms
  by (auto simp: drain_frame_def Let_def split: prod.splits option.splits if_splits)

lemma gated_camera:
  "map vfAu (filter (\<lambda>f. vfCam f = cam) (gated st ops)) =
     map fst (if cam \<in> set st then frames_of cam ops else dropWhile (\<lambda>e. \<not> snd e) (frames_of cam ops))"
  by (induction st ops rule: gated.induct) auto

lemma vid_run_accounts:
  assumes "vid_run ops ep = (ws, ep')"
  shows "length ws + length (aeVid ep') + aeDropped ep' =
      length (aeVid ep) + aeDropped ep + length (gated (aeStarted ep) ops) \<and>
    subseq (ws @ aeVid ep') (aeVid ep @ gated (aeStarted ep) ops) \<and> aeDropped ep \<le> aeDropped ep' \<and>
    (length (aeVid ep) \<le> vidCap \<longrightarrow> length (aeVid ep') \<le> vidCap)"
  using assms
proof (induction ops arbitrary: ep ws)
  case (Cons op ops)
  obtain w ep1 where s: "vid_step op ep = (w, ep1)" by fastforce
  obtain ws1 where r: "vid_run ops ep1 = (ws1, ep')" "ws = w @ ws1"
    using Cons.prems s by (auto split: prod.splits)
  note IH = Cons.IH [OF r(1)]
  show ?case
  proof (cases op)
    case (TapFrame cam au kf now)
    let ?f = "\<lparr>vfCam = cam, vfAu = au, vfAt = now\<rparr>"
    have w: "w = []" and ep1: "ep1 = on_tap cam au kf now ep" using s TapFrame by auto
    consider (gate) "cam \<notin> set (aeStarted ep) \<and> \<not> kf" "ep1 = ep"
      | (room) "\<not> (cam \<notin> set (aeStarted ep) \<and> \<not> kf)" "aeVid ep1 = aeVid ep @ [?f]" "aeDropped ep1 = aeDropped ep" "length (aeVid ep) < vidCap"
      | (full) "\<not> (cam \<notin> set (aeStarted ep) \<and> \<not> kf)" "aeVid ep1 = aeVid ep" "aeDropped ep1 = Suc (aeDropped ep)"
      using ep1 by (cases "cam \<notin> set (aeStarted ep) \<and> \<not> kf"; cases "length (aeVid ep) < vidCap"; cases "cam \<in> set (aeStarted ep)")
        (simp_all add: on_tap_def Let_def)
    then show ?thesis
    proof cases
      case gate
      with IH r w TapFrame show ?thesis by simp
    next
      case room
      have "aeStarted ep1 = (if cam \<in> set (aeStarted ep) then aeStarted ep else cam # aeStarted ep)"
        using room ep1 by (auto simp: on_tap_def Let_def)
      with IH r w TapFrame room show ?thesis by auto
    next
      case full
      have st: "aeStarted ep1 = (if cam \<in> set (aeStarted ep) then aeStarted ep else cam # aeStarted ep)"
        using full ep1 by (auto simp: on_tap_def Let_def)
      have "subseq (aeVid ep @ gated (aeStarted ep1) ops) (aeVid ep @ ?f # gated (aeStarted ep1) ops)"
        by (rule list_emb_append_mono) auto
      with IH r w TapFrame full st show ?thesis by (auto intro: subseq_order.trans)
    qed
  next
    case (Drain x)
    show ?thesis
    proof (cases "aeVid ep")
      case Nil
      with s Drain IH r show ?thesis by (auto simp: drain_one_def)
    next
      case (Cons f fs)
      obtain wrote ep2 where d: "drain_frame x f (ep \<lparr>aeVid := fs\<rparr>) = (wrote, ep2)" by fastforce
      have ep1: "ep1 = ep2" "w = (if wrote then [f] else [])" using s Drain Cons d by (auto simp: drain_one_def)
      note k = drain_frame_keeps [OF d]
      with IH r ep1 Drain Cons show ?thesis by (cases wrote) auto
    qed
  next
    case (Stream x topic data now)
    with s IH r show ?thesis by (auto simp: on_stream_def)
  qed
qed auto


definition demo_writer :: episode_writer where
  "demo_writer = \<lparr>ewId = ''ep'', ewCalls = 0, ewRecords = [], ewChannels = [], ewSchemas = [], ewNextChan = 0, ewNextSchema = 0, ewSeq = 0\<rparr>"

definition demo_episode :: active_episode where
  "demo_episode =
     \<lparr>aeId = ''ep'', aeLabel = '''', aeStart = 0, aeW = demo_writer, aeSubs = [], aeTap = True, aeStarted = [], aeVid = [],
      aeVideoChannels = [], aeDropped = 0\<rparr>"

definition demo_outside :: rec_outside where
  "demo_outside =
     \<lparr>xoFs = (\<lambda>_. None), xoLib = None, xoFds = (\<lambda>_. None), xoFails = (\<lambda>_ _. None), xoClose = None,
      xoWritten = (\<lambda>rs _. length rs), xoEnc = (\<lambda>(_, au, _). Inr au)\<rparr>"


text \<open>The gate opens even if the keyframe itself is dropped: with a full channel the first frame recorded
  of a camera need not be a keyframe.\<close>

lemma dropped_keyframe_opens_gate:
  assumes "length (aeVid ep) = vidCap" "cam \<notin> set (aeStarted ep)"
  shows "aeVid (on_tap cam au True now ep) = aeVid ep \<and>
    aeVid (on_tap cam au' False now' (snd (drain_one x (on_tap cam au True now ep)))) =
      tl (aeVid ep) @ [\<lparr>vfCam = cam, vfAu = au', vfAt = now'\<rparr>]"
proof -
  let ?ep = "on_tap cam au True now ep"
  have 1: "aeVid ?ep = aeVid ep" "cam \<in> set (aeStarted ?ep)"
    using assms by (simp_all add: on_tap_def Let_def)
  obtain f fs where fs: "aeVid ep = f # fs" using assms(1) by (cases "aeVid ep") (auto simp: vidCap_def)
  obtain wrote ep2 where d: "drain_frame x f (?ep \<lparr>aeVid := fs\<rparr>) = (wrote, ep2)" by fastforce
  from drain_frame_keeps [OF d] have "aeVid ep2 = fs" "cam \<in> set (aeStarted ep2)" using 1 by simp_all
  moreover have "snd (drain_one x ?ep) = ep2" by (simp add: drain_one_def 1 fs d)
  ultimately show ?thesis using 1 fs assms(1) by (simp add: on_tap_def)
qed


section \<open>A stopped episode is complete\<close>

text \<open>The recorder while it records: the writer is in order and the partial file is the episode's.\<close>

definition recording_ok :: "active_episode \<Rightarrow> recorder \<Rightarrow> bool" where
  "recording_ok ep r \<longleftrightarrow> rrEp r = Some ep \<and> ew_ok (aeW ep) \<and> ewId (aeW ep) = aeId ep \<and> wf_map (rrDir r) \<and>
     map_of (rrDir r) (partialName (aeId ep)) \<noteq> None"

lemma addChannel_id: "ewId (snd (addChannel fds fails t m w)) = ewId w"
  by (auto simp: addChannel_def schema_for_def mcap_put_def Let_def split: option.splits prod.splits if_splits)

lemma ew_write_id: "ewId (snd (ew_write fails t d now w)) = ewId w"
  by (auto simp: ew_write_def mcap_put_def Let_def split: option.splits)

lemma drain_frame_writer:
  assumes "drain_frame x f ep = (wrote, ep')" "ew_ok (aeW ep)"
  shows "ew_ok (aeW ep') \<and> ewId (aeW ep') = ewId (aeW ep) \<and> aeId ep' = aeId ep \<and> aeSubs ep' = aeSubs ep \<and>
    aeLabel ep' = aeLabel ep \<and> aeStart ep' = aeStart ep"
proof -
  obtain e w where a: "(if vfCam f \<in> set (aeVideoChannels ep) then (None, aeW ep)
      else addVideoChannel (xoFds x) (xoFails x) (vfCam f) (aeW ep)) = (e, w)" by fastforce
  have w: "ew_ok w" "ewId w = ewId (aeW ep)"
    using a assms(2) addChannel_ok [OF assms(2)] addChannel_id [of "xoFds x" "xoFails x" _ _ "aeW ep"]
    by (auto simp: addVideoChannel_def split: if_splits) (metis snd_conv)+
  obtain e2 w2 where v: "writeVideo (xoEnc x) (xoFails x) (vfCam f) (vfAu f) (vfAt f) w = (e2, w2)" by fastforce
  have w2: "ew_ok w2" "ewId w2 = ewId w"
    using v w(1) ew_write_ok [OF w(1)] ew_write_id [of "xoFails x" _ _ _ w]
    by (auto simp: writeVideo_def split: sum.splits) (metis snd_conv)+
  from assms(1) a v w w2 show ?thesis
    by (cases e; cases e2) (auto simp: drain_frame_def Let_def)
qed

lemma drain_frames_writer:
  "ew_ok (aeW ep) \<Longrightarrow> ew_ok (aeW (drain_frames x fs ep)) \<and> ewId (aeW (drain_frames x fs ep)) = ewId (aeW ep) \<and>
     aeId (drain_frames x fs ep) = aeId ep \<and> aeSubs (drain_frames x fs ep) = aeSubs ep \<and>
     aeLabel (drain_frames x fs ep) = aeLabel ep \<and> aeStart (drain_frames x fs ep) = aeStart ep"
proof (induction fs arbitrary: ep)
  case (Cons f fs)
  obtain wrote ep1 where d: "drain_frame x f ep = (wrote, ep1)" by fastforce
  from drain_frame_writer [OF d Cons.prems] Cons.IH [of ep1] show ?case by (simp add: d)
qed simp

text \<open>The writer at the end: with a tap, after the last frames are flushed.\<close>

definition final_writer :: "rec_outside \<Rightarrow> active_episode \<Rightarrow> episode_writer" where
  "final_writer x ep = aeW (if aeTap ep then drainVideo x ep else ep)"

lemma final_writer_ok:
  assumes "recording_ok ep r"
  shows "ew_ok (final_writer x ep)" "ewId (final_writer x ep) = aeId ep"
  using assms drain_frames_writer [of "ep \<lparr>aeVid := []\<rparr>" x "aeVid ep"]
  by (simp_all add: recording_ok_def final_writer_def drainVideo_def)

lemma stop_episode_fields:
  "ew_ok (aeW ep) \<Longrightarrow> aeId (if aeTap ep then drainVideo x ep else ep) = aeId ep"
  using drain_frames_writer [of "ep \<lparr>aeVid := []\<rparr>" x "aeVid ep"] by (simp add: drainVideo_def)

text \<open>What \<^verbatim>\<open>finalize\<close> leaves in the directory.\<close>

lemma finalize_dir:
  assumes "finalize fs fails close written sc w dir = (err, sc', dir')" "scEpisodeID sc = ewId w" "ew_ok w"
    "map_of dir (partialName (ewId w)) \<noteq> None"
  shows "(map_of dir' (partialName (ewId w)) \<noteq> None \<or> map_of dir' (finalName (ewId w)) \<noteq> None) \<and>
    scEpisodeID sc' = ewId w \<and> scStreams sc' = sidecar_streams w \<and> scSuccess sc' = scSuccess sc \<and> scCrashed sc' = scCrashed sc \<and>
    ((\<forall>c. fs c = None) \<and> close = None \<longrightarrow>
      err = None \<and> map_of dir' (partialName (ewId w)) = None \<and> map_of dir' (sidecarName (ewId w)) = Some (FSidecar sc') \<and>
      (\<exists>rs. map_of dir' (finalName (ewId w)) = Some (FMcap rs True) \<and> mcap_ok rs \<and>
        (\<forall>c. messages_on c rs = messages_on c (ewRecords w))))"
proof -
  define sc1 where "sc1 = sc \<lparr>scStreams := sidecar_streams w, scBytes := written (ewRecords w) False\<rparr>"
  define w1 where "w1 = snd (mcap_put fails (MMetadata sc1) w)"
  have "ewRecords w1 = ewRecords w \<or> ewRecords w1 = ewRecords w @ [MMetadata sc1]"
    by (auto simp: w1_def mcap_put_def split: option.splits)
  then have rs: "mcap_ok (ewRecords w1)" "messages_on c (ewRecords w1) = messages_on c (ewRecords w)" for c
    using ew_okD(1) [OF assms(3)] by (auto simp: mcap_ok_snoc)
  have sc': "sc' = sc1 \<lparr>scBytes := written (ewRecords w1) True\<rparr>"
    using assms(1) by (auto simp: finalize_def Let_def sc1_def w1_def split: option.splits prod.splits)
  have sid: "scEpisodeID sc' = ewId w" using assms(2) by (simp add: sc' sc1_def)
  have dir': "close \<noteq> None \<and> dir' = dir \<or>
      (\<exists>d. d = map_set (partialName (ewId w)) (FMcap (ewRecords w1) True) dir \<and>
        (fs (FsRename (partialName (ewId w)) (finalName (ewId w))) \<noteq> None \<and> dir' = d \<or>
         (err, dir') = write_sidecar fs sc' (map_set (finalName (ewId w)) (FMcap (ewRecords w1) True) (map_del (partialName (ewId w)) d))))"
    using assms(1) unfolding finalize_def Let_def sc1_def [symmetric] w1_def [symmetric] sc' [symmetric]
    by (cases close; cases "fs (FsRename (partialName (ewId w)) (finalName (ewId w)))") (auto split: prod.splits)
  have keep: "map_of dir' (partialName (ewId w)) \<noteq> None \<or> map_of dir' (finalName (ewId w)) \<noteq> None"
    using dir' assms(4) sid by (auto simp: write_sidecar_def Let_def entry_simps split: option.splits)
  have ok: "err = None \<and> map_of dir' (partialName (ewId w)) = None \<and> map_of dir' (sidecarName (ewId w)) = Some (FSidecar sc') \<and>
      map_of dir' (finalName (ewId w)) = Some (FMcap (ewRecords w1) True)"
    if "\<forall>c. fs c = None" "close = None"
    using dir' that sid by (auto simp: write_sidecar_def Let_def entry_simps)
  show ?thesis
    using keep ok rs sid by (auto simp: sc' sc1_def)
qed

lemma start_recording_ok:
  assumes "StartEpisode x sub free now i specs label (r, c) = (Inr i', r1, c1)" "wf_map (rrDir r)" "rrEp r1 = Some ep"
  shows "recording_ok ep r1 \<and> aeId ep = i"
proof -
  obtain w dir ids where *: "newEpisodeWriter (xoFs x) (xoLib x) (xoFds x) (xoFails x) i specs (rrDir r) = (Inr w, dir)"
      "r1 = r \<lparr>rrDir := dir, rrEp := Some \<lparr>aeId = i, aeLabel = label, aeStart = now, aeW = w, aeSubs = ids,
        aeTap = rgCameras (rrCfg r), aeStarted = [], aeVid = [], aeVideoChannels = [], aeDropped = 0\<rparr>\<rparr>"
    using assms(1) by (auto simp: StartEpisode_def split: option.splits prod.splits sum.splits)
  from newEpisodeWriter_ok [OF *(1)] *(2) assms(2,3) show ?thesis by (auto simp: recording_ok_def)
qed

lemma vid_step_ok:
  assumes "ew_ok (aeW ep)" "vid_step op ep = (w, ep')"
  shows "ew_ok (aeW ep') \<and> ewId (aeW ep') = ewId (aeW ep) \<and> aeId ep' = aeId ep"
proof (cases op)
  case (TapFrame cam au kf now)
  with assms show ?thesis by (auto simp: on_tap_def Let_def)
next
  case (Drain x)
  show ?thesis
  proof (cases "aeVid ep")
    case (Cons f fs)
    obtain wrote ep1 where d: "drain_frame x f (ep \<lparr>aeVid := fs\<rparr>) = (wrote, ep1)" by fastforce
    with Cons Drain assms(2) have "ep' = ep1" by (auto simp: drain_one_def)
    with drain_frame_writer [OF d] assms(1) show ?thesis by simp
  qed (use assms Drain in \<open>auto simp: drain_one_def\<close>)
next
  case (Stream x topic data now)
  obtain e w1 where "ew_write (xoFails x) topic data now (aeW ep) = (e, w1)" by fastforce
  with Stream assms ew_write_ok [OF assms(1) this] ew_write_id [of "xoFails x" topic data now "aeW ep"] show ?thesis
    by (auto simp: on_stream_def)
qed

lemma vid_run_ok:
  "ew_ok (aeW ep) \<Longrightarrow> vid_run ops ep = (ws, ep') \<Longrightarrow> ew_ok (aeW ep') \<and> ewId (aeW ep') = ewId (aeW ep) \<and> aeId ep' = aeId ep"
proof (induction ops arbitrary: ep ws)
  case (Cons op ops)
  obtain w ep1 where s: "vid_step op ep = (w, ep1)" by fastforce
  obtain ws1 where "vid_run ops ep1 = (ws1, ep')" using Cons.prems(2) s by (auto split: prod.splits)
  from Cons.IH [OF _ this] vid_step_ok [OF Cons.prems(1) s] show ?case by simp
qed simp

lemma vid_run_recording_ok:
  "recording_ok ep r \<Longrightarrow> vid_run ops ep = (ws, ep') \<Longrightarrow> recording_ok ep' (r \<lparr>rrEp := Some ep'\<rparr>) \<and> aeId ep' = aeId ep"
  using vid_run_ok [of ep ops ws ep'] by (simp add: recording_ok_def)

lemma stopLocked_complete:
  assumes "recording_ok ep r" "stopLocked x now success notes (r, c) = ((sc, err), r', c')"
  shows "rrEp r' = None \<and>
    (map_of (rrDir r') (partialName (aeId ep)) \<noteq> None \<or> map_of (rrDir r') (finalName (aeId ep)) \<noteq> None) \<and>
    ((\<forall>c. xoFs x c = None) \<and> xoClose x = None \<longrightarrow>
      (\<exists>rs s. sc = Some s \<and> err = None \<and> map_of (rrDir r') (finalName (aeId ep)) = Some (FMcap rs True) \<and> mcap_ok rs \<and>
        map_of (rrDir r') (partialName (aeId ep)) = None \<and> map_of (rrDir r') (sidecarName (aeId ep)) = Some (FSidecar s) \<and>
        scSuccess s = success \<and> \<not> scCrashed s \<and>
        (distinct (ew_ids (final_writer x ep)) \<longrightarrow>
          (\<forall>t ch. map_of (ewChannels (final_writer x ep)) t = Some ch \<longrightarrow>
            \<lparr>skSubject = t, skMessage = chMessage ch, skCount = messages_on (chId ch) rs\<rparr> \<in> set (scStreams s)))))"
proof -
  let ?w = "final_writer x ep"
  let ?ep = "if aeTap ep then drainVideo x ep else ep"
  note w = final_writer_ok [OF assms(1), of x]
  from assms(1) have r: "rrEp r = Some ep" "ew_ok (aeW ep)" "map_of (rrDir r) (partialName (ewId ?w)) \<noteq> None"
    by (auto simp: recording_ok_def w(2))
  define sc0 where "sc0 = \<lparr>scFormatVersion = FormatVersion, scEpisodeID = aeId ?ep, scPlatformID = rgPlatform (rrCfg r),
    scRoverID = rgRover (rrCfg r), scTaskLabel = aeLabel ?ep, scStart = aeStart ?ep, scEnd = now,
    scDuration = now - aeStart ?ep, scSuccess = success, scNotes = notes, scCrashed = False, scBytes = 0,
    scVideoFramesDropped = aeDropped ?ep, scStreams = []\<rparr>"
  obtain err1 sc1 dir1 where f: "finalize (xoFs x) (xoFails x) (xoClose x) (xoWritten x) sc0 ?w (rrDir r) = (err1, sc1, dir1)"
    by (metis prod_cases3)
  have res: "sc = Some sc1" "err = err1" "r' = r \<lparr>rrEp := None, rrDir := dir1\<rparr>"
    using assms(2) f unfolding stopLocked_def Let_def prod.case r(1) option.case final_writer_def sc0_def by auto
  have sid: "scEpisodeID sc0 = ewId ?w" using stop_episode_fields [OF r(2), of x] w(2) by (simp add: sc0_def)
  note fin = finalize_dir [OF f sid w(1) r(3), unfolded w(2)]
  have "\<lparr>skSubject = t, skMessage = chMessage ch, skCount = messages_on (chId ch) (ewRecords ?w)\<rparr> \<in> set (sidecar_streams ?w)"
    if "distinct (ew_ids ?w)" "map_of (ewChannels ?w) t = Some ch" for t ch
    using ew_okD(6) [OF w(1) that] map_of_SomeD [OF that(2)] by (force simp: sidecar_streams_def)
  moreover have "scSuccess sc0 = success" "\<not> scCrashed sc0" by (simp_all add: sc0_def)
  ultimately show ?thesis using fin res by auto
qed


definition demo_recorder :: recorder where
  "demo_recorder = recorder_New \<lparr>rgRover = ''r1'', rgPlatform = ''p'', rgCameras = False, rgMinFree = 1\<rparr> []"



section \<open>Paths\<close>

text \<open>A path handed out names an existing file directly in the recording directory, and not the episode
  that is being recorded.\<close>

lemma rec_Path_inside:
  assumes "rec_Path x i r = Inr p"
  shows "CHR ''/'' \<notin> set p \<and> map_of (rrDir r) p \<noteq> None \<and> has_suffix p ''.mcap'' \<and>
    (\<forall>ep. rrEp r = Some ep \<longrightarrow> aeId ep \<noteq> i \<and> p \<noteq> partialName (aeId ep))"
proof -
  from assms have p: "p = entry i ''.mcap''" "is_base i" "map_of (rrDir r) p \<noteq> None" "map_option aeId (rrEp r) \<noteq> Some i"
    by (auto simp: rec_Path_def Let_def split: if_splits option.splits)
  have "p \<noteq> partialName j" for j
    by (rule last_char_neq) (simp add: p(1) entry_def partialName_def)
  with p show ?thesis by (auto simp: is_base_def entry_def has_suffix_iff)
qed

end
