(* ===== verification/Spec2Isabelle.thy ===== *)
theory Spec2Isabelle
  imports Mission Gateway AlertMirror Apply Recorder
begin

text \<open>
  Verification of the Go programs of the rover platform under \<^verbatim>\<open>src/\<close>: the agent that runs on a
  rover, the proxy that serves a fleet, and the survey module.

  \<^bold>\<open>The program.\<close> The agent embeds a message bus, attaches module images, grants each module a user
  on the bus, relays a module's commands to the platform through brokers, keeps the alerts of the
  rover, and serves a local dashboard. Modules are wanted by the proxy (a desired set sent over the
  bus) or installed locally (an upload over HTTP); a reconciler makes the attached images agree with
  the merged set. The survey module drives a mission. The proxy mirrors alerts and hands out magic
  links with which a browser logs in at a rover.

  \<^bold>\<open>Conventions.\<close> A Go struct is a \<open>record\<close>, an enumeration or an error a \<open>datatype\<close>, a function
  returning \<^verbatim>\<open>(T, error)\<close> returns a sum, one returning only an error an option, and a panic is \<open>None\<close>.
  Maps are association lists (\<open>map_set\<close>, \<open>map_del\<close>, \<open>map_of\<close>); where Go iterates over a map the order
  is an argument. Times and durations are integers in nanoseconds, floats a datatype with infinities
  and NaN over the reals, so rounding is not modelled; bytes are 8-bit words. What is outside the
  programs (the bus, databases, the file system, other processes, generated protobuf code, signature
  libraries) answers through arguments, and the theorems hold for every answer unless a hypothesis
  says otherwise. Goroutines appear as interleavings of complete handler calls, since the handlers
  hold their locks; a loop over a channel or ticker is one definition per iteration, run over any
  sequence of events. No definition uses fuel: every recursion is on data that shrinks.

  \<^bold>\<open>Foundations.\<close>
  \<^item> \<open>Prelude\<close>: error lists, Go maps, strings, times and floats, with the lemmas the components share.
  \<^item> \<open>Effects\<close>: computations that call the outside and log their calls, with Hoare rules.
  \<^item> \<open>Paths\<close>, \<open>NetText\<close>: the functions of the standard library that the components use for paths,
    base 64, hosts and addresses.
  \<^item> \<open>Sql\<close>, \<open>Access\<close>: statements on tables, and the roles of users on rovers (\<^verbatim>\<open>proxy/internal/db/access.go\<close>).
  \<^item> \<open>Wire\<close>: a concrete byte format that instantiates the codec arguments.

  \<^bold>\<open>Components.\<close>
  \<^item> \<open>Descriptor\<close> (\<^verbatim>\<open>protocol/platform/descriptor\<close>): joints, kinematics and their validation. Validation
    accepts exactly the well-formed descriptors; names and bus ids are inverse; the wheel speeds give
    back the commanded twist.
  \<^item> \<open>Manifest\<close>, \<open>LocalAuth\<close> (\<^verbatim>\<open>agent/internal/modules/manifest.go\<close>, \<^verbatim>\<open>acl.go\<close>, \<^verbatim>\<open>agent/internal/localauth\<close>):
    module manifests, the permissions derived from them and the bus users. The parser accepts exactly
    the documents of an independent specification; granted subjects stay in the module's sandbox; no
    module reaches another's subjects.
  \<^item> \<open>Brokers\<close> (\<^verbatim>\<open>servo_broker.go\<close>, \<^verbatim>\<open>drive_broker.go\<close>, \<^verbatim>\<open>teleop_input_broker.go\<close>, \<^verbatim>\<open>uplink.go\<close>,
    \<^verbatim>\<open>platform_deny.go\<close>): life cycle and message handlers. The locale \<open>subscription_owner\<close> states that
    no subscription leaks; the other theorems are the guards of platform joints and the mode gates.
  \<^item> \<open>Nav\<close>, \<open>Mission\<close> (\<^verbatim>\<open>modules/survey/internal/nav\<close>, \<^verbatim>\<open>mission\<close>): the survey mission as a state
    machine. It never panics, drives only when authorized and within its limits, and visits the legs
    in order.
  \<^item> \<open>Desired\<close> (\<^verbatim>\<open>desired.go\<close>, \<^verbatim>\<open>local.go\<close>, \<^verbatim>\<open>modverify/identity.go\<close>): desired sets and signer pins,
    a refinement of a map (locale \<open>module_store\<close>).
  \<^item> \<open>Dropin\<close>, \<open>Reconciler\<close> (\<^verbatim>\<open>dropin.go\<close>, \<^verbatim>\<open>reconciler.go\<close>): the reconciler as an effectful
    computation. A unit starts only when image, credentials and configuration are in place; a pass
    converges and is idempotent.
  \<^item> \<open>Discovery\<close>, \<open>Snapshot\<close>, \<open>Fetcher\<close>, \<open>Manager\<close>, \<open>Install\<close> (\<^verbatim>\<open>config.go\<close>, \<^verbatim>\<open>discovery.go\<close>,
    \<^verbatim>\<open>creds.go\<close>, \<^verbatim>\<open>health.go\<close>, \<^verbatim>\<open>publisher.go\<close>, \<^verbatim>\<open>fetcher.go\<close>, \<^verbatim>\<open>manager.go\<close>, \<^verbatim>\<open>install.go\<close>): the module
    manager around the reconciler. Over every history of uploads, confirmations, removals, desired
    sets and failures the pins only grow, local modules are pinned, and brokers and pollers run only
    for attached modules.
  \<^item> \<open>Alerts\<close>, \<open>AlertMirror\<close> (\<^verbatim>\<open>agent/internal/alerts\<close>, \<^verbatim>\<open>proxy/internal/alerts\<close>, \<^verbatim>\<open>db/alerts_repo.go\<close>,
    \<^verbatim>\<open>api/alerts.go\<close>): the two alert stores as instances of the locale \<open>alert_log\<close>; they agree, the
    alert about the proxy follows the link, and the API respects roles.
  \<^item> \<open>MagicLink\<close>, \<open>Gateway\<close> (\<^verbatim>\<open>proxy/internal/magiclink\<close>, \<^verbatim>\<open>agent/internal/magiclink\<close>,
    \<^verbatim>\<open>agent/internal/gateway\<close>, \<^verbatim>\<open>agent/internal/session\<close>): links are read back until they expire, and
    only local peers with a token or an issued session change modules.

  \<^bold>\<open>Not modelled.\<close> Cameras, the recorder, system probes and the audit logs of the agent; sign-in,
  module registry, image listing and hub of the proxy; the module SDK and the simulator; the C++
  core, the firmware and the dashboard. They are input and output around third-party libraries, or
  other languages. Memory, scheduling inside a handler and the timing of tickers are not modelled.
\<close>

end
